(* ===== verification/Prelude.thy ===== *)
theory Prelude
  imports Main "HOL-Library.Word" "HOL-Library.Char_ord" "HOL-Library.List_Lexorder"
begin

text \<open>
  Shared vocabulary of the development: the crate's error values and the result type
  (\<open>crates/kapsaro-core/src/error.rs\<close>), the \<open>?\<close> operator and \<open>collect::<Result<_>>\<close>, and
  the operations of Rust's \<open>str\<close>, \<open>Vec\<close> and \<open>HashSet\<close> that the components use.

  Text is a list of bytes: a Rust \<open>&str\<close> is its UTF-8 encoding, one \<open>char\<close> per byte, so
  \<open>length\<close> is Rust's \<open>len()\<close>. Binary data is a list of 8-bit words. An error keeps its category,
  its rule and its recovery code; the message text is not modelled.
\<close>

section \<open>Automation shared by the components\<close>

named_theorems res_simps "equations and inversion rules of the result type"
named_theorems error_simps "the fields of the crate's errors"
named_theorems text_simps "operations on Rust strings"

section \<open>Errors\<close>

datatype error_kind =
  Schema | Crypto | Ssh | Verify | Io | Parse | Config | NotFound
  | InvalidArgument | InvalidOperation

record error =
  err_kind :: error_kind
  err_rule :: "string option"
  err_recovery :: "string option"

type_synonym 'a res = "error + 'a"

definition plain_error :: "error_kind \<Rightarrow> error" where
  "plain_error k = \<lparr>err_kind = k, err_rule = None, err_recovery = None\<rparr>"

definition verification_error :: "string \<Rightarrow> error" where
  "verification_error r = \<lparr>err_kind = Verify, err_rule = Some r, err_recovery = None\<rparr>"

definition with_recovery :: "error \<Rightarrow> string \<Rightarrow> error" where
  "with_recovery e code = e\<lparr>err_recovery := Some code\<rparr>"

definition is_content_failure :: "error_kind \<Rightarrow> bool" where
  "is_content_failure k \<longleftrightarrow> k \<in> {Schema, Crypto, Verify, Parse, InvalidArgument}"

definition absent_as_none :: "'a res \<Rightarrow> 'a option res" where
  "absent_as_none opened =
     (case opened of
        Inr value \<Rightarrow> Inr (Some value)
      | Inl e \<Rightarrow> if err_kind e = NotFound then Inr None else Inl e)"

lemma plain_error_fields [simp, error_simps]:
  "err_kind (plain_error k) = k" "err_rule (plain_error k) = None"
  "err_recovery (plain_error k) = None"
  by (simp_all add: plain_error_def)

lemma verification_error_fields [simp, error_simps]:
  "err_kind (verification_error r) = Verify" "err_rule (verification_error r) = Some r"
  "err_recovery (verification_error r) = None"
  by (simp_all add: verification_error_def)

lemma with_recovery_fields [simp, error_simps]:
  "err_kind (with_recovery e c) = err_kind e" "err_rule (with_recovery e c) = err_rule e"
  "err_recovery (with_recovery e c) = Some c"
  by (simp_all add: with_recovery_def)

lemma plain_error_inject [simp]: "plain_error a = plain_error b \<longleftrightarrow> a = b"
  by (auto simp: plain_error_def)

lemma verification_error_inject [simp]:
  "verification_error a = verification_error b \<longleftrightarrow> a = b"
  by (auto simp: verification_error_def)

lemma verification_error_neq_plain [simp]:
  "verification_error r \<noteq> plain_error k" "plain_error k \<noteq> verification_error r"
  by (auto simp: verification_error_def plain_error_def)

section \<open>The result type\<close>

definition res_bind :: "'a res \<Rightarrow> ('a \<Rightarrow> 'b res) \<Rightarrow> 'b res" where
  "res_bind m f = (case m of Inl e \<Rightarrow> Inl e | Inr x \<Rightarrow> f x)"

definition res_map :: "('a \<Rightarrow> 'b) \<Rightarrow> 'a res \<Rightarrow> 'b res" where
  "res_map f m = (case m of Inl e \<Rightarrow> Inl e | Inr x \<Rightarrow> Inr (f x))"

definition map_err :: "(error \<Rightarrow> error) \<Rightarrow> 'a res \<Rightarrow> 'a res" where
  "map_err f m = (case m of Inl e \<Rightarrow> Inl (f e) | Inr x \<Rightarrow> Inr x)"

definition ok_or :: "error \<Rightarrow> 'a option \<Rightarrow> 'a res" where
  "ok_or e m = (case m of None \<Rightarrow> Inl e | Some x \<Rightarrow> Inr x)"

definition is_ok :: "'a res \<Rightarrow> bool" where
  "is_ok m = (case m of Inl _ \<Rightarrow> False | Inr _ \<Rightarrow> True)"

fun collect_res :: "('a \<Rightarrow> 'b res) \<Rightarrow> 'a list \<Rightarrow> 'b list res" where
  "collect_res f [] = Inr []"
| "collect_res f (x # xs) = res_bind (f x) (\<lambda>y. res_map ((#) y) (collect_res f xs))"

fun try_for_each :: "('a \<Rightarrow> unit res) \<Rightarrow> 'a list \<Rightarrow> unit res" where
  "try_for_each f [] = Inr ()"
| "try_for_each f (x # xs) = res_bind (f x) (\<lambda>_. try_for_each f xs)"

lemma res_bind_simps [simp, res_simps]:
  "res_bind (Inl e) f = Inl e" "res_bind (Inr x) f = f x"
  by (simp_all add: res_bind_def)

lemma res_map_simps [simp, res_simps]:
  "res_map f (Inl e) = Inl e" "res_map f (Inr x) = Inr (f x)"
  by (simp_all add: res_map_def)

lemma map_err_simps [simp, res_simps]:
  "map_err f (Inl e) = Inl (f e)" "map_err f (Inr x) = Inr x"
  by (simp_all add: map_err_def)

lemma ok_or_simps [simp, res_simps]:
  "ok_or e None = Inl e" "ok_or e (Some x) = Inr x"
  by (simp_all add: ok_or_def)

lemma is_ok_simps [simp, res_simps]: "is_ok (Inr x)" "\<not> is_ok (Inl e)"
  by (simp_all add: is_ok_def)

lemma res_bind_Inr [simp, res_simps]:
  "res_bind m f = Inr y \<longleftrightarrow> (\<exists>x. m = Inr x \<and> f x = Inr y)"
  by (cases m) auto

lemma res_bind_Inl [res_simps]:
  "res_bind m f = Inl e \<longleftrightarrow> m = Inl e \<or> (\<exists>x. m = Inr x \<and> f x = Inl e)"
  by (cases m) auto

lemma res_map_Inr [simp, res_simps]: "res_map f m = Inr y \<longleftrightarrow> (\<exists>x. m = Inr x \<and> y = f x)"
  by (cases m) auto

lemma res_map_Inl [simp, res_simps]: "res_map f m = Inl e \<longleftrightarrow> m = Inl e"
  by (cases m) auto

lemma map_err_Inr [simp, res_simps]: "map_err f m = Inr y \<longleftrightarrow> m = Inr y"
  by (cases m) auto

lemma map_err_Inl [res_simps]: "map_err f m = Inl e \<longleftrightarrow> (\<exists>e'. m = Inl e' \<and> e = f e')"
  by (cases m) auto

lemma ok_or_Inr [simp, res_simps]: "ok_or e m = Inr x \<longleftrightarrow> m = Some x"
  by (cases m) auto

lemma ok_or_Inl [simp, res_simps]: "ok_or e m = Inl e' \<longleftrightarrow> m = None \<and> e' = e"
  by (cases m) auto

lemma is_ok_iff: "is_ok m \<longleftrightarrow> (\<exists>x. m = Inr x)"
  by (cases m) auto

lemma is_okE: "is_ok m \<Longrightarrow> (\<And>x. m = Inr x \<Longrightarrow> P) \<Longrightarrow> P"
  by (auto simp: is_ok_iff)

lemma collect_res_Inr:
  "collect_res f xs = Inr ys \<longleftrightarrow> list_all2 (\<lambda>x y. f x = Inr y) xs ys"
  by (induction xs arbitrary: ys) (auto simp: list_all2_Cons1)

lemma collect_res_map: "(\<And>x. x \<in> set xs \<Longrightarrow> f x = Inr (g x)) \<Longrightarrow> collect_res f xs = Inr (map g xs)"
  by (induction xs) auto

lemma collect_res_length: "collect_res f xs = Inr ys \<Longrightarrow> length ys = length xs"
  by (auto simp: collect_res_Inr list_all2_lengthD)

lemma collect_res_cong:
  "(\<And>x. x \<in> set xs \<Longrightarrow> f x = g x) \<Longrightarrow> collect_res f xs = collect_res g xs"
  by (induction xs) auto

lemma try_for_each_Inr [simp]: "try_for_each f xs = Inr u \<longleftrightarrow> (\<forall>x\<in>set xs. f x = Inr ())"
  by (induction xs) auto

lemma try_for_each_cong [fundef_cong]:
  "xs = ys \<Longrightarrow> (\<And>x. x \<in> set ys \<Longrightarrow> f x = g x) \<Longrightarrow> try_for_each f xs = try_for_each g ys"
  by (induction ys arbitrary: xs) auto

lemma try_for_each_Inl_in: "try_for_each f xs = Inl e \<Longrightarrow> \<exists>x\<in>set xs. f x = Inl e"
  by (induction xs) (auto simp: res_bind_Inl)

lemma find_reject_iff [simp]:
  "(case find P xs of None \<Rightarrow> Inr () | Some x \<Rightarrow> Inl e) = Inr u \<longleftrightarrow> (\<forall>x\<in>set xs. \<not> P x)"
  by (auto simp: find_None_iff find_Some_iff split: option.split)

section \<open>Slices\<close>

text \<open>\<open>slice::chunks(n)\<close>: consecutive pieces of \<open>n\<close> elements, the last one possibly shorter.\<close>

function chunks :: "nat \<Rightarrow> 'a list \<Rightarrow> 'a list list" where
  "chunks n xs = (if n = 0 \<or> xs = [] then [] else take n xs # chunks n (drop n xs))"
  by pat_completeness auto
termination
  by (relation "measure (\<lambda>(n, xs). length xs)") auto

declare chunks.simps [simp del]

lemma chunks_Nil [simp]: "chunks n [] = []"
  by (simp add: chunks.simps)

lemma concat_chunks [simp]: "n > 0 \<Longrightarrow> concat (chunks n xs) = xs"
  by (induction n xs rule: chunks.induct) (subst chunks.simps, auto)

lemma in_chunksD: "ys \<in> set (chunks n xs) \<Longrightarrow> y \<in> set ys \<Longrightarrow> y \<in> set xs"
proof (induction n xs rule: chunks.induct)
  case (1 n xs)
  then show ?case
    by (subst (asm) chunks.simps) (auto split: if_splits dest: in_set_takeD in_set_dropD)
qed

lemma length_in_chunks: "ys \<in> set (chunks n xs) \<Longrightarrow> length ys \<le> n"
proof (induction n xs rule: chunks.induct)
  case (1 n xs)
  then show ?case by (subst (asm) chunks.simps) (auto split: if_splits)
qed

section \<open>Ordered maps\<close>

text \<open>A \<open>BTreeMap\<close> as the list of its entries in key order.\<close>

fun btree_insert :: "'k::linorder \<Rightarrow> 'v \<Rightarrow> ('k \<times> 'v) list \<Rightarrow> ('k \<times> 'v) list" where
  "btree_insert k v [] = [(k, v)]"
| "btree_insert k v ((k', v') # m) =
     (if k < k' then (k, v) # (k', v') # m
      else if k = k' then (k, v) # m
      else (k', v') # btree_insert k v m)"

definition btree_wf :: "('k::linorder \<times> 'v) list \<Rightarrow> bool" where
  "btree_wf m \<longleftrightarrow> sorted_wrt (<) (map fst m)"

lemma btree_wf_simps [simp]:
  "btree_wf []" "btree_wf ((k, v) # m) \<longleftrightarrow> (\<forall>k'\<in>fst ` set m. k < k') \<and> btree_wf m"
  by (auto simp: btree_wf_def)

lemma btree_insert_keys: "fst ` set (btree_insert k v m) = insert k (fst ` set m)"
  by (induction k v m rule: btree_insert.induct) auto

lemma btree_insert_wf [simp]: "btree_wf m \<Longrightarrow> btree_wf (btree_insert k v m)"
  by (induction k v m rule: btree_insert.induct) (auto simp: btree_insert_keys)

lemma map_of_btree_insert [simp]:
  "map_of (btree_insert k v m) = (map_of m)(k \<mapsto> v)"
  by (induction k v m rule: btree_insert.induct) auto

lemma btree_insert_last:
  "(\<forall>k'\<in>fst ` set m. k' < k) \<Longrightarrow> btree_insert k v m = m @ [(k, v)]"
  by (induction k v m rule: btree_insert.induct) auto

lemma btree_distinct: "btree_wf m \<Longrightarrow> distinct (map fst m)"
  by (simp add: btree_wf_def strict_sorted_iff)

lemma btree_eqI:
  assumes m: "btree_wf m" and m': "btree_wf m'" and eq: "map_of m = map_of m'"
  shows "m = m'"
proof (rule map_sorted_distinct_set_unique [of fst])
  show set: "set m = set m'"
    using eq btree_distinct [OF m] btree_distinct [OF m'] by (simp add: map_of_inject_set)
  show "inj_on fst (set m \<union> set m')"
    using btree_distinct [OF m] by (simp add: set [symmetric] distinct_map)
qed (use m m' btree_distinct in \<open>auto simp: btree_wf_def strict_sorted_iff\<close>)

lemma map_insort_key: "map f (insort_key f x xs) = insort (f x) (map f xs)"
  by (induction xs) auto

lemma map_sort_key: "map f (sort_key f xs) = sort (map f xs)"
  by (induction xs) (simp_all add: map_insort_key)

section \<open>Bytes and text\<close>

type_synonym u8 = "8 word"

definition as_bytes :: "string \<Rightarrow> u8 list" where
  "as_bytes s = map of_char s"

definition from_bytes :: "u8 list \<Rightarrow> string" where
  "from_bytes bs = map (\<lambda>b. char_of (unat b)) bs"

lemma unat_of_char [simp]: "unat (of_char c :: u8) = of_char c"
proof -
  have "unat (of_nat (of_char c) :: u8) = of_char c"
    by (simp only: unsigned_of_nat) (simp add: take_bit_nat_eq_self)
  moreover have "(of_nat (of_char c) :: u8) = of_char c"
    by (simp add: of_char_def)
  ultimately show ?thesis by simp
qed

lemma of_char_char_of_unat [simp]: "of_char (char_of (unat (b :: u8))) = b"
proof -
  have "unat b < 256" using unsigned_less [of b, where ?'a = nat] by simp
  then have "unat (of_char (char_of (unat b)) :: u8) = unat b" by (simp add: unat_of_char)
  then show ?thesis by (rule unsigned_word_eqI)
qed

lemma from_bytes_as_bytes [simp]: "from_bytes (as_bytes s) = s"
  by (simp add: from_bytes_def as_bytes_def comp_def map_idI)

lemma as_bytes_from_bytes [simp]: "as_bytes (from_bytes bs) = bs"
  by (simp add: from_bytes_def as_bytes_def comp_def map_idI)

lemma length_as_bytes [simp]: "length (as_bytes s) = length s"
  by (simp add: as_bytes_def)

lemma length_from_bytes [simp]: "length (from_bytes bs) = length bs"
  by (simp add: from_bytes_def)

lemma as_bytes_append [simp]: "as_bytes (s @ t) = as_bytes s @ as_bytes t"
  by (simp add: as_bytes_def)

lemma as_bytes_inject [simp]: "as_bytes s = as_bytes t \<longleftrightarrow> s = t"
  by (metis from_bytes_as_bytes)

end
