(* ===== verification/Rust_Str.thy ===== *)
theory Rust_Str
  imports Prelude
begin

text \<open>
  The operations of Rust's \<open>str\<close> that the crate calls, on UTF-8 byte strings: prefixes, the first
  occurrence of a character, \<open>split_once\<close>, \<open>lines\<close>, \<open>trim\<close>, \<open>replace\<close> and the ASCII character
  classes. \<open>trim\<close> removes the characters with the Unicode property White_Space, read off their
  UTF-8 encodings. The lemmas give the line structure of text assembled line by line.
\<close>

section \<open>Characters\<close>

abbreviation LF :: char where "LF \<equiv> CHR 0x0A"
abbreviation CR :: char where "CR \<equiv> CHR 0x0D"
abbreviation TAB :: char where "TAB \<equiv> CHR 0x09"
abbreviation NUL :: char where "NUL \<equiv> CHR 0x00"
abbreviation DQUOTE :: char where "DQUOTE \<equiv> CHR 0x22"
abbreviation SQUOTE :: char where "SQUOTE \<equiv> CHR 0x27"
abbreviation BACKSLASH :: char where "BACKSLASH \<equiv> CHR 0x5C"

definition code_in :: "nat \<Rightarrow> nat \<Rightarrow> char \<Rightarrow> bool" where
  "code_in lo hi c \<longleftrightarrow> lo \<le> of_char c \<and> of_char c \<le> hi"

definition is_ascii_digit :: "char \<Rightarrow> bool" where
  "is_ascii_digit c = code_in 48 57 c"

definition is_ascii_alphabetic :: "char \<Rightarrow> bool" where
  "is_ascii_alphabetic c \<longleftrightarrow> code_in 65 90 c \<or> code_in 97 122 c"

definition is_ascii_alphanumeric :: "char \<Rightarrow> bool" where
  "is_ascii_alphanumeric c \<longleftrightarrow> is_ascii_alphabetic c \<or> is_ascii_digit c"

definition to_ascii_uppercase :: "char \<Rightarrow> char" where
  "to_ascii_uppercase c = (if code_in 97 122 c then char_of (of_char c - 32 :: nat) else c)"

definition eq_ignore_ascii_case :: "string \<Rightarrow> string \<Rightarrow> bool" where
  "eq_ignore_ascii_case a b \<longleftrightarrow> map to_ascii_uppercase a = map to_ascii_uppercase b"

definition is_ascii_printable :: "char \<Rightarrow> bool" where
  "is_ascii_printable c = code_in 32 126 c"

lemmas ascii_class_defs =
  code_in_def is_ascii_digit_def is_ascii_alphabetic_def is_ascii_alphanumeric_def

lemma to_ascii_uppercase_idem [simp]:
  "to_ascii_uppercase (to_ascii_uppercase c) = to_ascii_uppercase c"
proof (cases "code_in 97 122 c")
  case True
  then have "\<not> code_in 97 122 (char_of (of_char c - 32 :: nat))"
    by (auto simp: code_in_def take_bit_nat_def)
  with True show ?thesis by (simp add: to_ascii_uppercase_def)
qed (simp add: to_ascii_uppercase_def)

section \<open>Prefixes and searches\<close>

definition starts_with :: "string \<Rightarrow> string \<Rightarrow> bool" where
  "starts_with p s \<longleftrightarrow> take (length p) s = p"

definition ends_with :: "string \<Rightarrow> string \<Rightarrow> bool" where
  "ends_with p s \<longleftrightarrow> starts_with (rev p) (rev s)"

definition strip_prefix :: "string \<Rightarrow> string \<Rightarrow> string option" where
  "strip_prefix p s = (if starts_with p s then Some (drop (length p) s) else None)"

fun split_once :: "char \<Rightarrow> string \<Rightarrow> (string \<times> string) option" where
  "split_once c [] = None"
| "split_once c (x # s) =
     (if x = c then Some ([], s)
      else map_option (\<lambda>(l, r). (x # l, r)) (split_once c s))"

function str_replace :: "string \<Rightarrow> string \<Rightarrow> string \<Rightarrow> string" where
  "str_replace p r [] = []"
| "str_replace p r (c # s) =
     (if p \<noteq> [] \<and> starts_with p (c # s) then r @ str_replace p r (drop (length p) (c # s))
      else c # str_replace p r s)"
  by pat_completeness auto
termination
  by (relation "measure (\<lambda>(p, r, s). length s)") auto

lemma starts_with_append [simp, text_simps]: "starts_with p (p @ s)"
  by (simp add: starts_with_def)

lemma starts_with_iff: "starts_with p s \<longleftrightarrow> (\<exists>t. s = p @ t)"
  by (auto simp: starts_with_def) (metis append_take_drop_id)

lemma starts_with_Nil [simp]: "starts_with [] s"
  by (simp add: starts_with_def)

lemma starts_with_Cons [simp]:
  "starts_with (c # p) [] \<longleftrightarrow> False"
  "starts_with (c # p) (d # s) \<longleftrightarrow> c = d \<and> starts_with p s"
  by (auto simp: starts_with_def)

lemma ends_with_iff: "ends_with p s \<longleftrightarrow> (\<exists>t. s = t @ p)"
proof
  assume "ends_with p s"
  then obtain t where "rev s = rev p @ t" by (auto simp: ends_with_def starts_with_iff)
  then have "s = rev t @ p" by (metis rev_append rev_rev_ident)
  then show "\<exists>t. s = t @ p" ..
qed (auto simp: ends_with_def starts_with_iff)

lemma strip_prefix_append [simp, text_simps]: "strip_prefix p (p @ s) = Some s"
  by (simp add: strip_prefix_def)

lemma strip_prefix_Some: "strip_prefix p s = Some t \<longleftrightarrow> s = p @ t"
  by (auto simp: strip_prefix_def starts_with_def) (metis append_take_drop_id)

lemma strip_prefix_Cons [simp]:
  "strip_prefix [] s = Some s"
  "strip_prefix (c # p) [] = None"
  "strip_prefix (c # p) (d # s) = (if c = d then strip_prefix p s else None)"
  by (auto simp: strip_prefix_def)

lemma split_once_append [simp, text_simps]:
  "c \<notin> set l \<Longrightarrow> split_once c (l @ c # r) = Some (l, r)"
  by (induction l) auto

lemma split_once_Some: "split_once c s = Some (l, r) \<longleftrightarrow> s = l @ c # r \<and> c \<notin> set l"
proof (induction s arbitrary: l r)
  case Nil
  then show ?case by simp
next
  case (Cons x s)
  then show ?case by (cases l) auto
qed

lemma split_once_None: "split_once c s = None \<longleftrightarrow> c \<notin> set s"
  by (induction s) auto

section \<open>Lines\<close>

fun str_lines :: "string \<Rightarrow> string list" where
  "str_lines [] = []"
| "str_lines (c # s) =
     (if c = LF then [] # str_lines s
      else if c = CR \<and> starts_with [LF] s then str_lines s
      else (case str_lines s of [] \<Rightarrow> [[c]] | l # ls \<Rightarrow> (c # l) # ls))"

definition unlines :: "string list \<Rightarrow> string" where
  "unlines ls = concat (map (\<lambda>l. l @ [LF]) ls)"

definition plain_line :: "string \<Rightarrow> bool" where
  "plain_line l \<longleftrightarrow> LF \<notin> set l \<and> CR \<notin> set l"

lemma unlines_simps [simp, text_simps]:
  "unlines [] = []" "unlines (l # ls) = l @ LF # unlines ls"
  by (simp_all add: unlines_def)

lemma unlines_append [text_simps]: "unlines (xs @ ys) = unlines xs @ unlines ys"
  by (simp add: unlines_def)

lemma plain_line_simps [simp, text_simps]:
  "plain_line []"
  "plain_line (c # l) \<longleftrightarrow> c \<noteq> LF \<and> c \<noteq> CR \<and> plain_line l"
  "plain_line (k @ l) \<longleftrightarrow> plain_line k \<and> plain_line l"
  by (auto simp: plain_line_def)

lemma str_lines_plain:
  "plain_line l \<Longrightarrow> str_lines (l @ LF # s) = l # str_lines s"
  by (induction l) auto

lemma str_lines_unlines [text_simps]:
  "list_all plain_line ls \<Longrightarrow> str_lines (unlines ls) = ls"
  by (induction ls) (simp_all add: str_lines_plain)

lemma str_lines_unlines_append:
  "list_all plain_line ls \<Longrightarrow> str_lines (unlines ls @ s) = ls @ str_lines s"
  by (induction ls) (simp_all add: str_lines_plain)

lemma str_lines_no_LF: "l \<in> set (str_lines s) \<Longrightarrow> LF \<notin> set l"
  by (induction s arbitrary: l rule: str_lines.induct)
     (auto split: if_splits list.splits)

lemma str_lines_length: "length (str_lines s) \<le> length s"
  by (induction s rule: str_lines.induct) (auto split: list.splits)

section \<open>Whitespace\<close>

definition ascii_ws :: "char \<Rightarrow> bool" where
  "ascii_ws c \<longleftrightarrow> code_in 9 13 c \<or> of_char c = (32::nat)"

definition ws2 :: "char \<Rightarrow> char \<Rightarrow> bool" where
  "ws2 c d \<longleftrightarrow> of_char c = (0xC2::nat) \<and> (of_char d = (0x85::nat) \<or> of_char d = (0xA0::nat))"

definition ws3 :: "char \<Rightarrow> char \<Rightarrow> char \<Rightarrow> bool" where
  "ws3 c d e \<longleftrightarrow>
     of_char c = (0xE1::nat) \<and> of_char d = (0x9A::nat) \<and> of_char e = (0x80::nat) \<or>
     of_char c = (0xE2::nat) \<and> of_char d = (0x80::nat) \<and>
       (code_in 0x80 0x8A e \<or> of_char e = (0xA8::nat) \<or> of_char e = (0xA9::nat)
        \<or> of_char e = (0xAF::nat)) \<or>
     of_char c = (0xE2::nat) \<and> of_char d = (0x81::nat) \<and> of_char e = (0x9F::nat) \<or>
     of_char c = (0xE3::nat) \<and> of_char d = (0x80::nat) \<and> of_char e = (0x80::nat)"

fun trim_start :: "string \<Rightarrow> string" where
  "trim_start (c # d # e # s) =
     (if ascii_ws c then trim_start (d # e # s)
      else if ws2 c d then trim_start (e # s)
      else if ws3 c d e then trim_start s
      else c # d # e # s)"
| "trim_start [c, d] =
     (if ascii_ws c then trim_start [d] else if ws2 c d then [] else [c, d])"
| "trim_start [c] = (if ascii_ws c then [] else [c])"
| "trim_start [] = []"

fun trim_end_rev :: "string \<Rightarrow> string" where
  "trim_end_rev (e # d # c # s) =
     (if ascii_ws e then trim_end_rev (d # c # s)
      else if ws2 d e then trim_end_rev (c # s)
      else if ws3 c d e then trim_end_rev s
      else e # d # c # s)"
| "trim_end_rev [d, c] =
     (if ascii_ws d then trim_end_rev [c] else if ws2 c d then [] else [d, c])"
| "trim_end_rev [c] = (if ascii_ws c then [] else [c])"
| "trim_end_rev [] = []"

definition trim_end :: "string \<Rightarrow> string" where
  "trim_end s = rev (trim_end_rev (rev s))"

definition str_trim :: "string \<Rightarrow> string" where
  "str_trim s = trim_end (trim_start s)"

text \<open>A character that is neither ASCII whitespace nor a byte of a multi-byte character.\<close>

definition graphic :: "char \<Rightarrow> bool" where
  "graphic c \<longleftrightarrow> code_in 33 126 c"

lemma graphic_not_ws [simp]: "graphic c \<Longrightarrow> \<not> ascii_ws c"
  by (simp add: graphic_def ascii_ws_def code_in_def)

lemma graphic_not_ws23 [simp]:
  "graphic c \<Longrightarrow> \<not> ws2 c d" "graphic d \<Longrightarrow> \<not> ws2 c d"
  "graphic c \<Longrightarrow> \<not> ws3 c d e" "graphic e \<Longrightarrow> \<not> ws3 c d e"
  by (auto simp: graphic_def ws2_def ws3_def code_in_def)

lemma trim_start_graphic [simp]: "graphic c \<Longrightarrow> trim_start (c # s) = c # s"
  by (cases "(c # s)" rule: trim_start.cases) auto

lemma trim_end_rev_graphic [simp]: "graphic c \<Longrightarrow> trim_end_rev (c # s) = c # s"
  by (cases "(c # s)" rule: trim_end_rev.cases) auto

lemma str_trim_graphic: "graphic (hd s) \<Longrightarrow> graphic (last s) \<Longrightarrow> s \<noteq> [] \<Longrightarrow> str_trim s = s"
proof -
  assume hd: "graphic (hd s)" and last: "graphic (last s)" and ne: "s \<noteq> []"
  from hd ne have "trim_start s = s" by (cases s) auto
  moreover from last ne have "trim_end_rev (rev s) = rev s"
    by (cases s rule: rev_cases) auto
  ultimately show ?thesis by (simp add: str_trim_def trim_end_def)
qed

lemma str_trim_Nil [simp]: "str_trim [] = []"
  by (simp add: str_trim_def trim_end_def)

lemma alphanumeric_graphic: "is_ascii_alphanumeric c \<Longrightarrow> graphic c"
  by (auto simp: graphic_def ascii_class_defs)

section \<open>Words\<close>

text \<open>
  \<open>str::split_whitespace\<close>: the maximal runs without a whitespace character, where \<open>ws_len\<close> is the
  number of bytes of the whitespace character a string starts with, 0 when it starts with another.
\<close>

definition ws_len :: "string \<Rightarrow> nat" where
  "ws_len s =
     (case s of
        c # d # e # _ \<Rightarrow> if ascii_ws c then 1 else if ws2 c d then 2 else if ws3 c d e then 3 else 0
      | [c, d] \<Rightarrow> if ascii_ws c then 1 else if ws2 c d then 2 else 0
      | [c] \<Rightarrow> if ascii_ws c then 1 else 0
      | [] \<Rightarrow> 0)"

definition push_word :: "string \<Rightarrow> string list \<Rightarrow> string list" where
  "push_word w ws = (if w = [] then ws else rev w # ws)"

function split_words :: "string \<Rightarrow> string \<Rightarrow> string list" where
  "split_words w [] = push_word w []"
| "split_words w (c # s) =
     (if ws_len (c # s) = 0 then split_words (c # w) s
      else push_word w (split_words [] (drop (ws_len (c # s)) (c # s))))"
  by pat_completeness auto
termination
  by (relation "measure (\<lambda>(w, s). length s)") auto

definition split_whitespace :: "string \<Rightarrow> string list" where
  "split_whitespace s = split_words [] s"

lemma ws_len_graphic [simp]: "graphic c \<Longrightarrow> ws_len (c # s) = 0"
  by (auto simp: ws_len_def split: list.splits)

lemma ws_len_space [simp]: "ws_len (CHR '' '' # s) = 1"
  by (auto simp: ws_len_def ascii_ws_def split: list.splits)

lemma split_words_graphic:
  "list_all graphic v \<Longrightarrow> split_words w (v @ CHR '' '' # s) = push_word (rev v @ w) (split_words [] s)"
  by (induction v arbitrary: w) simp_all

lemma split_words_graphic_end: "list_all graphic v \<Longrightarrow> split_words w v = push_word (rev v @ w) []"
  by (induction v arbitrary: w) simp_all

section \<open>UTF-8\<close>

text \<open>\<open>std::str::from_utf8\<close> accepts exactly the well-formed sequences of the Unicode standard.\<close>

definition u8_in :: "u8 \<Rightarrow> u8 \<Rightarrow> u8 \<Rightarrow> bool" where
  "u8_in lo hi b \<longleftrightarrow> lo \<le> b \<and> b \<le> hi"

definition utf8_pair :: "u8 \<Rightarrow> u8 \<Rightarrow> bool" where
  "utf8_pair a b \<longleftrightarrow> u8_in 0xC2 0xDF a \<and> u8_in 0x80 0xBF b"

definition utf8_triple :: "u8 \<Rightarrow> u8 \<Rightarrow> u8 \<Rightarrow> bool" where
  "utf8_triple a b c \<longleftrightarrow>
     (a = 0xE0 \<and> u8_in 0xA0 0xBF b \<or> u8_in 0xE1 0xEC a \<and> u8_in 0x80 0xBF b \<or>
      a = 0xED \<and> u8_in 0x80 0x9F b \<or> u8_in 0xEE 0xEF a \<and> u8_in 0x80 0xBF b) \<and> u8_in 0x80 0xBF c"

definition utf8_quad :: "u8 \<Rightarrow> u8 \<Rightarrow> u8 \<Rightarrow> u8 \<Rightarrow> bool" where
  "utf8_quad a b c d \<longleftrightarrow>
     (a = 0xF0 \<and> u8_in 0x90 0xBF b \<or> u8_in 0xF1 0xF3 a \<and> u8_in 0x80 0xBF b \<or>
      a = 0xF4 \<and> u8_in 0x80 0x8F b) \<and> u8_in 0x80 0xBF c \<and> u8_in 0x80 0xBF d"

fun utf8_valid :: "u8 list \<Rightarrow> bool" where
  "utf8_valid [] \<longleftrightarrow> True"
| "utf8_valid (a # bs) \<longleftrightarrow>
     (if a < 0x80 then utf8_valid bs
      else (case bs of
        b # cs \<Rightarrow>
          if utf8_pair a b then utf8_valid cs
          else (case cs of
            c # ds \<Rightarrow>
              if utf8_triple a b c then utf8_valid ds
              else (case ds of d # es \<Rightarrow> utf8_quad a b c d \<and> utf8_valid es | [] \<Rightarrow> False)
          | [] \<Rightarrow> False)
      | [] \<Rightarrow> False))"

section \<open>Decimal numbers\<close>

fun nat_show :: "nat \<Rightarrow> string" where
  "nat_show n =
     (if n < 10 then [char_of (48 + n)] else nat_show (n div 10) @ [char_of (48 + n mod 10)])"

declare nat_show.simps [simp del]

lemma nat_show_digit [simp]: "n < 10 \<Longrightarrow> nat_show n = [char_of (48 + n)]"
  by (simp add: nat_show.simps)

text \<open>The printed digits determine the number.\<close>

definition nat_of_digits :: "string \<Rightarrow> nat" where
  "nat_of_digits s = foldl (\<lambda>n c. 10 * n + (of_char c - 48)) 0 s"

lemma nat_of_digits_show [simp]: "nat_of_digits (nat_show n) = n"
proof (induction n rule: nat_show.induct)
  case (1 n)
  show ?case
  proof (cases "n < 10")
    case False
    with 1 show ?thesis by (subst nat_show.simps) (simp add: nat_of_digits_def)
  qed (simp add: nat_of_digits_def)
qed

lemma nat_show_inject [simp]: "nat_show m = nat_show n \<longleftrightarrow> m = n"
  by (metis nat_of_digits_show)

lemma nat_show_digits: "c \<in> set (nat_show n) \<Longrightarrow> 48 \<le> (of_char c :: nat) \<and> (of_char c :: nat) < 58"
proof (induction n rule: nat_show.induct)
  case (1 n)
  have "m < 10 \<Longrightarrow> 48 \<le> (of_char (char_of (48 + m)) :: nat) \<and> (of_char (char_of (48 + m)) :: nat) < 58"
    for m :: nat by simp
  with 1 show ?case
    by (subst (asm) nat_show.simps) (auto split: if_splits)
qed

end
