(* ===== verification/Validation.thy ===== *)
theory Validation
  imports Rust_Str
begin

text \<open>
  The size limits of \<open>support/limits.rs\<close> and the identifier rules of \<open>support/validation.rs\<close>:
  member handles, GitHub logins and the basenames of \<open>.kvenc\<close> files. Every rule is a chain of
  checks, each with its own early return; the lemmas characterise the accepted identifiers.
\<close>

section \<open>Limits\<close>

definition MAX_WRAP_ITEMS :: nat where "MAX_WRAP_ITEMS = 1000"
definition MAX_KV_ENC_FILE_SIZE :: nat where "MAX_KV_ENC_FILE_SIZE = 16 * 1024 * 1024"
definition MAX_JSON_DOCUMENT_READ_SIZE :: nat where
  "MAX_JSON_DOCUMENT_READ_SIZE = 24 * 1024 * 1024"
definition MAX_MEMBER_HANDLE_LENGTH :: nat where "MAX_MEMBER_HANDLE_LENGTH = 128"
definition JSON_EXTENSION_LENGTH :: nat where "JSON_EXTENSION_LENGTH = 5"
definition MAX_FILE_NAME_LENGTH :: nat where "MAX_FILE_NAME_LENGTH = 255"
definition ATOMIC_WRITE_TEMP_NAME_OVERHEAD :: nat where
  "ATOMIC_WRITE_TEMP_NAME_OVERHEAD = 1 + 5 + 36"
definition MAX_ATOMIC_WRITE_TARGET_NAME_LENGTH :: nat where
  "MAX_ATOMIC_WRITE_TARGET_NAME_LENGTH = MAX_FILE_NAME_LENGTH - ATOMIC_WRITE_TEMP_NAME_OVERHEAD"
definition MAX_KV_KEY_LINES :: nat where "MAX_KV_KEY_LINES = 10000"
definition MAX_BASE64_TOKEN_LENGTH :: nat where "MAX_BASE64_TOKEN_LENGTH = 1024 * 1024"
definition MAX_BASE64_CIPHERTEXT_LENGTH :: nat where
  "MAX_BASE64_CIPHERTEXT_LENGTH = 16 * 1024 * 1024"
definition AEAD_TAG_LENGTH :: nat where "AEAD_TAG_LENGTH = 16"
definition MAX_PLAINTEXT_INPUT_SIZE :: nat where
  "MAX_PLAINTEXT_INPUT_SIZE = MAX_BASE64_CIPHERTEXT_LENGTH div 4 * 3 - AEAD_TAG_LENGTH"
definition MAX_JSON_DEPTH :: nat where "MAX_JSON_DEPTH = 32"
definition JSON_ELEMENTS_PER_WRAP_ITEM :: nat where "JSON_ELEMENTS_PER_WRAP_ITEM = 11"
definition JSON_ELEMENTS_DOCUMENT_OVERHEAD :: nat where
  "JSON_ELEMENTS_DOCUMENT_OVERHEAD = 2000"
definition MAX_JSON_ELEMENTS :: nat where
  "MAX_JSON_ELEMENTS =
     MAX_WRAP_ITEMS * JSON_ELEMENTS_PER_WRAP_ITEM + JSON_ELEMENTS_DOCUMENT_OVERHEAD"

lemmas limit_defs =
  MAX_WRAP_ITEMS_def MAX_KV_ENC_FILE_SIZE_def MAX_JSON_DOCUMENT_READ_SIZE_def
  MAX_MEMBER_HANDLE_LENGTH_def JSON_EXTENSION_LENGTH_def MAX_FILE_NAME_LENGTH_def
  ATOMIC_WRITE_TEMP_NAME_OVERHEAD_def MAX_ATOMIC_WRITE_TARGET_NAME_LENGTH_def
  MAX_KV_KEY_LINES_def MAX_BASE64_TOKEN_LENGTH_def MAX_BASE64_CIPHERTEXT_LENGTH_def
  AEAD_TAG_LENGTH_def MAX_PLAINTEXT_INPUT_SIZE_def MAX_JSON_DEPTH_def
  JSON_ELEMENTS_PER_WRAP_ITEM_def JSON_ELEMENTS_DOCUMENT_OVERHEAD_def MAX_JSON_ELEMENTS_def

definition validate_wrap_count :: "nat \<Rightarrow> unit res" where
  "validate_wrap_count count =
     (if count \<le> MAX_WRAP_ITEMS then Inr () else Inl (plain_error Parse))"

lemma validate_wrap_count_iff [simp]:
  "validate_wrap_count n = Inr u \<longleftrightarrow> n \<le> MAX_WRAP_ITEMS"
  by (simp add: validate_wrap_count_def)

section \<open>Member handles\<close>

definition ensure_member_handle_length :: "string \<Rightarrow> unit res" where
  "ensure_member_handle_length handle =
     (if handle = [] then Inl (plain_error InvalidArgument)
      else if length handle > MAX_MEMBER_HANDLE_LENGTH then Inl (plain_error InvalidArgument)
      else Inr ())"

definition ensure_member_handle_starts_alphanumeric :: "string \<Rightarrow> unit res" where
  "ensure_member_handle_starts_alphanumeric handle =
     (case handle of
        c # _ \<Rightarrow> if is_ascii_alphanumeric c then Inr () else Inl (plain_error InvalidArgument)
      | [] \<Rightarrow> Inl (plain_error InvalidArgument))"

definition member_handle_char :: "char \<Rightarrow> bool" where
  "member_handle_char c \<longleftrightarrow> is_ascii_alphanumeric c \<or> c \<in> set ''.@_+-''"

definition ensure_member_handle_characters :: "string \<Rightarrow> unit res" where
  "ensure_member_handle_characters handle =
     (case find (\<lambda>c. \<not> member_handle_char c) handle of
        Some c \<Rightarrow> Inl (plain_error InvalidArgument)
      | None \<Rightarrow> Inr ())"

definition validate_member_handle :: "string \<Rightarrow> unit res" where
  "validate_member_handle handle =
     res_bind (ensure_member_handle_length handle) (\<lambda>_.
     res_bind (ensure_member_handle_starts_alphanumeric handle) (\<lambda>_.
     ensure_member_handle_characters handle))"

lemma validate_member_handle_iff:
  "validate_member_handle handle = Inr u \<longleftrightarrow>
     handle \<noteq> [] \<and> length handle \<le> 128 \<and> is_ascii_alphanumeric (hd handle) \<and> list_all member_handle_char handle"
  by (cases handle)
     (auto simp: validate_member_handle_def ensure_member_handle_length_def limit_defs
        ensure_member_handle_starts_alphanumeric_def ensure_member_handle_characters_def
        list_all_iff find_None_iff find_Some_iff split: option.splits if_splits)

section \<open>GitHub logins\<close>

definition MAX_GITHUB_LOGIN_LENGTH :: nat where "MAX_GITHUB_LOGIN_LENGTH = 39"

definition ensure_github_login_length :: "string \<Rightarrow> unit res" where
  "ensure_github_login_length login =
     (if login = [] then Inl (plain_error InvalidArgument)
      else if length login > MAX_GITHUB_LOGIN_LENGTH then Inl (plain_error InvalidArgument)
      else Inr ())"

definition ensure_github_login_boundaries :: "string \<Rightarrow> unit res" where
  "ensure_github_login_boundaries login =
     (if \<not> is_ascii_alphanumeric (hd login) then Inl (plain_error InvalidArgument)
      else if \<not> is_ascii_alphanumeric (last login) then Inl (plain_error InvalidArgument)
      else Inr ())"

fun github_login_scan :: "bool \<Rightarrow> string \<Rightarrow> unit res" where
  "github_login_scan previous_hyphen [] = Inr ()"
| "github_login_scan previous_hyphen (b # bs) =
     (if b = CHR ''-'' then
        (if previous_hyphen then Inl (plain_error InvalidArgument)
         else github_login_scan True bs)
      else if \<not> is_ascii_alphanumeric b then Inl (plain_error InvalidArgument)
      else github_login_scan False bs)"

definition ensure_github_login_characters :: "string \<Rightarrow> unit res" where
  "ensure_github_login_characters login = github_login_scan False login"

definition validate_github_login :: "string \<Rightarrow> unit res" where
  "validate_github_login login =
     res_bind (ensure_github_login_length login) (\<lambda>_.
     res_bind (ensure_github_login_boundaries login) (\<lambda>_.
     ensure_github_login_characters login))"

lemma not_alnum_hyphen [simp]: "\<not> is_ascii_alphanumeric CHR ''-''"
  by (simp add: ascii_class_defs)

text \<open>The scan accepts exactly the hyphen-separated alphanumeric runs.\<close>

lemma github_login_scan_iff:
  "github_login_scan p s = Inr u \<longleftrightarrow>
     (\<forall>c\<in>set s. is_ascii_alphanumeric c \<or> c = CHR ''-'') \<and>
     (\<forall>a b. s \<noteq> a @ ''--'' @ b) \<and> (p \<longrightarrow> \<not> starts_with ''-'' s)"
proof (induction p s rule: github_login_scan.induct)
  case (1 p)
  then show ?case by (cases u) simp
next
  case (2 p c s)
  have dbl: "(\<forall>a b. c # s \<noteq> a @ ''--'' @ b) \<longleftrightarrow>
      (\<forall>a b. s \<noteq> a @ ''--'' @ b) \<and> (c = CHR ''-'' \<longrightarrow> \<not> starts_with ''-'' s)"
    by (auto simp: starts_with_iff Cons_eq_append_conv)
  from 2 show ?case unfolding dbl by auto
qed

lemma validate_github_login_iff:
  "validate_github_login login = Inr u \<longleftrightarrow>
     login \<noteq> [] \<and> length login \<le> 39 \<and> is_ascii_alphanumeric (hd login) \<and>
     is_ascii_alphanumeric (last login) \<and>
     (\<forall>c\<in>set login. is_ascii_alphanumeric c \<or> c = CHR ''-'') \<and>
     (\<forall>a b. login \<noteq> a @ ''--'' @ b)"
  by (auto simp: validate_github_login_def ensure_github_login_length_def
      ensure_github_login_boundaries_def ensure_github_login_characters_def
      MAX_GITHUB_LOGIN_LENGTH_def github_login_scan_iff split: if_splits)

section \<open>Basenames of kv files\<close>

definition KV_ENC_EXTENSION_LENGTH :: nat where "KV_ENC_EXTENSION_LENGTH = 6"

definition ensure_kv_basename_is_a_plain_name :: "string \<Rightarrow> unit res" where
  "ensure_kv_basename_is_a_plain_name name =
     (if name = [] then Inl (plain_error InvalidArgument)
      else if starts_with ''.'' name then Inl (plain_error InvalidArgument)
      else Inr ())"

definition ensure_kv_basename_bytes :: "string \<Rightarrow> unit res" where
  "ensure_kv_basename_bytes name =
     (case find (\<lambda>b. b = CHR ''/'' \<or> b = BACKSLASH \<or> b = NUL \<or> \<not> code_in 0x20 0x7E b) name of
        Some c \<Rightarrow> Inl (plain_error InvalidArgument)
      | None \<Rightarrow> Inr ())"

definition ensure_kv_basename_length :: "string \<Rightarrow> unit res" where
  "ensure_kv_basename_length name =
     (let max_name = MAX_ATOMIC_WRITE_TARGET_NAME_LENGTH - KV_ENC_EXTENSION_LENGTH in
      if length name > max_name then Inl (plain_error InvalidArgument) else Inr ())"

definition validate_kv_file_basename :: "string \<Rightarrow> unit res" where
  "validate_kv_file_basename name =
     res_bind (ensure_kv_basename_is_a_plain_name name) (\<lambda>_.
     res_bind (ensure_kv_basename_bytes name) (\<lambda>_.
     ensure_kv_basename_length name))"

lemma ensure_kv_basename_iff:
  "ensure_kv_basename_is_a_plain_name name = Inr u \<longleftrightarrow> name \<noteq> [] \<and> hd name \<noteq> CHR ''.''"
  "ensure_kv_basename_bytes name = Inr u \<longleftrightarrow>
     (\<forall>b\<in>set name. code_in 0x20 0x7E b \<and> b \<noteq> CHR ''/'' \<and> b \<noteq> BACKSLASH)"
  "ensure_kv_basename_length name = Inr u \<longleftrightarrow> length name \<le> 207"
proof -
  show "ensure_kv_basename_is_a_plain_name name = Inr u \<longleftrightarrow> name \<noteq> [] \<and> hd name \<noteq> CHR ''.''"
    by (cases name) (simp_all add: ensure_kv_basename_is_a_plain_name_def)
  have "code_in 0x20 0x7E b \<Longrightarrow> b \<noteq> NUL" for b by (auto simp: code_in_def)
  then show "ensure_kv_basename_bytes name = Inr u \<longleftrightarrow>
      (\<forall>b\<in>set name. code_in 0x20 0x7E b \<and> b \<noteq> CHR ''/'' \<and> b \<noteq> BACKSLASH)"
    unfolding ensure_kv_basename_bytes_def find_reject_iff by blast
  show "ensure_kv_basename_length name = Inr u \<longleftrightarrow> length name \<le> 207"
    by (simp add: ensure_kv_basename_length_def limit_defs KV_ENC_EXTENSION_LENGTH_def)
qed

lemma validate_kv_file_basename_iff:
  "validate_kv_file_basename name = Inr u \<longleftrightarrow>
     name \<noteq> [] \<and> hd name \<noteq> CHR ''.'' \<and> length name \<le> 207 \<and>
     (\<forall>b\<in>set name. code_in 0x20 0x7E b \<and> b \<noteq> CHR ''/'' \<and> b \<noteq> BACKSLASH)"
  by (auto simp: validate_kv_file_basename_def ensure_kv_basename_iff)

text \<open>
  C24. A basename that passes validation names a file directly inside the secrets directory: it
  has no path separator and no leading dot, and both the artifact \<open><name>.kvenc\<close> and the
  staging name \<open>.<name>.kvenc.tmp.<uuid>\<close> of an atomic write fit the 255 bytes a directory entry
  accepts.
\<close>

theorem kv_basename_stays_in_directory:
  assumes "validate_kv_file_basename name = Inr ()" and "length uuid = 36"
  shows "name \<noteq> [] \<and> CHR ''/'' \<notin> set name \<and> \<not> starts_with ''.'' name \<and>
    length (''.'' @ name @ ''.kvenc'' @ ''.tmp.'' @ uuid) \<le> MAX_FILE_NAME_LENGTH"
proof -
  from assms(1) have name: "name \<noteq> []" "hd name \<noteq> CHR ''.''" "length name \<le> 207"
      "CHR ''/'' \<notin> set name"
    by (auto simp: validate_kv_file_basename_iff)
  moreover from name(1,2) have "\<not> starts_with ''.'' name" by (cases name) simp_all
  ultimately show ?thesis using assms(2) by (simp add: limit_defs)
qed

lemma kv_basename_stays_in_directory_witness:
  "CHR ''/'' \<notin> set ''default'' \<and>
   length (''.'' @ ''default'' @ ''.kvenc'' @ ''.tmp.'' @ replicate 36 CHR ''0'')
     \<le> MAX_FILE_NAME_LENGTH"
  using kv_basename_stays_in_directory [of "''default''" "replicate 36 CHR ''0''"]
  by (simp add: validate_kv_file_basename_iff code_in_def)

end
