(* ===== verification/Identity.thy ===== *)
theory Identity
  imports Validation
begin

text \<open>
  Key identifiers and member handles: \<open>support/kid.rs\<close> (normalisation, queries, display forms),
  \<open>format/kid.rs\<close> (derivation of a \<open>kid\<close> from the hash of a public key) and the newtypes of
  \<open>model/identity.rs\<close>. The lemmas characterise canonical kids, show that the display form
  normalises back to the kid it displays, and that the derivation loses nothing of the digest.
\<close>

section \<open>Normalising kids\<close>

definition KID_LENGTH :: nat where "KID_LENGTH = 32"
definition DISPLAY_GROUP_SIZE :: nat where "DISPLAY_GROUP_SIZE = 4"
definition HALF_DISPLAY_LENGTH :: nat where "HALF_DISPLAY_LENGTH = 16"

definition is_crockford_base32_byte :: "char \<Rightarrow> bool" where
  "is_crockford_base32_byte b \<longleftrightarrow>
     code_in 48 57 b \<or> code_in 65 72 b \<or> code_in 74 75 b \<or> code_in 77 78 b \<or>
     code_in 80 84 b \<or> code_in 86 90 b"

definition normalize_kid_query :: "string \<Rightarrow> string res" where
  "normalize_kid_query input =
     (let normalized = map to_ascii_uppercase (filter (\<lambda>b. b \<noteq> CHR ''-'') input) in
      if normalized = [] \<or> length normalized > KID_LENGTH
      then Inl (plain_error InvalidArgument)
      else if \<not> list_all is_crockford_base32_byte normalized
      then Inl (plain_error InvalidArgument)
      else Inr normalized)"

definition normalize_kid :: "string \<Rightarrow> string res" where
  "normalize_kid input =
     res_bind (normalize_kid_query input) (\<lambda>canonical.
     if length canonical \<noteq> KID_LENGTH then Inl (plain_error InvalidArgument)
     else Inr canonical)"

definition resolve_unique_kid :: "string list \<Rightarrow> string \<Rightarrow> string res" where
  "resolve_unique_kid candidates query =
     res_bind (normalize_kid_query query) (\<lambda>normalized_query.
     res_bind (collect_res normalize_kid candidates) (\<lambda>kids.
     case filter (starts_with normalized_query) kids of
       [resolved] \<Rightarrow> Inr resolved
     | [] \<Rightarrow> Inl (plain_error NotFound)
     | _ \<Rightarrow> Inl (plain_error InvalidArgument)))"

definition canonical_kid :: "string \<Rightarrow> bool" where
  "canonical_kid k \<longleftrightarrow> length k = KID_LENGTH \<and> list_all is_crockford_base32_byte k"

lemma crockford_upper: "is_crockford_base32_byte b \<Longrightarrow> to_ascii_uppercase b = b"
  by (auto simp: is_crockford_base32_byte_def to_ascii_uppercase_def code_in_def)

lemma crockford_graphic: "is_crockford_base32_byte b \<Longrightarrow> graphic b"
  by (auto simp: is_crockford_base32_byte_def graphic_def code_in_def)

lemma hyphen_not_crockford [simp]: "\<not> is_crockford_base32_byte CHR ''-''"
  by (simp add: is_crockford_base32_byte_def code_in_def)

lemma crockford_filter_hyphen:
  "list_all is_crockford_base32_byte k \<Longrightarrow> filter (\<lambda>b. b \<noteq> CHR ''-'') k = k"
  by (auto simp: list_all_iff intro!: filter_True)

lemma crockford_map_upper:
  "list_all is_crockford_base32_byte k \<Longrightarrow> map to_ascii_uppercase k = k"
  by (auto simp: list_all_iff crockford_upper intro!: map_idI)

lemma normalize_kid_query_Inr:
  "normalize_kid_query s = Inr q \<longleftrightarrow>
     q = map to_ascii_uppercase (filter (\<lambda>b. b \<noteq> CHR ''-'') s) \<and> q \<noteq> [] \<and>
     length q \<le> KID_LENGTH \<and> list_all is_crockford_base32_byte q"
  by (auto simp: normalize_kid_query_def Let_def)

lemma normalize_kid_Inr:
  "normalize_kid s = Inr k \<longleftrightarrow>
     k = map to_ascii_uppercase (filter (\<lambda>b. b \<noteq> CHR ''-'') s) \<and> canonical_kid k"
  by (auto simp: normalize_kid_def normalize_kid_query_Inr canonical_kid_def KID_LENGTH_def
      split: if_splits)

lemma normalize_kid_canonical: "normalize_kid s = Inr k \<Longrightarrow> canonical_kid k"
  by (auto simp: normalize_kid_Inr)

lemma normalize_canonical_kid: "canonical_kid k \<Longrightarrow> normalize_kid k = Inr k"
  by (simp add: normalize_kid_Inr canonical_kid_def crockford_filter_hyphen crockford_map_upper)

lemma normalize_kid_fixpoint: "normalize_kid k = Inr k \<longleftrightarrow> canonical_kid k"
  by (auto simp: normalize_canonical_kid intro: normalize_kid_canonical)

lemma normalize_kid_kind: "normalize_kid s = Inl e \<Longrightarrow> e = plain_error InvalidArgument"
  by (auto simp: normalize_kid_def normalize_kid_query_def Let_def res_bind_Inl split: if_splits)

section \<open>Display forms\<close>

fun push_groups :: "nat \<Rightarrow> string list \<Rightarrow> string" where
  "push_groups index [] = []"
| "push_groups index (chunk # rest) =
     (if index > 0 then ''-'' else []) @ chunk @ push_groups (index + 1) rest"

definition format_kid_display :: "string \<Rightarrow> string res" where
  "format_kid_display kid_text =
     res_bind (normalize_kid kid_text) (\<lambda>canonical.
     Inr (push_groups 0 (chunks DISPLAY_GROUP_SIZE canonical)))"

definition format_kid_half_display :: "string \<Rightarrow> string res" where
  "format_kid_half_display kid_text =
     res_bind (normalize_kid kid_text) (\<lambda>canonical.
     Inr (push_groups 0 (chunks DISPLAY_GROUP_SIZE (take HALF_DISPLAY_LENGTH canonical))))"

lemma filter_push_groups:
  "list_all (list_all is_crockford_base32_byte) gs \<Longrightarrow>
     filter (\<lambda>b. b \<noteq> CHR ''-'') (push_groups i gs) = concat gs"
  by (induction i gs rule: push_groups.induct) (auto simp: crockford_filter_hyphen)

lemma chunks_list_all:
  "n > 0 \<Longrightarrow> list_all P xs \<Longrightarrow> list_all (list_all P) (chunks n xs)"
  by (auto simp: list_all_iff dest: in_chunksD)

lemma format_kid_display_normalizes:
  assumes "format_kid_display k = Inr d"
  shows "normalize_kid d = normalize_kid k"
proof -
  from assms obtain c where c: "normalize_kid k = Inr c"
    and d: "d = push_groups 0 (chunks DISPLAY_GROUP_SIZE c)"
    by (auto simp: format_kid_display_def)
  have all: "canonical_kid c" using c by (rule normalize_kid_canonical)
  then have "filter (\<lambda>b. b \<noteq> CHR ''-'') d = c"
    by (simp add: d filter_push_groups chunks_list_all canonical_kid_def DISPLAY_GROUP_SIZE_def)
  with all have "normalize_kid d = Inr c"
    by (simp add: normalize_kid_Inr canonical_kid_def crockford_map_upper)
  with c show ?thesis by simp
qed

lemma format_kid_half_display_is_prefix:
  assumes "format_kid_half_display k = Inr d" and "normalize_kid k = Inr c"
  shows "normalize_kid_query d = Inr (take 16 c)"
proof -
  have all: "canonical_kid c" using assms(2) by (rule normalize_kid_canonical)
  then have sub: "list_all is_crockford_base32_byte (take 16 c)"
    by (auto simp: canonical_kid_def list_all_iff dest: in_set_takeD)
  have "d = push_groups 0 (chunks DISPLAY_GROUP_SIZE (take 16 c))"
    using assms by (auto simp: format_kid_half_display_def HALF_DISPLAY_LENGTH_def)
  then have "filter (\<lambda>b. b \<noteq> CHR ''-'') d = take 16 c"
    using sub by (simp add: filter_push_groups chunks_list_all DISPLAY_GROUP_SIZE_def)
  with all sub show ?thesis
    by (auto simp: normalize_kid_query_Inr crockford_map_upper canonical_kid_def KID_LENGTH_def)
qed

section \<open>Deriving a kid\<close>

definition CROCKFORD_BASE32_ALPHABET :: string where
  "CROCKFORD_BASE32_ALPHABET = ''0123456789ABCDEFGHJKMNPQRSTVWXYZ''"

definition crockford_bit :: "u8 list \<Rightarrow> nat \<Rightarrow> u8" where
  "crockford_bit bytes bit_index =
     and (drop_bit (7 - bit_index mod 8) (bytes ! (bit_index div 8))) 1"

definition crockford_group :: "u8 list \<Rightarrow> nat \<Rightarrow> u8" where
  "crockford_group bytes group_index =
     fold (\<lambda>bit_offset value.
             or (push_bit 1 value) (crockford_bit bytes (group_index * 5 + bit_offset)))
       [0..<5] 0"

definition encode_crockford_base32 :: "u8 list \<Rightarrow> string" where
  "encode_crockford_base32 bytes =
     map (\<lambda>group_index. CROCKFORD_BASE32_ALPHABET ! unat (crockford_group bytes group_index))
       [0..<length bytes * 8 div 5]"

definition derive_public_key_kid ::
  "('v \<Rightarrow> u8 list res) \<Rightarrow> (u8 list \<Rightarrow> u8 list) \<Rightarrow> 'v \<Rightarrow> string res" where
  "derive_public_key_kid normalize_to_bytes sha256 protected_without_kid =
     res_bind (normalize_to_bytes protected_without_kid) (\<lambda>canonical_bytes.
     Inr (encode_crockford_base32 (take 20 (sha256 canonical_bytes))))"

lemma bit_crockford_bit:
  "bit (crockford_bit bs i) j \<longleftrightarrow> j = 0 \<and> bit (bs ! (i div 8)) (7 - i mod 8)"
  by (auto simp: crockford_bit_def bit_simps)

lemma bit_crockford_group:
  "bit (crockford_group bs g) j \<longleftrightarrow>
     j < 5 \<and> bit (bs ! ((g * 5 + (4 - j)) div 8)) (7 - (g * 5 + (4 - j)) mod 8)"
proof -
  have five: "[0..<5] = [0, 1, 2, 3, 4::nat]" by (simp add: upt_rec)
  consider "j = 0" | "j = 1" | "j = 2" | "j = 3" | "j = 4" | "j \<ge> 5" by linarith
  then show ?thesis
    unfolding crockford_group_def five fold_simps id_def o_def
    by cases (auto simp: bit_or_iff bit_push_bit_iff bit_crockford_bit
        simp del: push_bit_Suc One_nat_def simp flip: One_nat_def)
qed

lemma crockford_group_less: "unat (crockford_group bs g) < 32"
proof -
  have "take_bit 5 (crockford_group bs g) = crockford_group bs g"
    by (rule bit_word_eqI) (auto simp: bit_simps bit_crockford_group)
  then have "unat (crockford_group bs g) = take_bit 5 (unat (crockford_group bs g))"
    by (metis unsigned_take_bit_eq)
  also have "\<dots> < 2 ^ 5" by (rule take_bit_nat_less_exp)
  finally show ?thesis by simp
qed

lemma alphabet_distinct: "distinct CROCKFORD_BASE32_ALPHABET"
  by (simp add: CROCKFORD_BASE32_ALPHABET_def)

lemma alphabet_length: "length CROCKFORD_BASE32_ALPHABET = 32"
  by (simp add: CROCKFORD_BASE32_ALPHABET_def)

lemma alphabet_crockford: "list_all is_crockford_base32_byte CROCKFORD_BASE32_ALPHABET"
  by (simp add: CROCKFORD_BASE32_ALPHABET_def is_crockford_base32_byte_def code_in_def)

lemma encode_crockford_chars: "list_all is_crockford_base32_byte (encode_crockford_base32 bs)"
  using alphabet_crockford crockford_group_less
  by (auto simp: encode_crockford_base32_def list_all_iff alphabet_length)

lemma derive_public_key_kid_canonical:
  assumes "derive_public_key_kid jcs sha256 v = Inr k" and "\<And>bs. length (sha256 bs) = 32"
  shows "canonical_kid k"
proof -
  have len: "length (encode_crockford_base32 (take 20 (sha256 bs))) = 32" for bs
    by (simp add: encode_crockford_base32_def assms(2))
  from assms(1) show ?thesis
    by (auto simp: derive_public_key_kid_def canonical_kid_def KID_LENGTH_def len
        encode_crockford_chars)
qed

text \<open>Base32 keeps every bit of the bytes it encodes.\<close>

lemma encode_crockford_inj:
  assumes eq: "encode_crockford_base32 bs = encode_crockford_base32 cs"
    and len: "length bs = length cs" "length bs mod 5 = 0"
  shows "bs = cs"
proof (rule nth_equalityI)
  show "length bs = length cs" by (rule len)
  fix i assume i: "i < length bs"
  have groups: "crockford_group bs g = crockford_group cs g" if "g < length bs * 8 div 5" for g
  proof -
    have "encode_crockford_base32 bs ! g = encode_crockford_base32 cs ! g" by (simp add: eq)
    with that have "CROCKFORD_BASE32_ALPHABET ! unat (crockford_group bs g) =
        CROCKFORD_BASE32_ALPHABET ! unat (crockford_group cs g)"
      by (simp add: encode_crockford_base32_def len(1))
    then have "unat (crockford_group bs g) = unat (crockford_group cs g)"
      by (simp add: nth_eq_iff_index_eq alphabet_distinct alphabet_length crockford_group_less)
    then show ?thesis by (rule unsigned_word_eqI)
  qed
  show "bs ! i = cs ! i"
  proof (rule bit_word_eqI)
    fix n assume "n < LENGTH(8)"
    define t where "t = 8 * i + (7 - n)"
    have n: "n < 8" using \<open>n < LENGTH(8)\<close> by simp
    have "t mod 8 = 7 - n" using n by (simp only: t_def mod_mult_self4) simp
    with n have t: "t div 8 = i" "7 - t mod 8 = n" by (simp_all add: t_def)
    have "t < 8 * length bs" using i n by (simp add: t_def)
    with len(2) have g: "t div 5 < length bs * 8 div 5" by (auto simp: mod_eq_0_iff_dvd)
    have t5: "t div 5 * 5 + (4 - (4 - t mod 5)) = t" "4 - t mod 5 < 5" by simp_all
    have "bit (crockford_group bs (t div 5)) (4 - t mod 5) =
        bit (crockford_group cs (t div 5)) (4 - t mod 5)"
      by (simp add: groups [OF g])
    then have "bit (bs ! (t div 8)) (7 - t mod 8) = bit (cs ! (t div 8)) (7 - t mod 8)"
      by (simp only: bit_crockford_group t5) simp
    then show "bit (bs ! i) n = bit (cs ! i) n" by (simp only: t)
  qed
qed

section \<open>The newtypes\<close>

datatype member_handle = MemberHandle (handle_str: string)
datatype kid = Kid (kid_str: string)

definition MemberHandle_new :: "string \<Rightarrow> member_handle res" where
  "MemberHandle_new value =
     res_bind (validate_member_handle value) (\<lambda>_. Inr (MemberHandle value))"

definition Kid_from_canonical :: "string \<Rightarrow> kid res" where
  "Kid_from_canonical value =
     res_bind (map_err (\<lambda>_. plain_error InvalidArgument) (normalize_kid value)) (\<lambda>canonical.
     if canonical \<noteq> value then Inl (plain_error InvalidArgument) else Inr (Kid canonical))"

instantiation kid :: linorder
begin

definition less_eq_kid :: "kid \<Rightarrow> kid \<Rightarrow> bool" where
  "less_eq_kid a b \<longleftrightarrow> kid_str a \<le> kid_str b"

definition less_kid :: "kid \<Rightarrow> kid \<Rightarrow> bool" where
  "less_kid a b \<longleftrightarrow> kid_str a < kid_str b"

instance
  by standard (auto simp: less_eq_kid_def less_kid_def kid.expand)

end

instantiation member_handle :: linorder
begin

definition less_eq_member_handle :: "member_handle \<Rightarrow> member_handle \<Rightarrow> bool" where
  "less_eq_member_handle a b \<longleftrightarrow> handle_str a \<le> handle_str b"

definition less_member_handle :: "member_handle \<Rightarrow> member_handle \<Rightarrow> bool" where
  "less_member_handle a b \<longleftrightarrow> handle_str a < handle_str b"

instance
  by standard (auto simp: less_eq_member_handle_def less_member_handle_def member_handle.expand)

end

lemma Kid_from_canonical_iff: "Kid_from_canonical s = Inr k \<longleftrightarrow> canonical_kid s \<and> k = Kid s"
  using normalize_kid_fixpoint
  by (auto simp: Kid_from_canonical_def split: if_splits)

lemma MemberHandle_new_iff:
  "MemberHandle_new s = Inr h \<longleftrightarrow> validate_member_handle s = Inr () \<and> h = MemberHandle s"
  by (auto simp: MemberHandle_new_def)

end
