(* ===== verification/Base64_Codec.thy ===== *)
theory Base64_Codec
  imports Validation
begin

text \<open>
  Base64 and base64url (\<open>format/codec.rs\<close>, \<open>format/codec/base64_public.rs\<close>,
  \<open>format/codec/base64_secret.rs\<close>) and the tokens built from them (\<open>format/token\<close>). The
  encoders fill a buffer of a length computed beforehand; a definition here returns the bytes it
  writes, and the length lemmas show that they are exactly the buffer. The decoders reject
  padding where it does not belong and unused tail bits that are not zero, so the base64url
  decoder accepts a byte string in one spelling only.

  The locale \<open>text_codec\<close> is what the clients of a codec rely on; \<open>canonical_codec\<close> adds that
  an accepted text is the one the encoder writes.
\<close>

section \<open>The interface of a codec\<close>

locale text_codec =
  fixes enc :: "u8 list \<Rightarrow> string"
    and dec :: "string \<Rightarrow> u8 list res"
    and fits :: "u8 list \<Rightarrow> bool"
  assumes dec_enc: "fits bs \<Longrightarrow> dec (enc bs) = Inr bs"
begin

lemma enc_inj: "fits bs \<Longrightarrow> fits cs \<Longrightarrow> enc bs = enc cs \<Longrightarrow> bs = cs"
  by (metis dec_enc sum.inject(2))

lemma collect_dec_enc: "list_all fits bss \<Longrightarrow> collect_res (dec \<circ> enc) bss = Inr bss"
  by (induction bss) (simp_all add: dec_enc)

end

locale canonical_codec = text_codec +
  assumes enc_dec: "dec s = Inr bs \<Longrightarrow> enc bs = s \<and> fits bs"
begin

lemma dec_iff: "dec s = Inr bs \<longleftrightarrow> s = enc bs \<and> fits bs"
  using dec_enc enc_dec by auto

lemma dec_inj: "dec s = Inr bs \<Longrightarrow> dec t = Inr bs \<Longrightarrow> s = t"
  by (simp add: dec_iff)

lemma collect_dec_inj:
  assumes "collect_res dec ss = Inr bss" and "collect_res dec ts = Inr bss"
  shows "ss = ts"
proof -
  have sp: "ss = map enc bss" if "collect_res dec ss = Inr bss" for ss
    using that by (induction ss arbitrary: bss) (auto simp: dec_iff)
  show ?thesis using sp [OF assms(1)] sp [OF assms(2)] by simp
qed

end

section \<open>Alphabets\<close>

definition STANDARD_ALPHABET :: string where
  "STANDARD_ALPHABET = ''ABCDEFGHIJKLMNOPQRSTUVWXYZabcdefghijklmnopqrstuvwxyz0123456789+/''"

definition URL_SAFE_ALPHABET :: string where
  "URL_SAFE_ALPHABET = ''ABCDEFGHIJKLMNOPQRSTUVWXYZabcdefghijklmnopqrstuvwxyz0123456789-_''"

datatype base64_variant = Standard | UrlSafe

definition alphabet_of :: "base64_variant \<Rightarrow> string" where
  "alphabet_of v = (case v of Standard \<Rightarrow> STANDARD_ALPHABET | UrlSafe \<Rightarrow> URL_SAFE_ALPHABET)"

definition symbol :: "string \<Rightarrow> u8 \<Rightarrow> char" where
  "symbol alphabet value = alphabet ! unat value"

definition decode_symbol :: "char \<Rightarrow> base64_variant \<Rightarrow> u8 option" where
  "decode_symbol byte v =
     (let b = of_char byte :: u8 in
      if code_in 65 90 byte then Some (b - 65)
      else if code_in 97 122 byte then Some (b - 97 + 26)
      else if code_in 48 57 byte then Some (b - 48 + 52)
      else if byte = CHR ''+'' \<and> v = Standard then Some 62
      else if byte = CHR ''/'' \<and> v = Standard then Some 63
      else if byte = CHR ''-'' \<and> v = UrlSafe then Some 62
      else if byte = CHR ''_'' \<and> v = UrlSafe then Some 63
      else None)"

section \<open>Encoding\<close>

definition compute_encoded_len :: "nat \<Rightarrow> nat" where
  "compute_encoded_len input_len =
     (let base = (input_len div 3) * 4 in
      if input_len mod 3 = 0 then base
      else if input_len mod 3 = 1 then base + 2
      else base + 3)"

definition encode_full_block :: "string \<Rightarrow> u8 \<Rightarrow> u8 \<Rightarrow> u8 \<Rightarrow> string" where
  "encode_full_block alphabet b0 b1 b2 =
     [symbol alphabet (drop_bit 2 b0),
      symbol alphabet (or (push_bit 4 (and b0 0x03)) (drop_bit 4 b1)),
      symbol alphabet (or (push_bit 2 (and b1 0x0F)) (drop_bit 6 b2)),
      symbol alphabet (and b2 0x3F)]"

definition encode_tail_one :: "string \<Rightarrow> u8 \<Rightarrow> string" where
  "encode_tail_one alphabet b0 =
     [symbol alphabet (drop_bit 2 b0), symbol alphabet (push_bit 4 (and b0 0x03))]"

definition encode_tail_two :: "string \<Rightarrow> u8 \<Rightarrow> u8 \<Rightarrow> string" where
  "encode_tail_two alphabet b0 b1 =
     [symbol alphabet (drop_bit 2 b0),
      symbol alphabet (or (push_bit 4 (and b0 0x03)) (drop_bit 4 b1)),
      symbol alphabet (push_bit 2 (and b1 0x0F))]"

fun fill_encoded :: "string \<Rightarrow> u8 list \<Rightarrow> string" where
  "fill_encoded alphabet (b0 # b1 # b2 # rest) =
     encode_full_block alphabet b0 b1 b2 @ fill_encoded alphabet rest"
| "fill_encoded alphabet [b0, b1] = encode_tail_two alphabet b0 b1"
| "fill_encoded alphabet [b0] = encode_tail_one alphabet b0"
| "fill_encoded alphabet [] = []"

definition encode_base64url_nopad :: "u8 list \<Rightarrow> string" where
  "encode_base64url_nopad data = fill_encoded URL_SAFE_ALPHABET data"

definition encode_base64_standard_nopad :: "u8 list \<Rightarrow> string" where
  "encode_base64_standard_nopad data = fill_encoded STANDARD_ALPHABET data"

lemma length_fill_encoded: "length (fill_encoded al bs) = compute_encoded_len (length bs)"
proof (induction al bs rule: fill_encoded.induct)
  case (1 al b0 b1 b2 rest)
  have "compute_encoded_len (length rest + 3) = compute_encoded_len (length rest) + 4"
    by (simp add: compute_encoded_len_def Let_def div_add_self2)
  with 1 show ?case by (simp add: encode_full_block_def numeral_3_eq_3)
qed (simp_all add: compute_encoded_len_def encode_tail_one_def encode_tail_two_def)

section \<open>Decoding\<close>

definition decode_symbol_checked :: "base64_variant \<Rightarrow> char \<Rightarrow> u8 res" where
  "decode_symbol_checked v byte = ok_or (plain_error Parse) (decode_symbol byte v)"

definition validate_unused_tail_bits :: "u8 \<Rightarrow> u8 \<Rightarrow> unit res" where
  "validate_unused_tail_bits value mask_bits =
     (if and value mask_bits = 0 then Inr () else Inl (plain_error Parse))"

fun decode_full_block :: "base64_variant \<Rightarrow> string \<Rightarrow> u8 list res" where
  "decode_full_block v [s0, s1, s2, s3] =
     res_bind (decode_symbol_checked v s0) (\<lambda>a.
     res_bind (decode_symbol_checked v s1) (\<lambda>b.
     res_bind (decode_symbol_checked v s2) (\<lambda>c.
     res_bind (decode_symbol_checked v s3) (\<lambda>d.
     Inr [or (push_bit 2 a) (drop_bit 4 b),
          or (push_bit 4 (and b 0x0F)) (drop_bit 2 c),
          or (push_bit 6 (and c 0x03)) d]))))"
| "decode_full_block v _ = Inr []"

fun decode_tail :: "base64_variant \<Rightarrow> string \<Rightarrow> u8 list res" where
  "decode_tail v [] = Inr []"
| "decode_tail v [s0, s1] =
     res_bind (decode_symbol_checked v s0) (\<lambda>a.
     res_bind (decode_symbol_checked v s1) (\<lambda>b.
     res_bind (validate_unused_tail_bits b 0x0F) (\<lambda>_.
     Inr [or (push_bit 2 a) (drop_bit 4 b)])))"
| "decode_tail v [s0, s1, s2] =
     res_bind (decode_symbol_checked v s0) (\<lambda>a.
     res_bind (decode_symbol_checked v s1) (\<lambda>b.
     res_bind (decode_symbol_checked v s2) (\<lambda>c.
     res_bind (validate_unused_tail_bits c 0x03) (\<lambda>_.
     Inr [or (push_bit 2 a) (drop_bit 4 b),
          or (push_bit 4 (and b 0x0F)) (drop_bit 2 c)]))))"
| "decode_tail v _ = Inl (plain_error Parse)"

definition decode_into :: "base64_variant \<Rightarrow> string \<Rightarrow> nat \<Rightarrow> u8 list res" where
  "decode_into v data payload_len =
     (let payload = take payload_len data;
          full_len = payload_len - payload_len mod 4 in
      res_bind (res_map concat
        (collect_res (decode_full_block v) (chunks 4 (take full_len payload)))) (\<lambda>blocks.
      res_map ((@) blocks) (decode_tail v (drop full_len payload))))"

definition has_whitespace_or_control :: "string \<Rightarrow> bool" where
  "has_whitespace_or_control s \<longleftrightarrow>
     (\<exists>i<length s.
        of_char (s ! i) < (32::nat) \<or> ascii_ws (s ! i) \<or> of_char (s ! i) = (127::nat) \<or>
        (i + 1 < length s \<and> of_char (s ! i) = (0xC2::nat) \<and> code_in 0x80 0xA0 (s ! (i + 1))) \<or>
        (i + 2 < length s \<and> ws3 (s ! i) (s ! (i + 1)) (s ! (i + 2))))"

definition validate_common_input :: "string \<Rightarrow> unit res" where
  "validate_common_input data =
     (if has_whitespace_or_control data then Inl (plain_error Parse) else Inr ())"

definition validate_base64url_chars :: "string \<Rightarrow> unit res" where
  "validate_base64url_chars data =
     (if CHR ''='' \<in> set data then Inl (plain_error Parse)
      else if list_all (\<lambda>b. is_ascii_alphanumeric b \<or> b = CHR ''-'' \<or> b = CHR ''_'') data
      then Inr ()
      else Inl (plain_error Parse))"

definition tail_output_len :: "nat \<Rightarrow> nat" where
  "tail_output_len rem = (if rem = 2 then 1 else if rem = 3 then 2 else 0)"

definition decode_base64url_input_len :: "string \<Rightarrow> nat res" where
  "decode_base64url_input_len data =
     res_bind (validate_common_input data) (\<lambda>_.
     res_bind (validate_base64url_chars data) (\<lambda>_.
     let rem = length data mod 4 in
     if rem = 1 then Inl (plain_error Parse)
     else Inr (length data div 4 * 3 + tail_output_len rem)))"

definition decode_base64url_nopad_with_limit :: "string \<Rightarrow> nat \<Rightarrow> u8 list res" where
  "decode_base64url_nopad_with_limit data max_len =
     (if length data > max_len then Inl (plain_error Parse)
      else res_bind (decode_base64url_input_len data) (\<lambda>len.
           decode_into UrlSafe data (length data)))"

definition decode_base64url_nopad :: "string \<Rightarrow> u8 list res" where
  "decode_base64url_nopad data =
     decode_base64url_nopad_with_limit data MAX_BASE64_CIPHERTEXT_LENGTH"

definition decode_base64url_nopad_token :: "string \<Rightarrow> u8 list res" where
  "decode_base64url_nopad_token data =
     decode_base64url_nopad_with_limit data MAX_BASE64_TOKEN_LENGTH"

definition decode_base64url_nopad_array :: "nat \<Rightarrow> string \<Rightarrow> u8 list res" where
  "decode_base64url_nopad_array n data =
     res_bind (decode_base64url_input_len data) (\<lambda>len.
     if len \<noteq> n then Inl (plain_error Crypto)
     else decode_into UrlSafe data (length data))"

subsection \<open>Standard base64 with its padding\<close>

record base64_padding =
  pad_payload_len :: nat
  pad_count :: nat

fun standard_char_scan :: "nat \<Rightarrow> bool \<Rightarrow> base64_padding \<Rightarrow> string \<Rightarrow> base64_padding res" where
  "standard_char_scan idx padding_started padding [] = Inr padding"
| "standard_char_scan idx padding_started padding (byte # rest) =
     (if byte = CHR ''='' then
        standard_char_scan (idx + 1) True
          \<lparr>pad_payload_len = (if padding_started then pad_payload_len padding else idx),
           pad_count = pad_count padding + 1\<rparr> rest
      else if padding_started then Inl (plain_error Parse)
      else if decode_symbol byte Standard = None then Inl (plain_error Parse)
      else standard_char_scan (idx + 1) padding_started padding rest)"

definition validate_standard_char_set :: "string \<Rightarrow> base64_padding res" where
  "validate_standard_char_set data =
     standard_char_scan 0 False \<lparr>pad_payload_len = length data, pad_count = 0\<rparr> data"

definition enforce_padding_shape :: "base64_padding \<Rightarrow> nat \<Rightarrow> unit res" where
  "enforce_padding_shape padding data_len =
     (if pad_count padding > 2 then Inl (plain_error Parse)
      else if pad_count padding > 0 \<and> data_len mod 4 \<noteq> 0 then Inl (plain_error Parse)
      else if pad_count padding = 1 \<and> pad_payload_len padding mod 4 \<noteq> 3
      then Inl (plain_error Parse)
      else if pad_count padding = 2 \<and> pad_payload_len padding mod 4 \<noteq> 2
      then Inl (plain_error Parse)
      else Inr ())"

definition validate_standard_chars :: "string \<Rightarrow> nat res" where
  "validate_standard_chars data =
     res_bind (validate_standard_char_set data) (\<lambda>padding.
     res_bind (enforce_padding_shape padding (length data)) (\<lambda>_.
     Inr (pad_payload_len padding)))"

definition decode_standard_input_len :: "string \<Rightarrow> (nat \<times> nat) res" where
  "decode_standard_input_len data =
     res_bind (validate_common_input data) (\<lambda>_.
     res_bind (validate_standard_chars data) (\<lambda>payload_len.
     let rem = payload_len mod 4 in
     if rem = 1 then Inl (plain_error Parse)
     else Inr (payload_len, payload_len div 4 * 3 + tail_output_len rem)))"

definition decode_base64_standard :: "string \<Rightarrow> u8 list res" where
  "decode_base64_standard data =
     res_bind (decode_standard_input_len data) (\<lambda>(payload_len, output_len).
     decode_into Standard data payload_len)"

section \<open>Tokens\<close>

definition decode_token_bytes :: "string \<Rightarrow> u8 list res" where
  "decode_token_bytes tok =
     (if starts_with ''cb:'' tok \<or> starts_with ''cz:'' tok then Inl (plain_error Parse)
      else decode_base64url_nopad_token tok)"

definition encode_token :: "('v \<Rightarrow> u8 list res) \<Rightarrow> 'v \<Rightarrow> string res" where
  "encode_token jcs_normalize value =
     res_bind (jcs_normalize value) (\<lambda>jcs_bytes. Inr (encode_base64url_nopad jcs_bytes))"

section \<open>Symbols\<close>

lemma of_char_u8: "(of_char c :: u8) = of_nat (of_char c)"
  by (simp add: of_char_def)

lemma symbol_offset:
  "k \<le> of_char c \<Longrightarrow> (of_char c :: u8) - of_nat k = of_nat (of_char c - k)"
  by (simp add: of_char_u8 of_nat_diff)

lemma decode_symbol_letters:
  "code_in 65 90 c \<Longrightarrow> decode_symbol c v = Some (of_nat (of_char c - 65))"
  "code_in 97 122 c \<Longrightarrow> decode_symbol c v = Some (of_nat (of_char c - 71))"
  "code_in 48 57 c \<Longrightarrow> decode_symbol c v = Some (of_nat (of_char c + 4))"
proof -
  assume c: "code_in 65 90 c"
  then show "decode_symbol c v = Some (of_nat (of_char c - 65))"
    using symbol_offset [of 65 c] by (simp add: decode_symbol_def code_in_def)
next
  assume c: "code_in 97 122 c"
  then have "(of_char c :: u8) - 97 + 26 = of_nat (of_char c - 97 + 26)"
    using symbol_offset [of 97 c] by (simp add: code_in_def)
  also have "of_char c - 97 + 26 = of_char c - (71 :: nat)" using c by (simp add: code_in_def)
  finally show "decode_symbol c v = Some (of_nat (of_char c - 71))"
    using c by (simp add: decode_symbol_def code_in_def)
next
  assume c: "code_in 48 57 c"
  then have "(of_char c :: u8) - 48 + 52 = of_nat (of_char c - 48 + 52)"
    using symbol_offset [of 48 c] by (simp add: code_in_def)
  also have "of_char c - 48 + 52 = of_char c + (4 :: nat)" using c by (simp add: code_in_def)
  finally show "decode_symbol c v = Some (of_nat (of_char c + 4))"
    using c by (simp add: decode_symbol_def code_in_def)
qed

definition alnum_alphabet :: string where
  "alnum_alphabet = map char_of ([65..<91] @ [97..<123] @ [48..<58])"

lemma alphabet_of_alnum:
  "alphabet_of Standard = alnum_alphabet @ ''+/''" "alphabet_of UrlSafe = alnum_alphabet @ ''-_''"
  by (simp_all add: alphabet_of_def STANDARD_ALPHABET_def URL_SAFE_ALPHABET_def
      alnum_alphabet_def upt_rec char_of_def bit_Suc_0_iff)

lemma alnum_alphabet_nth:
  "n < 26 \<Longrightarrow> alnum_alphabet ! n = char_of (n + 65)"
  "26 \<le> n \<Longrightarrow> n < 52 \<Longrightarrow> alnum_alphabet ! n = char_of (n + 71)"
  "52 \<le> n \<Longrightarrow> n < 62 \<Longrightarrow> alnum_alphabet ! n = char_of (n - 4)"
  "length alnum_alphabet = 62"
  by (auto simp: alnum_alphabet_def nth_append add.commute simp del: upt_rec_numeral)

lemma alphabet_nth_alnum: "n < 62 \<Longrightarrow> alphabet_of v ! n = alnum_alphabet ! n"
  by (cases v) (simp_all add: alphabet_of_alnum nth_append alnum_alphabet_nth)

lemma decode_symbol_alphabet:
  assumes "n < 64" shows "decode_symbol (alphabet_of v ! n) v = Some (of_nat n)"
proof -
  consider "n < 26" | "26 \<le> n" "n < 52" | "52 \<le> n" "n < 62" | "n = 62" | "n = 63"
    using assms by linarith
  then show ?thesis
  proof cases
    case 1
    moreover have "code_in 65 90 (char_of (n + 65))"
      using 1 by (simp add: code_in_def take_bit_nat_eq_self)
    ultimately show ?thesis
      by (simp add: alphabet_nth_alnum alnum_alphabet_nth decode_symbol_letters
          take_bit_nat_eq_self)
  next
    case 2
    moreover have "code_in 97 122 (char_of (n + 71))"
      using 2 by (simp add: code_in_def take_bit_nat_eq_self)
    ultimately show ?thesis
      by (simp add: alphabet_nth_alnum alnum_alphabet_nth decode_symbol_letters
          take_bit_nat_eq_self)
  next
    case 3
    moreover have "code_in 48 57 (char_of (n - 4))"
      using 3 by (auto simp: code_in_def take_bit_nat_eq_self)
    ultimately show ?thesis
      by (simp add: alphabet_nth_alnum alnum_alphabet_nth decode_symbol_letters
          take_bit_nat_eq_self of_nat_diff)
  qed (cases v; simp add: alphabet_of_alnum nth_append alnum_alphabet_nth decode_symbol_def
      code_in_def)+
qed

lemma decode_symbol_Some:
  assumes "decode_symbol c v = Some x"
  shows "unat x < 64 \<and> alphabet_of v ! unat x = c"
proof -
  have small: "unat (of_nat n :: u8) = n" if "n < 256" for n
    using that by (simp add: unsigned_of_nat take_bit_nat_eq_self)
  consider "code_in 65 90 c" | "code_in 97 122 c" | "code_in 48 57 c"
    | "\<not> code_in 65 90 c" "\<not> code_in 97 122 c" "\<not> code_in 48 57 c" by blast
  then show ?thesis
  proof cases
    case 1
    then have "x = of_nat (of_char c - 65)" using assms by (simp only: decode_symbol_letters) simp
    moreover have "of_char c - 65 < (256::nat)" using 1 by (auto simp: code_in_def)
    ultimately have "unat x = of_char c - 65" by (simp only: small)
    with 1 show ?thesis by (auto simp: alphabet_nth_alnum alnum_alphabet_nth code_in_def)
  next
    case 2
    then have "x = of_nat (of_char c - 71)" using assms by (simp only: decode_symbol_letters) simp
    moreover have "of_char c - 71 < (256::nat)" using 2 by (auto simp: code_in_def)
    ultimately have "unat x = of_char c - 71" by (simp only: small)
    with 2 show ?thesis by (auto simp: alphabet_nth_alnum alnum_alphabet_nth code_in_def)
  next
    case 3
    have "x = of_nat (of_char c + 4)" using assms 3 by (simp only: decode_symbol_letters) simp
    moreover have "of_char c + 4 < (256::nat)" using 3 by (auto simp: code_in_def)
    ultimately have "unat x = of_char c + 4" by (simp only: small)
    with 3 show ?thesis by (auto simp: alphabet_nth_alnum alnum_alphabet_nth code_in_def)
  next
    case 4
    with assms show ?thesis
      by (cases v)
        (auto simp: decode_symbol_def alphabet_of_alnum nth_append alnum_alphabet_nth
          split: if_splits)
  qed
qed

section \<open>Blocks\<close>

lemma u8_masks:
  "and (x :: u8) 0x03 = take_bit 2 x" "and x 0x0F = take_bit 4 x" "and x 0x3F = take_bit 6 x"
  by (simp_all add: take_bit_eq_mask mask_eq_exp_minus_1)

lemma six_bits: "unat (x :: u8) < 64 \<longleftrightarrow> take_bit 6 x = x"
proof -
  have "take_bit 6 x = x \<longleftrightarrow> take_bit 6 (unat x) = unat x"
    by (metis unsigned_take_bit_eq unsigned_word_eqI)
  then show ?thesis by (simp add: take_bit_nat_eq_self_iff)
qed

lemma decode_symbol_checked_symbol:
  "take_bit 6 x = x \<Longrightarrow> decode_symbol_checked v (symbol (alphabet_of v) x) = Inr x"
  by (simp add: decode_symbol_checked_def symbol_def decode_symbol_alphabet six_bits [symmetric])

lemma decode_symbol_checked_Inr:
  "decode_symbol_checked v c = Inr x \<longleftrightarrow> take_bit 6 x = x \<and> c = symbol (alphabet_of v) x"
proof
  assume "decode_symbol_checked v c = Inr x"
  then have "decode_symbol c v = Some x" by (simp add: decode_symbol_checked_def)
  from decode_symbol_Some [OF this] show "take_bit 6 x = x \<and> c = symbol (alphabet_of v) x"
    by (simp add: symbol_def six_bits)
qed (auto simp: decode_symbol_checked_symbol)

lemma tail_bits_iff:
  "validate_unused_tail_bits x m = Inr u \<longleftrightarrow> and x m = 0"
  by (simp add: validate_unused_tail_bits_def)

lemma bit_six: "take_bit 6 (x :: u8) = x \<Longrightarrow> bit x n \<Longrightarrow> n < 6"
  by (metis bit_take_bit_iff)

lemma bit_low_zero: "take_bit k (x :: u8) = 0 \<Longrightarrow> n < k \<Longrightarrow> \<not> bit x n"
  by (metis bit_0_eq bit_take_bit_iff bot_apply bot_bool_def)

text \<open>The word identities behind a block, in both directions, one bit at a time.\<close>

lemma u8_bits_eqI:
  fixes x y :: u8
  assumes "bit x 0 = bit y 0" "bit x 1 = bit y 1" "bit x 2 = bit y 2" "bit x 3 = bit y 3"
    "bit x 4 = bit y 4" "bit x 5 = bit y 5" "bit x 6 = bit y 6" "bit x 7 = bit y 7"
  shows "x = y"
proof (rule bit_word_eqI)
  fix n assume "n < LENGTH(8)"
  then consider "n = 0" | "n = 1" | "n = 2" | "n = 3" | "n = 4" | "n = 5" | "n = 6" | "n = 7"
    by fastforce
  then show "bit x n = bit y n" using assms by cases simp_all
qed

lemmas u8_bit_simps =
  bit_or_iff bit_and_iff bit_push_bit_iff bit_drop_bit_eq bit_take_bit_iff

lemma block_split:
  fixes b0 b1 b2 :: u8
  shows "or (push_bit 2 (drop_bit 2 b0)) (drop_bit 4 (or (push_bit 4 (take_bit 2 b0)) (drop_bit 4 b1))) = b0"
    and "or (push_bit 4 (take_bit 4 (or (push_bit 4 (take_bit 2 b0)) (drop_bit 4 b1))))
           (drop_bit 2 (or (push_bit 2 (take_bit 4 b1)) (drop_bit 6 b2))) = b1"
    and "or (push_bit 6 (take_bit 2 (or (push_bit 2 (take_bit 4 b1)) (drop_bit 6 b2)))) (take_bit 6 b2) = b2"
    and "or (push_bit 2 (drop_bit 2 b0)) (drop_bit 4 (push_bit 4 (take_bit 2 b0))) = b0"
    and "or (push_bit 4 (take_bit 4 (or (push_bit 4 (take_bit 2 b0)) (drop_bit 4 b1))))
           (drop_bit 2 (push_bit 2 (take_bit 4 b1))) = b1"
  by (rule u8_bits_eqI; simp add: u8_bit_simps)+

lemma block_join:
  fixes a b c d :: u8
  assumes six: "take_bit 6 a = a" "take_bit 6 b = b" "take_bit 6 c = c" "take_bit 6 d = d"
  defines "b0 \<equiv> or (push_bit 2 a) (drop_bit 4 b)"
    and "b1 \<equiv> or (push_bit 4 (take_bit 4 b)) (drop_bit 2 c)"
    and "b2 \<equiv> or (push_bit 6 (take_bit 2 c)) d"
  shows "drop_bit 2 b0 = a"
    and "or (push_bit 4 (take_bit 2 b0)) (drop_bit 4 b1) = b"
    and "or (push_bit 2 (take_bit 4 b1)) (drop_bit 6 b2) = c"
    and "take_bit 6 b2 = d"
    and "take_bit 4 b = 0 \<Longrightarrow> push_bit 4 (take_bit 2 b0) = b"
    and "take_bit 2 c = 0 \<Longrightarrow> push_bit 2 (take_bit 4 b1) = c"
proof -
  have high: "\<And>n. 6 \<le> n \<Longrightarrow> \<not> bit a n" "\<And>n. 6 \<le> n \<Longrightarrow> \<not> bit b n"
      "\<And>n. 6 \<le> n \<Longrightarrow> \<not> bit c n" "\<And>n. 6 \<le> n \<Longrightarrow> \<not> bit d n"
    using six bit_six by fastforce+
  note bits = b0_def b1_def b2_def u8_bit_simps high
  show "drop_bit 2 b0 = a" by (rule u8_bits_eqI; simp add: bits)
  show "or (push_bit 4 (take_bit 2 b0)) (drop_bit 4 b1) = b"
    by (rule u8_bits_eqI; simp add: bits)
  show "or (push_bit 2 (take_bit 4 b1)) (drop_bit 6 b2) = c"
    by (rule u8_bits_eqI; simp add: bits)
  show "take_bit 6 b2 = d" by (rule u8_bits_eqI; simp add: bits)
  show "push_bit 4 (take_bit 2 b0) = b" if "take_bit 4 b = 0"
    by (rule u8_bits_eqI; simp add: bits bit_low_zero [OF that])
  show "push_bit 2 (take_bit 4 b1) = c" if "take_bit 2 c = 0"
    by (rule u8_bits_eqI; simp add: bits bit_low_zero [OF that])
qed

lemma symbol_args_six:
  fixes b0 b1 b2 :: u8
  shows "take_bit 6 (drop_bit 2 b0) = drop_bit 2 b0"
    and "take_bit 6 (or (push_bit 4 (take_bit 2 b0)) (drop_bit 4 b1)) =
      or (push_bit 4 (take_bit 2 b0)) (drop_bit 4 b1)"
    and "take_bit 6 (or (push_bit 2 (take_bit 4 b1)) (drop_bit 6 b2)) =
      or (push_bit 2 (take_bit 4 b1)) (drop_bit 6 b2)"
    and "take_bit 6 (push_bit 4 (take_bit 2 b0)) = push_bit 4 (take_bit 2 b0)"
    and "take_bit 6 (push_bit 2 (take_bit 4 b1)) = push_bit 2 (take_bit 4 b1)"
proof -
  have high: "\<And>n. 8 \<le> n \<Longrightarrow> \<not> bit (b :: u8) n" for b by (simp add: bit_word.abs_eq impossible_bit)
  note bits = u8_bit_simps high
  show "take_bit 6 (drop_bit 2 b0) = drop_bit 2 b0" by (rule u8_bits_eqI; simp add: bits)
  show "take_bit 6 (or (push_bit 4 (take_bit 2 b0)) (drop_bit 4 b1)) =
      or (push_bit 4 (take_bit 2 b0)) (drop_bit 4 b1)" by (rule u8_bits_eqI; simp add: bits)
  show "take_bit 6 (or (push_bit 2 (take_bit 4 b1)) (drop_bit 6 b2)) =
      or (push_bit 2 (take_bit 4 b1)) (drop_bit 6 b2)" by (rule u8_bits_eqI; simp add: bits)
  show "take_bit 6 (push_bit 4 (take_bit 2 b0)) = push_bit 4 (take_bit 2 b0)"
    by (rule u8_bits_eqI; simp add: bits)
  show "take_bit 6 (push_bit 2 (take_bit 4 b1)) = push_bit 2 (take_bit 4 b1)"
    by (rule u8_bits_eqI; simp add: bits)
qed

lemma tail_masks_zero:
  "take_bit 4 (push_bit 4 (x :: u8)) = 0" "take_bit 2 (push_bit 2 (x :: u8)) = 0"
  by (rule u8_bits_eqI; simp add: u8_bit_simps)+

lemma decode_block_symbols:
  assumes "take_bit 6 a = a" "take_bit 6 b = b"
  shows "take_bit 6 c = c \<Longrightarrow> take_bit 6 d = d \<Longrightarrow> decode_full_block v [symbol (alphabet_of v) a,
      symbol (alphabet_of v) b, symbol (alphabet_of v) c, symbol (alphabet_of v) d] =
      Inr [or (push_bit 2 a) (drop_bit 4 b), or (push_bit 4 (take_bit 4 b)) (drop_bit 2 c),
        or (push_bit 6 (take_bit 2 c)) d]"
    and "take_bit 4 b = 0 \<Longrightarrow>
      decode_tail v [symbol (alphabet_of v) a, symbol (alphabet_of v) b] =
      Inr [or (push_bit 2 a) (drop_bit 4 b)]"
    and "take_bit 6 c = c \<Longrightarrow> take_bit 2 c = 0 \<Longrightarrow> decode_tail v [symbol (alphabet_of v) a,
      symbol (alphabet_of v) b, symbol (alphabet_of v) c] =
      Inr [or (push_bit 2 a) (drop_bit 4 b), or (push_bit 4 (take_bit 4 b)) (drop_bit 2 c)]"
  using assms
  by (simp_all add: u8_masks decode_symbol_checked_symbol validate_unused_tail_bits_def)

lemma decode_encode_full_block:
  "decode_full_block v (encode_full_block (alphabet_of v) b0 b1 b2) = Inr [b0, b1, b2]"
  unfolding encode_full_block_def u8_masks
  by (subst decode_block_symbols; (rule symbol_args_six)?)
     (simp, simp only: block_split)

lemma decode_encode_tails:
  "decode_tail v (encode_tail_one (alphabet_of v) b0) = Inr [b0]"
  "decode_tail v (encode_tail_two (alphabet_of v) b0 b1) = Inr [b0, b1]"
  unfolding encode_tail_one_def encode_tail_two_def u8_masks
  by (subst decode_block_symbols; (rule symbol_args_six tail_masks_zero)?; simp only: block_split)+

lemma encode_decode_full_block:
  assumes "decode_full_block v [s0, s1, s2, s3] = Inr o3"
  shows "\<exists>b0 b1 b2. o3 = [b0, b1, b2] \<and> encode_full_block (alphabet_of v) b0 b1 b2 = [s0, s1, s2, s3]"
proof -
  from assms obtain a b c d where six: "take_bit 6 a = a" "take_bit 6 b = b" "take_bit 6 c = c"
      "take_bit 6 d = d"
    and s: "[s0, s1, s2, s3] = map (symbol (alphabet_of v)) [a, b, c, d]"
    and o3: "o3 = [or (push_bit 2 a) (drop_bit 4 b), or (push_bit 4 (take_bit 4 b)) (drop_bit 2 c),
      or (push_bit 6 (take_bit 2 c)) d]"
    by (auto simp: decode_symbol_checked_Inr u8_masks)
  have "encode_full_block (alphabet_of v) (or (push_bit 2 a) (drop_bit 4 b))
      (or (push_bit 4 (take_bit 4 b)) (drop_bit 2 c)) (or (push_bit 6 (take_bit 2 c)) d) =
      [s0, s1, s2, s3]"
    unfolding s encode_full_block_def u8_masks by (simp only: block_join [OF six] list.map)
  with o3 show ?thesis by blast
qed

lemma encode_decode_tail:
  assumes "decode_tail v s = Inr bs" and "length s < 4"
  shows "fill_encoded (alphabet_of v) bs = s"
proof -
  have zero: "take_bit 6 (0 :: u8) = 0" by simp
  consider "s = []" | s0 s1 where "s = [s0, s1]" | s0 s1 s2 where "s = [s0, s1, s2]"
    using assms by (cases "(v, s)" rule: decode_tail.cases) auto
  then show ?thesis
  proof cases
    case 1
    with assms show ?thesis by simp
  next
    case 2
    with assms obtain a b where six: "take_bit 6 a = a" "take_bit 6 b = b"
      and s: "s = map (symbol (alphabet_of v)) [a, b]" and z: "take_bit 4 b = 0"
      and bs: "bs = [or (push_bit 2 a) (drop_bit 4 b)]"
      by (auto simp: decode_symbol_checked_Inr u8_masks tail_bits_iff)
    show ?thesis
      unfolding bs s fill_encoded.simps encode_tail_one_def u8_masks list.map
      by (simp only: block_join(1,5) [OF six zero zero] z)
  next
    case 3
    with assms obtain a b c where six: "take_bit 6 a = a" "take_bit 6 b = b" "take_bit 6 c = c"
      and s: "s = map (symbol (alphabet_of v)) [a, b, c]" and z: "take_bit 2 c = 0"
      and bs: "bs = [or (push_bit 2 a) (drop_bit 4 b), or (push_bit 4 (take_bit 4 b)) (drop_bit 2 c)]"
      by (auto simp: decode_symbol_checked_Inr u8_masks tail_bits_iff)
    show ?thesis
      unfolding bs s fill_encoded.simps encode_tail_two_def u8_masks list.map
      by (simp only: block_join(1,2,6) [OF six zero] z)
  qed
qed

section \<open>Whole texts\<close>

lemma decode_into_take:
  "n \<le> length data \<Longrightarrow> decode_into v data n = decode_into v (take n data) (length (take n data))"
  by (simp add: decode_into_def min_absorb2)

lemma concat_blocks:
  "res_bind (res_map concat (res_bind b (\<lambda>y. res_map ((#) y) cs))) (\<lambda>blocks. res_map ((@) blocks) t) =
     res_bind b (\<lambda>blk. res_map ((@) blk)
       (res_bind (res_map concat cs) (\<lambda>blocks. res_map ((@) blocks) t)))"
  by (cases b; cases cs; cases t) simp_all

lemma decode_into_quad:
  "decode_into v (s0 # s1 # s2 # s3 # rest) (length rest + 4) =
     res_bind (decode_full_block v [s0, s1, s2, s3]) (\<lambda>blk.
     res_map ((@) blk) (decode_into v rest (length rest)))"
proof -
  let ?n = "length rest - length rest mod 4"
  have len: "length rest + 4 - (length rest + 4) mod 4 = ?n + 4"
    using mod_less_eq_dividend [of "length rest" 4] by simp
  have chunk: "chunks 4 (s0 # s1 # s2 # s3 # xs) = [s0, s1, s2, s3] # chunks 4 xs" for xs
    by (subst chunks.simps) (simp add: numeral_eq_Suc)
  have all: "take (length rest + 4) (s0 # s1 # s2 # s3 # rest) = s0 # s1 # s2 # s3 # rest"
    "take (length rest) rest = rest" by simp_all
  have Suc4: "n + 4 = Suc (Suc (Suc (Suc n)))" for n by simp
  have tk: "take (n + 4) (s0 # s1 # s2 # s3 # rest) = s0 # s1 # s2 # s3 # take n rest"
    "drop (n + 4) (s0 # s1 # s2 # s3 # rest) = drop n rest" for n
    by (simp_all only: Suc4 take_Suc_Cons drop_Suc_Cons)
  show ?thesis
    unfolding decode_into_def Let_def len by (simp only: all tk chunk collect_res.simps
        concat_blocks)
qed

lemma decode_into_short:
  "length s < 4 \<Longrightarrow> decode_into v s (length s) = decode_tail v s"
  by (simp add: decode_into_def) (cases "decode_tail v s"; simp)

lemma decode_into_fill_encoded:
  "decode_into v (fill_encoded (alphabet_of v) bs) (length (fill_encoded (alphabet_of v) bs)) = Inr bs"
proof (induction "alphabet_of v" bs rule: fill_encoded.induct)
  case (1 b0 b1 b2 rest)
  obtain s0 s1 s2 s3 where blk: "encode_full_block (alphabet_of v) b0 b1 b2 = [s0, s1, s2, s3]"
    by (simp add: encode_full_block_def)
  have "decode_full_block v [s0, s1, s2, s3] = Inr [b0, b1, b2]"
    using decode_encode_full_block [of v b0 b1 b2] by (simp only: blk)
  then have "decode_into v (s0 # s1 # s2 # s3 # fill_encoded (alphabet_of v) rest)
      (length (fill_encoded (alphabet_of v) rest) + 4) = Inr (b0 # b1 # b2 # rest)"
    by (simp only: decode_into_quad 1 res_bind_simps res_map_simps) simp
  then show ?case by (simp add: blk eval_nat_numeral)
next
  case (2 b0 b1)
  then show ?case
    using decode_into_short [of "encode_tail_two (alphabet_of v) b0 b1" v]
    by (simp only: fill_encoded.simps decode_encode_tails) (simp add: encode_tail_two_def)
next
  case (3 b0)
  then show ?case
    using decode_into_short [of "encode_tail_one (alphabet_of v) b0" v]
    by (simp only: fill_encoded.simps decode_encode_tails) (simp add: encode_tail_one_def)
next
  case 4
  then show ?case using decode_into_short [of "[]" v] by simp
qed

lemma fill_encoded_decode_into:
  "decode_into v s (length s) = Inr bs \<Longrightarrow> fill_encoded (alphabet_of v) bs = s"
proof (induction s arbitrary: bs rule: length_induct)
  case (1 s)
  show ?case
  proof (cases "length s < 4")
    case True
    with 1 show ?thesis using encode_decode_tail by (simp add: decode_into_short)
  next
    case False
    then obtain s0 s1 s2 s3 rest where s: "s = s0 # s1 # s2 # s3 # rest"
      by (cases "(v, s)" rule: decode_tail.cases) auto
    have "length s = length rest + 4" by (simp add: s)
    with "1.prems" have "decode_into v (s0 # s1 # s2 # s3 # rest) (length rest + 4) = Inr bs"
      by (simp only: s)
    then obtain blk bs' where blk: "decode_full_block v [s0, s1, s2, s3] = Inr blk"
      and rest: "decode_into v rest (length rest) = Inr bs'" and bs: "bs = blk @ bs'"
      by (auto simp: decode_into_quad simp del: decode_full_block.simps)
    from encode_decode_full_block [OF blk] obtain b0 b1 b2 where "blk = [b0, b1, b2]"
      "encode_full_block (alphabet_of v) b0 b1 b2 = [s0, s1, s2, s3]" by blast
    moreover have "fill_encoded (alphabet_of v) bs' = rest"
      using "1.IH" rest by (simp add: s)
    ultimately show ?thesis by (simp add: bs s)
  qed
qed

lemma decode_into_iff:
  "decode_into v s (length s) = Inr bs \<longleftrightarrow> s = fill_encoded (alphabet_of v) bs"
  using fill_encoded_decode_into decode_into_fill_encoded by auto

lemma decode_into_error: "decode_into v s n = Inl e \<Longrightarrow> e = plain_error Parse"
proof -
  have block: "decode_full_block v q = Inl e \<Longrightarrow> e = plain_error Parse" for q
    by (cases "(v, q)" rule: decode_full_block.cases)
       (auto simp: res_bind_Inl decode_symbol_checked_def)
  have tail: "decode_tail v q = Inl e \<Longrightarrow> e = plain_error Parse" for q
    by (cases "(v, q)" rule: decode_tail.cases)
       (auto simp: res_bind_Inl decode_symbol_checked_def validate_unused_tail_bits_def
         split: if_splits)
  have blocks: "collect_res (decode_full_block v) qs = Inl e \<Longrightarrow> e = plain_error Parse" for qs
    by (induction qs) (auto simp: res_bind_Inl dest: block)
  assume "decode_into v s n = Inl e"
  then show ?thesis
    by (auto simp: decode_into_def Let_def res_bind_Inl dest: blocks tail)
qed

lemma alphabet_of_length: "length (alphabet_of v) = 64"
  by (cases v) (simp_all add: alphabet_of_alnum alnum_alphabet_nth)

lemma symbol_in_alphabet: "take_bit 6 x = x \<Longrightarrow> symbol (alphabet_of v) x \<in> set (alphabet_of v)"
  by (auto simp: symbol_def six_bits [symmetric] alphabet_of_length intro!: nth_mem)

lemma block_chars:
  "set (encode_full_block (alphabet_of v) b0 b1 b2) \<subseteq> set (alphabet_of v)"
  "set (encode_tail_two (alphabet_of v) b0 b1) \<subseteq> set (alphabet_of v)"
  "set (encode_tail_one (alphabet_of v) b0) \<subseteq> set (alphabet_of v)"
proof -
  have six: "take_bit 6 (take_bit 6 b2) = take_bit 6 b2" by simp
  note chars = symbol_args_six [THEN symbol_in_alphabet] six [THEN symbol_in_alphabet]
  show "set (encode_full_block (alphabet_of v) b0 b1 b2) \<subseteq> set (alphabet_of v)"
    unfolding encode_full_block_def u8_masks list.set insert_subset using chars by blast
  show "set (encode_tail_two (alphabet_of v) b0 b1) \<subseteq> set (alphabet_of v)"
    unfolding encode_tail_two_def u8_masks list.set insert_subset using chars by blast
  show "set (encode_tail_one (alphabet_of v) b0) \<subseteq> set (alphabet_of v)"
    unfolding encode_tail_one_def u8_masks list.set insert_subset using chars by blast
qed

lemma fill_encoded_chars: "set (fill_encoded (alphabet_of v) bs) \<subseteq> set (alphabet_of v)"
  by (induction "alphabet_of v" bs rule: fill_encoded.induct) (simp_all add: block_chars)

lemma alnum_alphabet_chars: "c \<in> set alnum_alphabet \<Longrightarrow> is_ascii_alphanumeric c"
proof -
  assume "c \<in> set alnum_alphabet"
  then obtain n where n: "n < 62" "c = alnum_alphabet ! n"
    by (auto simp: in_set_conv_nth alnum_alphabet_nth)
  then consider "n < 26" | "26 \<le> n" "n < 52" | "52 \<le> n" "n < 62" by linarith
  then show ?thesis
    using n by cases (auto simp: alnum_alphabet_nth ascii_class_defs take_bit_nat_eq_self)
qed

lemma alphabet_of_classes:
  "c \<in> set (alphabet_of UrlSafe) \<Longrightarrow> is_ascii_alphanumeric c \<or> c = CHR ''-'' \<or> c = CHR ''_''"
  "c \<in> set (alphabet_of Standard) \<Longrightarrow> is_ascii_alphanumeric c \<or> c = CHR ''+'' \<or> c = CHR ''/''"
  by (auto simp: alphabet_of_alnum dest: alnum_alphabet_chars)

lemma alphabet_of_graphic: "c \<in> set (alphabet_of v) \<Longrightarrow> graphic c \<and> c \<noteq> CHR ''=''"
proof -
  assume "c \<in> set (alphabet_of v)"
  then have "is_ascii_alphanumeric c \<or> c \<in> set ''-_+/''"
    by (cases v) (auto dest: alphabet_of_classes)
  then show ?thesis by (auto simp: ascii_class_defs graphic_def)
qed

lemma graphic_no_ws_or_control:
  "list_all graphic s \<Longrightarrow> \<not> has_whitespace_or_control s"
  by (auto simp: has_whitespace_or_control_def list_all_length graphic_def code_in_def
      ascii_ws_def ws3_def)

lemma encoded_url_valid:
  "validate_common_input (encode_base64url_nopad bs) = Inr ()"
  "validate_base64url_chars (encode_base64url_nopad bs) = Inr ()"
proof -
  have chars: "c \<in> set (encode_base64url_nopad bs) \<Longrightarrow> c \<in> set (alphabet_of UrlSafe)" for c
    using fill_encoded_chars [of UrlSafe bs] by (auto simp: encode_base64url_nopad_def alphabet_of_def)
  show "validate_common_input (encode_base64url_nopad bs) = Inr ()"
    using graphic_no_ws_or_control [of "encode_base64url_nopad bs"] alphabet_of_graphic chars
    by (auto simp: validate_common_input_def list_all_iff)
  show "validate_base64url_chars (encode_base64url_nopad bs) = Inr ()"
    using alphabet_of_graphic alphabet_of_classes(1) chars
    by (auto simp: validate_base64url_chars_def list_all_iff)
qed

lemma compute_encoded_len_cases:
  "compute_encoded_len (3 * q) = 4 * q" "compute_encoded_len (3 * q + 1) = 4 * q + 2"
  "compute_encoded_len (3 * q + 2) = 4 * q + 3"
proof -
  have "(3 * q + 1) mod 3 = 1" "(3 * q + 2) mod 3 = 2" by presburger+
  then show "compute_encoded_len (3 * q) = 4 * q" "compute_encoded_len (3 * q + 1) = 4 * q + 2"
    "compute_encoded_len (3 * q + 2) = 4 * q + 3"
    by (simp_all add: compute_encoded_len_def Let_def)
qed

lemma thirds:
  fixes n :: nat
  obtains q where "n = 3 * q" | q where "n = 3 * q + 1" | q where "n = 3 * q + 2"
proof -
  have "n = 3 * (n div 3) \<or> n = 3 * (n div 3) + 1 \<or> n = 3 * (n div 3) + 2" by presburger
  then show ?thesis using that by blast
qed

lemma quarter_rem: "(4 * q + r) mod 4 = r" "(4 * q + r) div 4 = q" if "r < 4" for q r :: nat
  using that by presburger+

lemma quarter_rem_Suc: "Suc (Suc (4 * q)) mod 4 = 2" "Suc (Suc (4 * q)) div 4 = q" for q :: nat
  by presburger+

lemma encoded_len_mod: "compute_encoded_len n mod 4 = (if n mod 3 = 0 then 0 else n mod 3 + 1)"
proof (cases n rule: thirds)
  case (2 q)
  then have "n mod 3 = 1" by presburger
  with 2 show ?thesis by (simp only: compute_encoded_len_cases) (simp add: quarter_rem quarter_rem_Suc)
next
  case (3 q)
  then have "n mod 3 = 2" by presburger
  with 3 show ?thesis by (simp only: compute_encoded_len_cases) (simp add: quarter_rem quarter_rem_Suc)
qed (simp add: compute_encoded_len_cases)

lemma decoded_len: "compute_encoded_len n div 4 * 3 + tail_output_len (compute_encoded_len n mod 4) = n"
  by (cases n rule: thirds)
     (simp_all only: compute_encoded_len_cases, simp_all add: quarter_rem quarter_rem_Suc tail_output_len_def)

lemma encode_url_length: "length (encode_base64url_nopad bs) = compute_encoded_len (length bs)"
  by (simp add: encode_base64url_nopad_def length_fill_encoded)

lemma input_len_encoded:
  "decode_base64url_input_len (encode_base64url_nopad bs) = Inr (length bs)"
proof -
  have "compute_encoded_len (length bs) mod 4 \<noteq> 1" by (simp add: encoded_len_mod)
  then show ?thesis
    by (simp add: decode_base64url_input_len_def encoded_url_valid encode_url_length decoded_len Let_def)
qed

lemma decode_url_iff:
  "decode_into UrlSafe s (length s) = Inr bs \<longleftrightarrow> s = encode_base64url_nopad bs"
  using decode_into_iff [of UrlSafe s bs]
  by (simp add: encode_base64url_nopad_def alphabet_of_def)

lemma decode_with_limit_iff:
  "decode_base64url_nopad_with_limit s limit = Inr bs \<longleftrightarrow>
     s = encode_base64url_nopad bs \<and> length s \<le> limit"
  by (auto simp: decode_base64url_nopad_with_limit_def decode_url_iff input_len_encoded)

lemma decode_array_iff:
  "decode_base64url_nopad_array n s = Inr bs \<longleftrightarrow> s = encode_base64url_nopad bs \<and> length bs = n"
  by (auto simp: decode_base64url_nopad_array_def decode_url_iff input_len_encoded)

lemma decode_url_error:
  "decode_base64url_nopad_with_limit s limit = Inl e \<Longrightarrow> e = plain_error Parse"
  by (auto simp: decode_base64url_nopad_with_limit_def decode_base64url_input_len_def
      validate_common_input_def validate_base64url_chars_def res_bind_Inl Let_def
      split: if_splits dest: decode_into_error)

definition url_fits :: "nat \<Rightarrow> u8 list \<Rightarrow> bool" where
  "url_fits limit bs \<longleftrightarrow> compute_encoded_len (length bs) \<le> limit"

interpretation url: canonical_codec encode_base64url_nopad decode_base64url_nopad
  "url_fits MAX_BASE64_CIPHERTEXT_LENGTH"
  by unfold_locales
    (auto simp: decode_base64url_nopad_def decode_with_limit_iff url_fits_def encode_url_length)

interpretation tok: canonical_codec encode_base64url_nopad decode_base64url_nopad_token
  "url_fits MAX_BASE64_TOKEN_LENGTH"
  by unfold_locales
    (auto simp: decode_base64url_nopad_token_def decode_with_limit_iff url_fits_def
      encode_url_length)

interpretation arr: canonical_codec encode_base64url_nopad "decode_base64url_nopad_array n"
  "\<lambda>bs. length bs = n" for n
  by unfold_locales (auto simp: decode_array_iff)

section \<open>Standard base64\<close>

definition standard_padding :: "nat \<Rightarrow> string" where
  "standard_padding n = replicate ((3 - n mod 3) mod 3) CHR ''=''"

lemma standard_scan_padding:
  "standard_char_scan i True p s = Inr q \<longleftrightarrow>
     s = replicate (length s) CHR ''='' \<and>
     q = \<lparr>pad_payload_len = pad_payload_len p, pad_count = pad_count p + length s\<rparr>"
  by (induction i True p s rule: standard_char_scan.induct) auto

lemma standard_scan_iff:
  "standard_char_scan i False p s = Inr q \<longleftrightarrow>
     (\<exists>l k. s = l @ replicate k CHR ''='' \<and> (\<forall>c\<in>set l. decode_symbol c Standard \<noteq> None) \<and>
        q = (if k = 0 then p
             else \<lparr>pad_payload_len = i + length l, pad_count = pad_count p + k\<rparr>))"
proof (induction s arbitrary: i)
  case Nil
  then show ?case by auto
next
  case (Cons c s)
  have eq: "decode_symbol CHR ''='' Standard = None" by (simp add: decode_symbol_def code_in_def)
  show ?case
  proof (cases "c = CHR ''=''")
    case True
    have "(\<exists>l k. c # s = l @ replicate k CHR ''='' \<and> (\<forall>c\<in>set l. decode_symbol c Standard \<noteq> None) \<and>
        q = (if k = 0 then p else \<lparr>pad_payload_len = i + length l, pad_count = pad_count p + k\<rparr>))
      \<longleftrightarrow> s = replicate (length s) CHR ''='' \<and>
        q = \<lparr>pad_payload_len = i, pad_count = pad_count p + 1 + length s\<rparr>" (is "?L \<longleftrightarrow> ?R")
    proof
      assume ?L
      then obtain l k where l: "c # s = l @ replicate k CHR ''=''"
        "\<forall>c\<in>set l. decode_symbol c Standard \<noteq> None"
        "q = (if k = 0 then p else \<lparr>pad_payload_len = i + length l, pad_count = pad_count p + k\<rparr>)"
        by blast
      with True eq have "l = []" by (cases l) auto
      with l show ?R by (cases k) auto
    next
      assume ?R
      with True show ?L by (intro exI [of _ "[]"] exI [of _ "Suc (length s)"]) simp
    qed
    with True show ?thesis by (simp add: standard_scan_padding)
  next
    case False
    have "(\<exists>l k. c # s = l @ replicate k CHR ''='' \<and> (\<forall>c\<in>set l. decode_symbol c Standard \<noteq> None) \<and>
        q = (if k = 0 then p else \<lparr>pad_payload_len = i + length l, pad_count = pad_count p + k\<rparr>))
      \<longleftrightarrow> decode_symbol c Standard \<noteq> None \<and>
        (\<exists>l k. s = l @ replicate k CHR ''='' \<and> (\<forall>c\<in>set l. decode_symbol c Standard \<noteq> None) \<and>
        q = (if k = 0 then p else \<lparr>pad_payload_len = i + 1 + length l, pad_count = pad_count p + k\<rparr>))"
      (is "?L \<longleftrightarrow> ?R")
    proof
      assume ?L
      then obtain l k where l: "c # s = l @ replicate k CHR ''=''"
        "\<forall>c\<in>set l. decode_symbol c Standard \<noteq> None"
        "q = (if k = 0 then p else \<lparr>pad_payload_len = i + length l, pad_count = pad_count p + k\<rparr>)"
        by blast
      with False obtain l' where "l = c # l'" by (cases l; cases k) auto
      with l show ?R by (intro conjI exI [of _ l'] exI [of _ k]) auto
    next
      assume ?R
      then obtain l k where l: "s = l @ replicate k CHR ''=''"
        "\<forall>c\<in>set l. decode_symbol c Standard \<noteq> None" "decode_symbol c Standard \<noteq> None"
        "q = (if k = 0 then p else \<lparr>pad_payload_len = i + 1 + length l, pad_count = pad_count p + k\<rparr>)"
        by blast
      then show ?L by (intro exI [of _ "c # l"] exI [of _ k]) auto
    qed
    with False Cons show ?thesis by simp
  qed
qed

lemma validate_standard_chars_iff:
  "validate_standard_chars s = Inr n \<longleftrightarrow>
     (\<exists>l k. s = l @ replicate k CHR ''='' \<and> n = length l \<and>
        (\<forall>c\<in>set l. decode_symbol c Standard \<noteq> None) \<and>
        (k = 0 \<or> k = 1 \<and> n mod 4 = 3 \<or> k = 2 \<and> n mod 4 = 2))" (is "?L \<longleftrightarrow> ?R")
proof
  assume ?L
  then obtain q where q: "validate_standard_char_set s = Inr q"
    "enforce_padding_shape q (length s) = Inr ()" "n = pad_payload_len q"
    by (auto simp: validate_standard_chars_def)
  from q(1) obtain l k where l: "s = l @ replicate k CHR ''=''"
    "\<forall>c\<in>set l. decode_symbol c Standard \<noteq> None"
    "q = (if k = 0 then \<lparr>pad_payload_len = length s, pad_count = 0\<rparr>
          else \<lparr>pad_payload_len = length l, pad_count = k\<rparr>)"
    by (auto simp: validate_standard_char_set_def standard_scan_iff)
  then have n: "n = length l" "pad_count q = k" using q(3) by auto
  with q(2) l(3) have "k \<le> 2" "k = 1 \<Longrightarrow> n mod 4 = 3" "k = 2 \<Longrightarrow> n mod 4 = 2"
    by (auto simp: enforce_padding_shape_def split: if_splits)
  then have "k = 0 \<or> k = 1 \<and> n mod 4 = 3 \<or> k = 2 \<and> n mod 4 = 2" by linarith
  with l n show ?R by blast
next
  assume ?R
  then obtain l k where l: "s = l @ replicate k CHR ''=''" "n = length l"
    "\<forall>c\<in>set l. decode_symbol c Standard \<noteq> None"
    and k: "k = 0 \<or> k = 1 \<and> n mod 4 = 3 \<or> k = 2 \<and> n mod 4 = 2" by blast
  let ?q = "if k = 0 then \<lparr>pad_payload_len = length s, pad_count = 0\<rparr>
     else \<lparr>pad_payload_len = length l, pad_count = k\<rparr>"
  have scan: "validate_standard_char_set s = Inr ?q"
    unfolding validate_standard_char_set_def standard_scan_iff
    using l by (intro exI [of _ l] exI [of _ k]) simp
  have len: "length s = n + k" "pad_payload_len ?q = n" "pad_count ?q = k" using l by auto
  have "(n + k) mod 4 = 0 \<or> k = 0" using k by presburger
  then have "enforce_padding_shape ?q (length s) = Inr ()"
    unfolding enforce_padding_shape_def len using k by (auto simp: l(2))
  with scan len show ?L by (simp add: validate_standard_chars_def del: if_split)
qed

lemma encode_standard_length:
  "length (encode_base64_standard_nopad bs) = compute_encoded_len (length bs)"
  by (simp add: encode_base64_standard_nopad_def length_fill_encoded)

lemma encode_standard_chars:
  "c \<in> set (encode_base64_standard_nopad bs) \<Longrightarrow> graphic c \<and> c \<noteq> CHR ''='' \<and>
     decode_symbol c Standard \<noteq> None"
proof -
  assume "c \<in> set (encode_base64_standard_nopad bs)"
  then have c: "c \<in> set (alphabet_of Standard)"
    using fill_encoded_chars [of Standard bs]
    by (auto simp: encode_base64_standard_nopad_def alphabet_of_def)
  then obtain i where "i < 64" "c = alphabet_of Standard ! i"
    by (auto simp: in_set_conv_nth alphabet_of_length)
  then have "decode_symbol c Standard \<noteq> None" by (simp add: decode_symbol_alphabet)
  with c alphabet_of_graphic show ?thesis by blast
qed

lemma decode_standard_into_iff:
  "decode_into Standard (l @ r) (length l) = Inr bs \<longleftrightarrow> l = encode_base64_standard_nopad bs"
proof -
  have "decode_into Standard (l @ r) (length l) = decode_into Standard l (length l)"
    using decode_into_take [of "length l" "l @ r" Standard] by simp
  then show ?thesis
    using decode_into_iff [of Standard l bs]
    by (simp add: encode_base64_standard_nopad_def alphabet_of_def)
qed

lemma decode_standard_iff:
  "decode_base64_standard s = Inr bs \<longleftrightarrow>
     s = encode_base64_standard_nopad bs \<or>
     s = encode_base64_standard_nopad bs @ standard_padding (length bs)" (is "?L \<longleftrightarrow> ?R")
proof
  assume ?L
  then obtain l k where s: "s = l @ replicate k CHR ''=''"
    and k: "k = 0 \<or> k = 1 \<and> length l mod 4 = 3 \<or> k = 2 \<and> length l mod 4 = 2"
    and bs: "decode_into Standard s (length l) = Inr bs"
    by (auto simp: decode_base64_standard_def decode_standard_input_len_def
        validate_standard_chars_iff Let_def split: if_splits)
  from bs have l: "l = encode_base64_standard_nopad bs"
    unfolding s decode_standard_into_iff .
  with k have "k = 0 \<or> k = (3 - length bs mod 3) mod 3"
    by (auto simp: encode_standard_length encoded_len_mod split: if_splits)
  then show ?R unfolding s l standard_padding_def by auto
next
  assume ?R
  then obtain k where s: "s = encode_base64_standard_nopad bs @ replicate k CHR ''=''"
    and k: "k = 0 \<or> k = (3 - length bs mod 3) mod 3"
    by (metis append_Nil2 replicate_0 standard_padding_def)
  let ?l = "encode_base64_standard_nopad bs"
  have rem: "length ?l mod 4 = (if length bs mod 3 = 0 then 0 else length bs mod 3 + 1)"
    by (simp add: encode_standard_length encoded_len_mod)
  have "length bs mod 3 < 3" by simp
  then consider "length bs mod 3 = 0" | "length bs mod 3 = 1" | "length bs mod 3 = 2" by linarith
  then have shape: "k = 0 \<or> k = 1 \<and> length ?l mod 4 = 3 \<or> k = 2 \<and> length ?l mod 4 = 2"
    and ne1: "length ?l mod 4 \<noteq> 1"
    using k unfolding rem by (cases; auto)+
  have "list_all graphic s"
    using encode_standard_chars by (auto simp: s list_all_iff graphic_def code_in_def)
  then have "validate_common_input s = Inr ()"
    by (simp add: validate_common_input_def graphic_no_ws_or_control)
  moreover have "validate_standard_chars s = Inr (length ?l)"
    unfolding validate_standard_chars_iff
    using s shape encode_standard_chars by (intro exI [of _ ?l] exI [of _ k]) blast
  moreover have "decode_into Standard s (length ?l) = Inr bs"
    unfolding s decode_standard_into_iff ..
  ultimately show ?L
    using ne1 by (simp add: decode_base64_standard_def decode_standard_input_len_def Let_def)
qed

interpretation std: text_codec encode_base64_standard_nopad decode_base64_standard "\<lambda>_. True"
  by unfold_locales (simp add: decode_standard_iff)

section \<open>Properties\<close>

text \<open>
  C21. The base64url decoder is canonical: within its length limit it accepts a text exactly when
  the text is the encoding of the bytes it returns, so no second spelling of a token (padding,
  stray tail bits, foreign characters) decodes to the same bytes; every other text is refused
  with a parse error.
\<close>

theorem base64url_decode_canonical:
  "(decode_base64url_nopad_with_limit s limit = Inr bs \<longleftrightarrow>
      s = encode_base64url_nopad bs \<and> length s \<le> limit) \<and>
   (\<forall>e. decode_base64url_nopad_with_limit s limit = Inl e \<longrightarrow> e = plain_error Parse)"
  using decode_with_limit_iff decode_url_error by blast

lemma base64url_decode_canonical_witness:
  "decode_base64url_nopad_with_limit ''QUI'' 100 = Inr [0x41, 0x42]"
  using base64url_decode_canonical [of "''QUI''" 100 "[0x41, 0x42]"]
  by (simp add: encode_base64url_nopad_def encode_tail_two_def symbol_def URL_SAFE_ALPHABET_def)

text \<open>
  Standard base64, the spelling OpenSSH uses, is accepted without padding or with the one
  padding its length implies, and in no other form.
\<close>

theorem base64_standard_decode_forms:
  "decode_base64_standard s = Inr bs \<longleftrightarrow>
     s = encode_base64_standard_nopad bs \<or>
     s = encode_base64_standard_nopad bs @ standard_padding (length bs)"
  by (rule decode_standard_iff)

end
