(* ===== verification/Wire_Model.thy ===== *)
theory Wire_Model
  imports Identity Base64_Codec
begin

text \<open>
  The wire data of the crate: \<open>model/common.rs\<close>, \<open>model/kv_enc\<close>, \<open>model/file_enc.rs\<close>,
  \<open>model/public_key.rs\<close>, \<open>model/signature.rs\<close> and the constants of \<open>model/wire.rs\<close>, with the
  key-possession proof string and its parser. A \<open>Uuid\<close> is its 128-bit value.
\<close>

section \<open>Constants of the wire format\<close>

definition PUBLIC_KEY_V1 :: string where "PUBLIC_KEY_V1 = ''kapsaro:format:public-key@1''"
definition LOCAL_TRUST_V1 :: string where "LOCAL_TRUST_V1 = ''kapsaro:format:local-trust@1''"
definition FILE_ENC_V1 :: string where "FILE_ENC_V1 = ''kapsaro:format:file-enc@1''"
definition FILE_PAYLOAD_V1 :: string where
  "FILE_PAYLOAD_V1 = ''kapsaro:format:file-enc:payload@1''"
definition AEAD_XCHACHA20_POLY1305 :: string where
  "AEAD_XCHACHA20_POLY1305 = ''xchacha20-poly1305''"
definition SIGNATURE_ED25519 :: string where "SIGNATURE_ED25519 = ''eddsa-ed25519''"
definition HPKE_X25519_HKDF_SHA256_CHACHA20_POLY1305 :: string where
  "HPKE_X25519_HKDF_SHA256_CHACHA20_POLY1305 = ''hpke-32-1-3''"

section \<open>Recipients\<close>

type_synonym uuid = "128 word"

record wrap_item =
  wi_recipient_handle :: string
  wi_kid :: string
  wi_alg :: string
  wi_enc :: string
  wi_ct :: string

record removed_recipient =
  rr_recipient_handle :: string
  rr_kid :: string
  rr_removed_at :: string

section \<open>Public keys\<close>

record jwk_okp_public_key =
  jwk_kty :: string
  jwk_crv :: string
  jwk_x :: string

record identity_keys =
  ik_kem :: jwk_okp_public_key
  ik_sig :: jwk_okp_public_key

record attestation =
  att_method :: string
  att_pub :: string
  att_sig :: string

record github_account =
  gh_id :: "64 word"
  gh_login :: string

record binding_claims =
  bc_github_account :: "github_account option"

record public_key_protected =
  pk_format :: string
  pk_subject_handle :: string
  pk_kid :: string
  pk_keys :: identity_keys
  pk_binding_claims :: "binding_claims option"
  pk_attestation :: attestation
  pk_expires_at :: string
  pk_created_at :: "string option"

record public_key =
  pk_protected :: public_key_protected
  pk_signature :: string

record public_key_parts =
  pp_subject_handle :: string
  pp_kid :: string
  pp_keys :: identity_keys
  pp_binding_claims :: "binding_claims option"
  pp_attestation :: attestation
  pp_expires_at :: string
  pp_created_at :: "string option"
  pp_signature :: string

definition PublicKey_new :: "public_key_parts \<Rightarrow> public_key" where
  "PublicKey_new parts =
     \<lparr>pk_protected =
        \<lparr>pk_format = PUBLIC_KEY_V1, pk_subject_handle = pp_subject_handle parts,
         pk_kid = pp_kid parts, pk_keys = pp_keys parts,
         pk_binding_claims = pp_binding_claims parts, pk_attestation = pp_attestation parts,
         pk_expires_at = pp_expires_at parts, pk_created_at = pp_created_at parts\<rparr>,
      pk_signature = pp_signature parts\<rparr>"

section \<open>Private keys\<close>

datatype private_key_algorithm =
  SshSig (alg_fpr: string) (alg_ikm_salt: string) (alg_hkdf_salt: string) (alg_aead: string)
  | Argon2id (alg_ikm_salt: string) (alg_hkdf_salt: string) (alg_aead: string)

record private_key_protected =
  prp_format :: string
  prp_subject_handle :: string
  prp_kid :: string
  prp_alg :: private_key_algorithm
  prp_created_at :: string
  prp_expires_at :: string

record private_key_enc_data =
  ped_nonce :: string
  ped_ct :: string

record private_key =
  prk_protected :: private_key_protected
  prk_encrypted :: private_key_enc_data

record jwk_okp_private_key =
  jpk_kty :: string
  jpk_crv :: string
  jpk_x :: string
  jpk_d :: string

record identity_keys_private =
  ikp_kem :: jwk_okp_private_key
  ikp_sig :: jwk_okp_private_key

record private_key_plaintext =
  pkp_keys :: identity_keys_private

record decryption_proof =
  dp_member_handle :: string
  dp_kid :: string
  dp_ssh_fpr :: "string option"

record verified_private_key =
  vpk_document :: private_key_plaintext
  vpk_proof :: decryption_proof

section \<open>Key-possession proofs\<close>

definition KEY_POSSESSION_HMAC_SHA256 :: string where
  "KEY_POSSESSION_HMAC_SHA256 = ''hmac-sha256''"
definition KEY_POSSESSION_HMAC_SHA256_TAG_LEN :: nat where
  "KEY_POSSESSION_HMAC_SHA256_TAG_LEN = 32"

datatype kpp_algorithm = HmacSha256

datatype kpp_error =
  KppInvalidFormat | KppUnsupportedAlgorithm string | KppInvalidBase64
  | KppInvalidTagLength nat nat

record key_possession_proof =
  kpp_wire :: string
  kpp_algorithm :: kpp_algorithm
  kpp_tag :: "u8 list"

definition kpp_algorithm_parse :: "string \<Rightarrow> kpp_error + kpp_algorithm" where
  "kpp_algorithm_parse prefix =
     (if prefix = KEY_POSSESSION_HMAC_SHA256 then Inr HmacSha256
      else Inl (KppUnsupportedAlgorithm prefix))"

fun as_wire_prefix :: "kpp_algorithm \<Rightarrow> string" where
  "as_wire_prefix HmacSha256 = KEY_POSSESSION_HMAC_SHA256"

fun tag_len :: "kpp_algorithm \<Rightarrow> nat" where
  "tag_len HmacSha256 = KEY_POSSESSION_HMAC_SHA256_TAG_LEN"

definition validate_tag_len :: "kpp_algorithm \<Rightarrow> nat \<Rightarrow> kpp_error + unit" where
  "validate_tag_len algorithm actual =
     (if actual = tag_len algorithm then Inr ()
      else Inl (KppInvalidTagLength (tag_len algorithm) actual))"

definition KeyPossessionProof_try_new ::
  "kpp_algorithm \<Rightarrow> u8 list \<Rightarrow> kpp_error + key_possession_proof" where
  "KeyPossessionProof_try_new algorithm tag =
     (case validate_tag_len algorithm (length tag) of
        Inl e \<Rightarrow> Inl e
      | Inr _ \<Rightarrow>
          Inr \<lparr>kpp_wire = as_wire_prefix algorithm @ '':'' @ encode_base64url_nopad tag,
               kpp_algorithm = algorithm, kpp_tag = tag\<rparr>)"

definition KeyPossessionProof_parse :: "string \<Rightarrow> kpp_error + key_possession_proof" where
  "KeyPossessionProof_parse wire =
     (case split_once CHR '':'' wire of
        None \<Rightarrow> Inl KppInvalidFormat
      | Some (prefix, tag_b64) \<Rightarrow>
          if prefix = [] \<or> tag_b64 = [] \<or> CHR '':'' \<in> set tag_b64 then Inl KppInvalidFormat
          else (case kpp_algorithm_parse prefix of
            Inl e \<Rightarrow> Inl e
          | Inr algorithm \<Rightarrow> (case decode_base64url_nopad tag_b64 of
              Inl _ \<Rightarrow> Inl KppInvalidBase64
            | Inr tag \<Rightarrow> (case validate_tag_len algorithm (length tag) of
                Inl e \<Rightarrow> Inl e
              | Inr _ \<Rightarrow>
                  Inr \<lparr>kpp_wire = wire, kpp_algorithm = algorithm, kpp_tag = tag\<rparr>))))"

section \<open>Signatures and documents\<close>

record artifact_signature =
  sig_alg :: string
  sig_kid :: string
  sig_signer_pub :: public_key
  sig_mac :: key_possession_proof
  sig_sig :: string

datatype kv_enc_version = KvEncVersion (as_u32: "32 word")

definition KvEncVersion_V1 :: kv_enc_version where "KvEncVersion_V1 = KvEncVersion 1"

definition KvEncVersion_parse :: "string \<Rightarrow> kv_enc_version option" where
  "KvEncVersion_parse text = (if text = ''1'' then Some KvEncVersion_V1 else None)"

datatype kv_enc_line =
  Header kv_enc_version
  | Head string
  | Wrap string
  | KV string string
  | Sig string
  | Empty

record kv_entry_value =
  ev_nonce :: string
  ev_ct :: string
  ev_disclosed :: bool

record kv_header =
  kvh_sid :: uuid
  kvh_aead :: string
  kvh_created_at :: string
  kvh_updated_at :: string

record kv_wrap =
  kw_wrap :: "wrap_item list"
  kw_removed_recipients :: "removed_recipient list option"

record kv_enc_entry =
  ke_key :: string
  ke_token :: string
  ke_value :: kv_entry_value

record kv_enc_document =
  kvd_lines :: "kv_enc_line list"
  kvd_head :: kv_header
  kvd_wrap :: kv_wrap
  kvd_wrap_token :: string
  kvd_entries :: "kv_enc_entry list"
  kvd_signature :: artifact_signature

definition kvd_entry :: "kv_enc_document \<Rightarrow> string \<Rightarrow> kv_enc_entry option" where
  "kvd_entry doc key = find (\<lambda>entry. ke_key entry = key) (kvd_entries doc)"

record file_payload_header =
  fph_format :: string
  fph_sid :: uuid
  fph_aead :: string

record file_payload_ciphertext =
  fpc_nonce :: string
  fpc_ct :: string

record file_payload =
  fp_protected :: file_payload_header
  fp_encrypted :: file_payload_ciphertext

record file_enc_protected =
  fe_format :: string
  fe_sid :: uuid
  fe_wrap :: "wrap_item list"
  fe_removed_recipients :: "removed_recipient list option"
  fe_payload :: file_payload
  fe_created_at :: string
  fe_updated_at :: string

record file_enc_document =
  fed_protected :: file_enc_protected
  fed_signature :: artifact_signature

definition fe_recipients :: "file_enc_protected \<Rightarrow> string list" where
  "fe_recipients p = map wi_recipient_handle (fe_wrap p)"

datatype verifying_key_source = SignerPubEmbedded

text \<open>
  A warning about the expiry of a key, before it is rendered: the label it opens with, the days
  left, the date.
\<close>

datatype key_warning =
  KeyExpiring string int string
  | KeyExpiredAllowed string string
  | KeyExpired string string

record signature_verification_proof =
  svp_member_handle :: string
  svp_kid :: string
  svp_signer_public_key :: "public_key option"
  svp_verifying_key_source :: verifying_key_source
  svp_warnings :: "key_warning list"

record 'd verified_document =
  vd_document :: 'd
  vd_proof :: signature_verification_proof

instantiation kv_enc_version :: linorder
begin

definition less_eq_kv_enc_version :: "kv_enc_version \<Rightarrow> kv_enc_version \<Rightarrow> bool" where
  "less_eq_kv_enc_version a b \<longleftrightarrow> as_u32 a \<le> as_u32 b"

definition less_kv_enc_version :: "kv_enc_version \<Rightarrow> kv_enc_version \<Rightarrow> bool" where
  "less_kv_enc_version a b \<longleftrightarrow> as_u32 a < as_u32 b"

instance
  by standard (auto simp: less_eq_kv_enc_version_def less_kv_enc_version_def kv_enc_version.expand)

end

section \<open>The proof string\<close>

definition kpp_valid :: "key_possession_proof \<Rightarrow> bool" where
  "kpp_valid p \<longleftrightarrow> KeyPossessionProof_try_new (kpp_algorithm p) (kpp_tag p) = Inr p"

lemma hmac_prefix: "CHR '':'' \<notin> set KEY_POSSESSION_HMAC_SHA256" "KEY_POSSESSION_HMAC_SHA256 \<noteq> []"
  by (simp_all add: KEY_POSSESSION_HMAC_SHA256_def)

lemma encode_url_no_colon: "CHR '':'' \<notin> set (encode_base64url_nopad bs)"
proof
  assume "CHR '':'' \<in> set (encode_base64url_nopad bs)"
  then have "CHR '':'' \<in> set (alphabet_of UrlSafe)"
    using fill_encoded_chars [of UrlSafe bs] by (auto simp: encode_base64url_nopad_def alphabet_of_def)
  then show False by (auto dest: alphabet_of_classes(1) simp: ascii_class_defs)
qed

lemma url_fits_32: "length bs = 32 \<Longrightarrow> url_fits MAX_BASE64_CIPHERTEXT_LENGTH bs"
  by (simp add: url_fits_def compute_encoded_len_def limit_defs Let_def)

lemma kpp_parse_try_new:
  assumes "KeyPossessionProof_try_new a tag = Inr p"
  shows "KeyPossessionProof_parse (kpp_wire p) = Inr p"
proof (cases a)
  case HmacSha256
  with assms have len: "length tag = 32"
    and p: "p = \<lparr>kpp_wire = KEY_POSSESSION_HMAC_SHA256 @ '':'' @ encode_base64url_nopad tag,
                kpp_algorithm = HmacSha256, kpp_tag = tag\<rparr>"
    by (auto simp: KeyPossessionProof_try_new_def validate_tag_len_def
        KEY_POSSESSION_HMAC_SHA256_TAG_LEN_def split: if_splits)
  have ne: "encode_base64url_nopad tag \<noteq> []"
  proof
    assume "encode_base64url_nopad tag = []"
    then have "compute_encoded_len 32 = 0" using encode_url_length [of tag] len by simp
    then show False by (simp add: compute_encoded_len_def)
  qed
  have dec: "decode_base64url_nopad (encode_base64url_nopad tag) = Inr tag"
    using len by (intro url.dec_enc url_fits_32)
  show ?thesis
    using len ne by (simp add: p KeyPossessionProof_parse_def hmac_prefix encode_url_no_colon dec
        kpp_algorithm_parse_def validate_tag_len_def KEY_POSSESSION_HMAC_SHA256_TAG_LEN_def)
qed

lemma kpp_parse_valid:
  assumes "KeyPossessionProof_parse wire = Inr p"
  shows "kpp_valid p \<and> kpp_wire p = wire"
proof -
  from assms obtain prefix tag_b64 tag where
    s: "split_once CHR '':'' wire = Some (prefix, tag_b64)" "prefix = KEY_POSSESSION_HMAC_SHA256"
    and t: "decode_base64url_nopad tag_b64 = Inr tag" "validate_tag_len HmacSha256 (length tag) = Inr ()"
    and p: "p = \<lparr>kpp_wire = wire, kpp_algorithm = HmacSha256, kpp_tag = tag\<rparr>"
    by (auto simp: KeyPossessionProof_parse_def kpp_algorithm_parse_def
        split: option.splits if_splits sum.splits)
  from t(1) have "tag_b64 = encode_base64url_nopad tag" by (simp add: url.dec_iff)
  with s have "wire = KEY_POSSESSION_HMAC_SHA256 @ '':'' @ encode_base64url_nopad tag"
    by (simp add: split_once_Some)
  with p t(2) show ?thesis by (simp add: kpp_valid_def KeyPossessionProof_try_new_def)
qed

lemma kpp_parse_iff: "KeyPossessionProof_parse wire = Inr p \<longleftrightarrow> kpp_valid p \<and> wire = kpp_wire p"
  using kpp_parse_valid kpp_parse_try_new unfolding kpp_valid_def by blast

end
