(* ===== verification/Json_Limits.thy ===== *)
theory Json_Limits
  imports Validation
begin

text \<open>
  The pre-parse scan of \<open>support/json_limits.rs\<close> and the number rules of \<open>format/number.rs\<close>. The
  scan is a machine over the bytes of a JSON text; the lemmas show that it decides the nesting depth
  and element count of the bytes outside string literals, defined without the machine.
\<close>

section \<open>The scan\<close>

record json_scan_state =
  js_depth :: nat
  js_max_depth :: nat
  js_elements :: nat
  js_in_string :: bool
  js_escape :: bool

definition json_scan_init :: json_scan_state where
  "json_scan_init =
     \<lparr>js_depth = 0, js_max_depth = 0, js_elements = 0, js_in_string = False, js_escape = False\<rparr>"

definition consume_in_string :: "char \<Rightarrow> json_scan_state \<Rightarrow> json_scan_state" where
  "consume_in_string byte s =
     (if byte = BACKSLASH then s\<lparr>js_escape := True\<rparr>
      else if byte = DQUOTE then s\<lparr>js_in_string := False\<rparr>
      else s)"

definition open_container :: "json_scan_state \<Rightarrow> json_scan_state res" where
  "open_container s =
     (let depth = js_depth s + 1;
          max_depth = (if depth > js_max_depth s then depth else js_max_depth s);
          s' = s\<lparr>js_depth := depth, js_max_depth := max_depth,
                 js_elements := js_elements s + 1\<rparr> in
      if max_depth > MAX_JSON_DEPTH then Inl (plain_error Parse) else Inr s')"

definition enforce_element_limit :: "json_scan_state \<Rightarrow> json_scan_state res" where
  "enforce_element_limit s =
     (if js_elements s > MAX_JSON_ELEMENTS then Inl (plain_error Parse) else Inr s)"

definition json_count :: "json_scan_state \<Rightarrow> char \<Rightarrow> json_scan_state res" where
  "json_count s byte =
     (if byte = DQUOTE then Inr (s\<lparr>js_in_string := True\<rparr>)
      else if byte = CHR ''{'' \<or> byte = CHR ''['' then open_container s
      else if byte = CHR ''}'' \<or> byte = CHR '']'' then Inr (s\<lparr>js_depth := js_depth s - 1\<rparr>)
      else if byte = CHR '':'' \<or> byte = CHR '','' then Inr (s\<lparr>js_elements := js_elements s + 1\<rparr>)
      else Inr s)"

definition json_consume :: "json_scan_state \<Rightarrow> char \<Rightarrow> json_scan_state res" where
  "json_consume s byte =
     (if js_escape s then Inr (s\<lparr>js_escape := False\<rparr>)
      else if js_in_string s then Inr (consume_in_string byte s)
      else res_bind (json_count s byte) enforce_element_limit)"

fun json_scan :: "json_scan_state \<Rightarrow> string \<Rightarrow> json_scan_state res" where
  "json_scan s [] = Inr s"
| "json_scan s (byte # input) = res_bind (json_consume s byte) (\<lambda>s'. json_scan s' input)"

definition validate_json_limits :: "string \<Rightarrow> unit res" where
  "validate_json_limits input = res_map (\<lambda>_. ()) (json_scan json_scan_init input)"

lemma if_mem: "a \<in> S \<Longrightarrow> b \<in> S \<Longrightarrow> (if c then a else b) \<in> S"
  by simp

section \<open>Numbers\<close>

definition MAX_SAFE_INTEGER :: int where "MAX_SAFE_INTEGER = 9007199254740991"

definition validate_integer :: "int \<Rightarrow> bool" where
  "validate_integer v \<longleftrightarrow> - MAX_SAFE_INTEGER \<le> v \<and> v \<le> MAX_SAFE_INTEGER"

section \<open>What the scan accepts\<close>

text \<open>
  The reference side does not mention the scanner: the bytes of a text outside its string
  literals, the brackets and the elements among them, and the limits on both.
\<close>

fun outside_strings :: "string \<Rightarrow> string" and skip_literal :: "string \<Rightarrow> string" where
  "outside_strings [] = []"
| "outside_strings (c # s) = (if c = DQUOTE then skip_literal s else c # outside_strings s)"
| "skip_literal [] = []"
| "skip_literal (c # s) =
     (if c = BACKSLASH then (case s of [] \<Rightarrow> [] | _ # s' \<Rightarrow> skip_literal s')
      else if c = DQUOTE then outside_strings s
      else skip_literal s)"

definition opens_container :: "char \<Rightarrow> bool" where
  "opens_container c \<longleftrightarrow> c = CHR ''{'' \<or> c = CHR ''[''"

definition closes_container :: "char \<Rightarrow> bool" where
  "closes_container c \<longleftrightarrow> c = CHR ''}'' \<or> c = CHR '']''"

definition separates_elements :: "char \<Rightarrow> bool" where
  "separates_elements c \<longleftrightarrow> c = CHR '':'' \<or> c = CHR '',''"

definition count_opened :: "string \<Rightarrow> nat" where
  "count_opened u = length (filter (\<lambda>c. opens_container c) u)"

definition count_closed :: "string \<Rightarrow> nat" where
  "count_closed u = length (filter (\<lambda>c. closes_container c) u)"

definition count_elements :: "string \<Rightarrow> nat" where
  "count_elements u = length (filter (\<lambda>c. opens_container c \<or> separates_elements c) u)"

lemmas byte_class_defs = opens_container_def closes_container_def separates_elements_def

lemma byte_classes_disjoint:
  "opens_container c \<Longrightarrow> \<not> closes_container c" "opens_container c \<Longrightarrow> \<not> separates_elements c"
  "closes_container c \<Longrightarrow> \<not> separates_elements c"
  by (auto simp: byte_class_defs)

text \<open>No stretch of the text opens more than \<open>m\<close> containers beyond those it closes.\<close>

definition nested_within :: "nat \<Rightarrow> string \<Rightarrow> bool" where
  "nested_within m u \<longleftrightarrow> (\<forall>a q b. u = a @ q @ b \<longrightarrow> count_opened q \<le> count_closed q + m)"

definition within_json_limits :: "string \<Rightarrow> bool" where
  "within_json_limits u \<longleftrightarrow> nested_within MAX_JSON_DEPTH u \<and> count_elements u \<le> MAX_JSON_ELEMENTS"

lemma count_Nil [simp]: "count_opened [] = 0" "count_closed [] = 0" "count_elements [] = 0"
  by (simp_all add: count_opened_def count_closed_def count_elements_def)

lemma count_Cons:
  "count_opened (c # u) = (if opens_container c then 1 else 0) + count_opened u"
  "count_closed (c # u) = (if closes_container c then 1 else 0) + count_closed u"
  "count_elements (c # u) = (if opens_container c \<or> separates_elements c then 1 else 0) + count_elements u"
  by (simp_all add: count_opened_def count_closed_def count_elements_def)

subsection \<open>Stretches of a text\<close>

definition depth_step :: "char \<Rightarrow> int" where
  "depth_step c = (if opens_container c then 1 else if closes_container c then - 1 else 0)"

definition bracket_level :: "string \<Rightarrow> int" where
  "bracket_level p = int (count_opened p) - int (count_closed p)"

lemma level_simps [simp]: "bracket_level [] = 0" "bracket_level (c # p) = depth_step c + bracket_level p"
  by (auto simp: bracket_level_def depth_step_def count_Cons byte_classes_disjoint)

text \<open>\<open>stays_below m d u\<close>: a text that starts at level \<open>d\<close> stays at most \<open>m\<close> deep, counting below zero.\<close>

definition stays_below :: "nat \<Rightarrow> int \<Rightarrow> string \<Rightarrow> bool" where
  "stays_below m d u \<longleftrightarrow> (\<forall>p b. u = p @ b \<longrightarrow> d + bracket_level p \<le> int m)"

lemma all_prefix_Cons:
  "(\<forall>p b. c # u = p @ b \<longrightarrow> P p) \<longleftrightarrow> P [] \<and> (\<forall>p b. u = p @ b \<longrightarrow> P (c # p))"
  by (auto simp: Cons_eq_append_conv)

lemma below_Nil [simp]: "stays_below m d [] \<longleftrightarrow> d \<le> int m"
  by (auto simp: stays_below_def)

lemma below_Cons: "stays_below m d (c # u) \<longleftrightarrow> d \<le> int m \<and> stays_below m (d + depth_step c) u"
  unfolding stays_below_def by (subst all_prefix_Cons) (simp add: add.assoc)

lemma below_mono: "stays_below m e u \<Longrightarrow> d \<le> e \<Longrightarrow> stays_below m d u"
  by (fastforce simp: stays_below_def)

lemma below_start: "stays_below m d u \<Longrightarrow> d \<le> int m"
  by (cases u) (simp_all add: below_Cons)

lemma nested_within_iff: "nested_within m u \<longleftrightarrow> (\<forall>a v. u = a @ v \<longrightarrow> stays_below m 0 v)"
proof -
  have level_le: "count_opened q \<le> count_closed q + m \<longleftrightarrow> 0 + bracket_level q \<le> int m" for q
    by (auto simp: bracket_level_def)
  show ?thesis unfolding nested_within_def stays_below_def level_le by blast
qed

lemma nested_within_Nil [simp]: "nested_within m []"
  by (simp add: nested_within_iff)

lemma nested_within_Cons: "nested_within m (c # u) \<longleftrightarrow> stays_below m 0 (c # u) \<and> nested_within m u"
  by (simp add: nested_within_iff Cons_eq_append_conv) blast

lemma nested_within_below: "nested_within m u \<Longrightarrow> stays_below m 0 u"
  by (auto simp: nested_within_iff)

subsection \<open>The scan as a run over the bytes outside strings\<close>

fun limits_run :: "nat \<Rightarrow> nat \<Rightarrow> string \<Rightarrow> bool" where
  "limits_run d n [] \<longleftrightarrow> True"
| "limits_run d n (c # u) \<longleftrightarrow>
     (if opens_container c then d < MAX_JSON_DEPTH \<and> n < MAX_JSON_ELEMENTS \<and> limits_run (d + 1) (n + 1) u
      else if closes_container c then limits_run (d - 1) n u
      else if separates_elements c then n < MAX_JSON_ELEMENTS \<and> limits_run d (n + 1) u
      else limits_run d n u)"

lemma below_depth_step:
  assumes "d \<le> m" and "nested_within m u"
  shows "stays_below m (int d + depth_step c) u \<longleftrightarrow>
     (if opens_container c then d < m \<and> stays_below m (int (d + 1)) u
      else if closes_container c then stays_below m (int (d - 1)) u else stays_below m (int d) u)"
proof -
  have open_bound: "stays_below m (1 + int d) u \<Longrightarrow> d < m" using below_start by fastforce
  have zero: "stays_below m 0 u" "stays_below m (- 1) u"
    using nested_within_below [OF assms(2)] below_mono [of m 0 u "- 1"] by simp_all
  consider (opened) "opens_container c" | (closed) "\<not> opens_container c" "closes_container c"
    | (plain) "\<not> opens_container c" "\<not> closes_container c" by blast
  then show ?thesis
  proof cases
    case opened
    with open_bound show ?thesis by (simp add: depth_step_def add.commute) blast
  next
    case closed
    with zero show ?thesis by (cases d) (simp_all add: depth_step_def)
  next
    case plain
    then show ?thesis by (simp add: depth_step_def)
  qed
qed

lemma below_zero_Cons:
  assumes "d \<le> m" and "nested_within m u" and "stays_below m (int d + depth_step c) u"
  shows "stays_below m 0 (c # u)"
  using below_mono [OF assms(3)] by (simp add: below_Cons)

lemma nested_below_Cons:
  assumes "d \<le> m"
  shows "stays_below m (int d) (c # u) \<and> nested_within m (c # u) \<longleftrightarrow>
    stays_below m (int d + depth_step c) u \<and> nested_within m u"
  using assms below_zero_Cons [OF assms, of u c] by (auto simp: nested_within_Cons below_Cons)

lemma limits_run_iff:
  "d \<le> MAX_JSON_DEPTH \<Longrightarrow> n \<le> MAX_JSON_ELEMENTS \<Longrightarrow>
   limits_run d n u \<longleftrightarrow> (stays_below MAX_JSON_DEPTH (int d) u \<and> nested_within MAX_JSON_DEPTH u) \<and>
     n + count_elements u \<le> MAX_JSON_ELEMENTS"
proof (induction u arbitrary: d n)
  case (Cons c u)
  note split_byte = nested_below_Cons [OF Cons.prems(1), of c u]
  consider (opened) "opens_container c" | (closed) "\<not> opens_container c" "closes_container c"
    | (separates) "\<not> opens_container c" "\<not> closes_container c" "separates_elements c"
    | (plain) "\<not> opens_container c" "\<not> closes_container c" "\<not> separates_elements c" by blast
  then show ?case
  proof cases
    case opened
    with Cons.prems have "limits_run d n (c # u) \<longleftrightarrow> d < MAX_JSON_DEPTH \<and>
        (stays_below MAX_JSON_DEPTH (int (d + 1)) u \<and> nested_within MAX_JSON_DEPTH u) \<and>
        n + 1 + count_elements u \<le> MAX_JSON_ELEMENTS"
      using Cons.IH [of "d + 1" "n + 1"] by auto
    with opened below_depth_step [OF Cons.prems(1), of u c] show ?thesis
      unfolding split_byte by (auto simp: count_Cons)
  next
    case closed
    with Cons.prems have "limits_run d n (c # u) \<longleftrightarrow>
        (stays_below MAX_JSON_DEPTH (int (d - 1)) u \<and> nested_within MAX_JSON_DEPTH u) \<and>
        n + count_elements u \<le> MAX_JSON_ELEMENTS"
      using Cons.IH [of "d - 1" n] by simp
    with closed below_depth_step [OF Cons.prems(1), of u c] show ?thesis
      unfolding split_byte by (auto simp: count_Cons byte_classes_disjoint)
  next
    case separates
    with Cons.prems have "limits_run d n (c # u) \<longleftrightarrow>
        (stays_below MAX_JSON_DEPTH (int d) u \<and> nested_within MAX_JSON_DEPTH u) \<and>
        n + 1 + count_elements u \<le> MAX_JSON_ELEMENTS"
      using Cons.IH [of d "n + 1"] by auto
    with separates below_depth_step [OF Cons.prems(1), of u c] show ?thesis
      unfolding split_byte by (auto simp: count_Cons)
  next
    case plain
    with Cons.prems have "limits_run d n (c # u) \<longleftrightarrow>
        (stays_below MAX_JSON_DEPTH (int d) u \<and> nested_within MAX_JSON_DEPTH u) \<and>
        n + count_elements u \<le> MAX_JSON_ELEMENTS"
      using Cons.IH [of d n] by simp
    with plain below_depth_step [OF Cons.prems(1), of u c] show ?thesis
      unfolding split_byte by (auto simp: count_Cons)
  qed
qed simp

lemma json_count_classes:
  "c \<noteq> DQUOTE \<Longrightarrow> json_count s c =
     (if opens_container c then open_container s
      else if closes_container c then Inr (s\<lparr>js_depth := js_depth s - 1\<rparr>)
      else if separates_elements c then Inr (s\<lparr>js_elements := js_elements s + 1\<rparr>)
      else Inr s)"
  by (simp add: json_count_def byte_class_defs)

lemma json_consume_outside:
  assumes "\<not> js_escape s" "\<not> js_in_string s" "c \<noteq> DQUOTE" "js_max_depth s \<le> MAX_JSON_DEPTH"
    "js_elements s \<le> MAX_JSON_ELEMENTS"
  shows "json_consume s c =
    (if opens_container c then
       (if js_depth s < MAX_JSON_DEPTH \<and> js_elements s < MAX_JSON_ELEMENTS
        then Inr (s\<lparr>js_depth := js_depth s + 1, js_max_depth := max (js_max_depth s) (js_depth s + 1),
                    js_elements := js_elements s + 1\<rparr>)
        else Inl (plain_error Parse))
     else if closes_container c then Inr (s\<lparr>js_depth := js_depth s - 1\<rparr>)
     else if separates_elements c then
       (if js_elements s < MAX_JSON_ELEMENTS then Inr (s\<lparr>js_elements := js_elements s + 1\<rparr>)
        else Inl (plain_error Parse))
     else Inr s)"
  using assms
  by (auto simp: json_consume_def json_count_classes open_container_def enforce_element_limit_def Let_def max_def)

definition scan_ready :: "json_scan_state \<Rightarrow> bool" where
  "scan_ready s \<longleftrightarrow> \<not> js_escape s \<and> js_max_depth s \<le> MAX_JSON_DEPTH \<and> js_elements s \<le> MAX_JSON_ELEMENTS"

definition scan_verdict :: "json_scan_state \<Rightarrow> string \<Rightarrow> unit res" where
  "scan_verdict s input = res_map (\<lambda>_. ()) (json_scan s input)"

lemma scan_verdict_simps [simp]:
  "scan_verdict s [] = Inr ()"
  "scan_verdict s (c # input) = res_bind (json_consume s c) (\<lambda>s'. scan_verdict s' input)"
  by (simp_all add: scan_verdict_def) (cases "json_consume s c", simp_all)

definition run_verdict :: "json_scan_state \<Rightarrow> string \<Rightarrow> unit res" where
  "run_verdict s u = (if limits_run (js_depth s) (js_elements s) u then Inr () else Inl (plain_error Parse))"

lemma run_verdict_Nil [simp]: "run_verdict s [] = Inr ()"
  by (simp add: run_verdict_def)

lemma run_verdict_Cons:
  assumes "\<not> js_in_string s" "c \<noteq> DQUOTE" "scan_ready s"
  shows "run_verdict s (c # u) = res_bind (json_consume s c) (\<lambda>s'. run_verdict s' u)"
  using assms by (simp add: scan_ready_def json_consume_outside run_verdict_def)

lemma json_consume_ready:
  assumes "\<not> js_in_string s" "c \<noteq> DQUOTE" "scan_ready s" "json_consume s c = Inr s'"
  shows "scan_ready s' \<and> \<not> js_in_string s'"
  using assms by (auto simp: scan_ready_def json_consume_outside split: if_splits)

lemma json_scan_run:
  "scan_ready s \<Longrightarrow> \<not> js_in_string s \<Longrightarrow> scan_verdict s input = run_verdict s (outside_strings input)"
  "scan_ready s' \<Longrightarrow> js_in_string s' \<Longrightarrow> scan_verdict s' input' = run_verdict s' (skip_literal input')"
proof (induction input and input' arbitrary: s and s' rule: outside_strings_skip_literal.induct)
  case (2 c input)
  show ?case
  proof (cases "c = DQUOTE")
    case True
    with 2 show ?thesis
      by (simp add: json_consume_def json_count_def enforce_element_limit_def scan_ready_def run_verdict_def)
  next
    case False
    have "scan_verdict t input = run_verdict t (outside_strings input)" if "json_consume s c = Inr t" for t
      using json_consume_ready [OF "2.prems"(2) False "2.prems"(1) that] False by (intro "2.IH"(2)) simp_all
    with False run_verdict_Cons [OF "2.prems"(2) False "2.prems"(1)] show ?thesis
      by (cases "json_consume s c") simp_all
  qed
next
  case (4 c input)
  consider (escape) "c = BACKSLASH" | (close) "c = DQUOTE" "c \<noteq> BACKSLASH"
    | (body) "c \<noteq> BACKSLASH" "c \<noteq> DQUOTE" by blast
  then show ?case
  proof cases
    case escape
    have upd: "s'\<lparr>js_escape := False\<rparr> = s'" using "4.prems" by (simp add: scan_ready_def)
    show ?thesis
      using escape 4 upd
      by (cases input) (simp_all add: json_consume_def consume_in_string_def scan_ready_def run_verdict_def)
  next
    case close
    with 4 show ?thesis by (simp add: json_consume_def consume_in_string_def scan_ready_def run_verdict_def)
  next
    case body
    with 4 show ?thesis by (simp add: json_consume_def consume_in_string_def scan_ready_def)
  qed
qed simp_all

text \<open>
  C20. The scan decides exactly the limits of the text: it accepts a JSON text when, among the
  bytes outside its string literals (whatever brackets, commas or escapes those hold), no stretch
  opens more than 32 containers beyond those it closes and at most 13000 bytes start or separate
  elements, and it reports a parse error for every other text.
\<close>

theorem json_limits_decided_outside_strings:
  "validate_json_limits input =
     (if within_json_limits (outside_strings input) then Inr () else Inl (plain_error Parse))"
proof -
  let ?u = "outside_strings input"
  have "scan_ready json_scan_init" "\<not> js_in_string json_scan_init"
    by (simp_all add: scan_ready_def json_scan_init_def)
  from json_scan_run(1) [OF this] have "validate_json_limits input = run_verdict json_scan_init ?u"
    by (simp add: validate_json_limits_def scan_verdict_def)
  moreover have "limits_run 0 0 ?u \<longleftrightarrow> within_json_limits ?u"
    using limits_run_iff [of 0 0 ?u] nested_within_below by (auto simp: within_json_limits_def)
  ultimately show ?thesis by (simp add: run_verdict_def json_scan_init_def)
qed

end
