(* ===== verification/Json_Documents.thy ===== *)
theory Json_Documents
  imports Wire_Model Json_Limits
begin

text \<open>
  From text to document: \<open>format/schema/document.rs\<close>, \<open>format/jcs.rs\<close> and the wrap rules of
  \<open>format/wrap.rs\<close>. The JSON tokenizer, the JSON Schema engine, the RFC 8785 printer and the
  \<open>uuid\<close> crate are third-party code and appear as the fields of the record \<open>json_lib\<close>. The
  visitor that refuses duplicate member names and unsafe numbers, and the field rules the
  \<open>serde\<close> attributes of the structs state (names, optional fields, unknown fields refused), are
  modelled. The lemmas show that a value survives encoding and parsing.
\<close>

section \<open>JSON values\<close>

text \<open>What the tokenizer reports, and the value the crate builds from it.\<close>

datatype raw_json =
  RNull | RBool bool | RI64 "64 word" | RU64 "64 word" | RFloat | RStr string
  | RArr "raw_json list" | RObj "(string \<times> raw_json) list"

datatype json =
  JNull | JBool bool | JNum int | JStr string | JArr "json list" | JObj "(string \<times> json) list"

datatype schema_target =
  SchemaPublicKey | SchemaPrivateKey | SchemaFileEnc | SchemaKvHead | SchemaKvWrap
  | SchemaKvEntry | SchemaArtifactSignature | SchemaLocalTrust

record json_lib =
  jl_tokenize :: "u8 list \<Rightarrow> raw_json option"
  jl_schema :: "schema_target \<Rightarrow> json \<Rightarrow> unit res"
  jl_jcs :: "json \<Rightarrow> u8 list"
  jl_uuid_show :: "uuid \<Rightarrow> string"
  jl_uuid_parse :: "string \<Rightarrow> uuid option"

fun unique_json :: "raw_json \<Rightarrow> json res"
and visit_seq :: "raw_json list \<Rightarrow> json list res"
and visit_map :: "string list \<Rightarrow> (string \<times> json) list \<Rightarrow> (string \<times> raw_json) list \<Rightarrow>
  (string \<times> json) list res"
where
  "unique_json RNull = Inr JNull"
| "unique_json (RBool b) = Inr (JBool b)"
| "unique_json (RI64 v) =
     (if validate_integer (sint v) then Inr (JNum (sint v)) else Inl (plain_error Parse))"
| "unique_json (RU64 v) =
     (if validate_integer (uint v) then Inr (JNum (uint v)) else Inl (plain_error Parse))"
| "unique_json RFloat = Inl (plain_error Parse)"
| "unique_json (RStr s) = Inr (JStr s)"
| "unique_json (RArr xs) = res_map JArr (visit_seq xs)"
| "unique_json (RObj ms) = res_map JObj (visit_map [] [] ms)"
| "visit_seq [] = Inr []"
| "visit_seq (x # xs) = res_bind (unique_json x) (\<lambda>v. res_map ((#) v) (visit_seq xs))"
| "visit_map names obj [] = Inr obj"
| "visit_map names obj ((key, x) # ms) =
     (if key \<in> set names then Inl (plain_error Parse)
      else res_bind (unique_json x) (\<lambda>v. visit_map (key # names) (btree_insert key v obj) ms))"

text \<open>Well-formed values: safe integers and objects in key order; \<open>raw_of\<close> is their token form.\<close>

fun wf_json :: "json \<Rightarrow> bool" where
  "wf_json (JNum n) \<longleftrightarrow> validate_integer n"
| "wf_json (JArr xs) \<longleftrightarrow> (\<forall>x\<in>set xs. wf_json x)"
| "wf_json (JObj ms) \<longleftrightarrow> btree_wf ms \<and> (\<forall>m\<in>set ms. wf_json (snd m))"
| "wf_json _ \<longleftrightarrow> True"

fun raw_of :: "json \<Rightarrow> raw_json" where
  "raw_of JNull = RNull"
| "raw_of (JBool b) = RBool b"
| "raw_of (JNum n) = (if n < 0 then RI64 (word_of_int n) else RU64 (word_of_int n))"
| "raw_of (JStr s) = RStr s"
| "raw_of (JArr xs) = RArr (map raw_of xs)"
| "raw_of (JObj ms) = RObj (map (\<lambda>(k, v). (k, raw_of v)) ms)"

fun all_integers_safe :: "json \<Rightarrow> bool" where
  "all_integers_safe (JNum n) \<longleftrightarrow> validate_integer n"
| "all_integers_safe (JArr xs) \<longleftrightarrow> (\<forall>x\<in>set xs. all_integers_safe x)"
| "all_integers_safe (JObj ms) \<longleftrightarrow> (\<forall>m\<in>set ms. all_integers_safe (snd m))"
| "all_integers_safe _ \<longleftrightarrow> True"

definition jcs_normalize :: "json_lib \<Rightarrow> json \<Rightarrow> u8 list res" where
  "jcs_normalize J v = (if all_integers_safe v then Inr (jl_jcs J v) else Inl (plain_error Parse))"

lemma visit_seq_map:
  "(\<And>x. x \<in> set xs \<Longrightarrow> unique_json (raw_of x) = Inr x) \<Longrightarrow> visit_seq (map raw_of xs) = Inr xs"
  by (induction xs) auto

lemma visit_map_map:
  "(\<And>m. m \<in> set ms \<Longrightarrow> unique_json (raw_of (snd m)) = Inr (snd m)) \<Longrightarrow>
   btree_wf (obj @ ms) \<Longrightarrow> set names = fst ` set obj \<Longrightarrow>
   visit_map names obj (map (\<lambda>(k, v). (k, raw_of v)) ms) = Inr (obj @ ms)"
proof (induction ms arbitrary: names obj)
  case (Cons m ms)
  obtain k v where m: "m = (k, v)" by (cases m)
  have last: "\<forall>k'\<in>fst ` set obj. k' < k"
    using Cons.prems(2) by (auto simp: m btree_wf_def sorted_wrt_append)
  then have fresh: "k \<notin> set names" using Cons.prems(3) by auto
  have "visit_map (k # names) (obj @ [(k, v)]) (map (\<lambda>(k, v). (k, raw_of v)) ms) =
      Inr ((obj @ [(k, v)]) @ ms)"
    using Cons.prems by (intro Cons.IH) (auto simp: m)
  moreover have "unique_json (raw_of v) = Inr v" using Cons.prems(1) [of m] by (simp add: m)
  ultimately show ?case using fresh last by (simp add: m btree_insert_last)
qed simp

lemma safe_integer_words:
  assumes "validate_integer n"
  shows "n < 0 \<Longrightarrow> sint (word_of_int n :: 64 word) = n"
    and "0 \<le> n \<Longrightarrow> uint (word_of_int n :: 64 word) = n"
proof -
  assume "n < 0"
  with assms have "- (2 ^ 63) \<le> n" "n < 2 ^ 63"
    by (auto simp: validate_integer_def MAX_SAFE_INTEGER_def)
  then show "sint (word_of_int n :: 64 word) = n"
    by (simp add: signed_of_int signed_take_bit_int_eq_self)
next
  assume "0 \<le> n"
  moreover have "n < 2 ^ 64" using assms by (auto simp: validate_integer_def MAX_SAFE_INTEGER_def)
  ultimately show "uint (word_of_int n :: 64 word) = n"
    by (simp add: unsigned_of_int take_bit_int_eq_self)
qed

lemma unique_json_raw_of: "wf_json j \<Longrightarrow> unique_json (raw_of j) = Inr j"
proof (induction j)
  case (JNum n)
  then show ?case by (cases "n < 0") (simp_all add: safe_integer_words)
next
  case (JArr xs)
  then show ?case by (simp add: visit_seq_map)
next
  case (JObj ms)
  have "unique_json (raw_of (snd m)) = Inr (snd m)" if "m \<in> set ms" for m
    using that JObj by (cases m) (auto simp: snds.simps)
  then have "visit_map [] [] (map (\<lambda>(k, v). (k, raw_of v)) ms) = Inr ([] @ ms)"
    using JObj.prems by (intro visit_map_map) auto
  then show ?case by simp
qed simp_all

text \<open>The visitor's objects have no duplicate names, whatever the tokenizer reports.\<close>

lemma unique_json_wf:
  "unique_json r = Inr j \<Longrightarrow> wf_json j"
  "visit_seq rs = Inr js \<Longrightarrow> (\<forall>x\<in>set js. wf_json x)"
  "visit_map names obj ms = Inr obj' \<Longrightarrow> btree_wf obj \<Longrightarrow> (\<forall>m\<in>set obj. wf_json (snd m)) \<Longrightarrow>
     btree_wf obj' \<and> (\<forall>m\<in>set obj'. wf_json (snd m))"
proof (induction r and rs and names obj ms arbitrary: j and js and obj'
    rule: unique_json_visit_seq_visit_map.induct)
  case (12 names obj key x ms)
  have ins: "m \<in> set (btree_insert k v o') \<Longrightarrow> m = (k, v) \<or> m \<in> set o'" for m k v
    and o' :: "(string \<times> json) list"
    by (induction k v o' rule: btree_insert.induct) (auto split: if_splits)
  from "12.prems" obtain v where v: "unique_json x = Inr v" and key: "key \<notin> set names"
    and rest: "visit_map (key # names) (btree_insert key v obj) ms = Inr obj'"
    by (auto split: if_splits)
  have "wf_json v" using "12.IH"(1) [OF key v] .
  with "12.prems" have "\<forall>m\<in>set (btree_insert key v obj). wf_json (snd m)"
    by (auto dest!: ins)
  then show ?case using "12.IH"(2) [OF key rest] "12.prems" by simp
qed (auto split: if_splits)

subsection \<open>What the visitor accepts\<close>

text \<open>
  The reference side has no visitor: a tokenized value is unambiguous when no object in it, at any
  depth, names a member twice and every number in it is an integer a binary64 holds exactly; the
  value it stands for has the members of each object in key order.
\<close>

fun unambiguous :: "raw_json \<Rightarrow> bool" where
  "unambiguous (RI64 v) \<longleftrightarrow> \<bar>sint v\<bar> < 2 ^ 53"
| "unambiguous (RU64 v) \<longleftrightarrow> uint v < 2 ^ 53"
| "unambiguous RFloat \<longleftrightarrow> False"
| "unambiguous (RArr xs) \<longleftrightarrow> (\<forall>x\<in>set xs. unambiguous x)"
| "unambiguous (RObj ms) \<longleftrightarrow> distinct (map fst ms) \<and> (\<forall>m\<in>set ms. unambiguous (snd m))"
| "unambiguous _ \<longleftrightarrow> True"

fun json_value :: "raw_json \<Rightarrow> json" where
  "json_value (RBool b) = JBool b"
| "json_value (RI64 v) = JNum (sint v)"
| "json_value (RU64 v) = JNum (uint v)"
| "json_value (RStr s) = JStr s"
| "json_value (RArr xs) = JArr (map json_value xs)"
| "json_value (RObj ms) = JObj (sort_key fst (map (\<lambda>(k, x). (k, json_value x)) ms))"
| "json_value _ = JNull"

lemma btree_wf_sort_key: "distinct (map fst ms) \<Longrightarrow> btree_wf (sort_key fst ms)"
  by (simp add: btree_wf_def strict_sorted_iff distinct_map distinct_sort)

lemma map_of_sort_key:
  assumes "distinct (map fst ms)"
  shows "map_of (sort_key fst ms) = map_of ms"
  using assms btree_distinct [OF btree_wf_sort_key [OF assms]] by (simp add: map_of_inject_set)

lemma fold_btree_insert:
  assumes "distinct (map fst ms)"
  shows "fold (\<lambda>(k, v). btree_insert k v) ms [] = sort_key fst ms"
proof (rule btree_eqI)
  have "btree_wf (fold (\<lambda>(k, v). btree_insert k v) ms obj) \<and>
      map_of (fold (\<lambda>(k, v). btree_insert k v) ms obj) = map_of obj ++ map_of (rev ms)"
    if "btree_wf obj" for obj :: "('a \<times> 'b) list"
    using that by (induction ms arbitrary: obj) (auto simp: map_add_upd_left fun_eq_iff map_add_def split: option.splits)
  moreover have "map_of (rev ms) = map_of ms"
    using assms by (subst map_of_inject_set) (simp_all add: rev_map [symmetric])
  ultimately show "btree_wf (fold (\<lambda>(k, v). btree_insert k v) ms [])"
    and "map_of (fold (\<lambda>(k, v). btree_insert k v) ms []) = map_of (sort_key fst ms)"
    using assms by (simp_all add: map_of_sort_key)
qed (simp add: assms btree_wf_sort_key)

lemma validate_integer_abs: "validate_integer n \<longleftrightarrow> \<bar>n\<bar> < 2 ^ 53"
  by (auto simp: validate_integer_def MAX_SAFE_INTEGER_def)

lemma validate_integer_iff:
  "validate_integer (sint v) \<longleftrightarrow> \<bar>sint v\<bar> < 2 ^ 53" "validate_integer (uint w) \<longleftrightarrow> uint w < 2 ^ 53"
  unfolding validate_integer_abs by (rule refl) (simp only: abs_of_nonneg [OF uint_ge_0])

lemma visit_accepts:
  "unique_json r = (if unambiguous r then Inr (json_value r) else Inl (plain_error Parse))"
  "visit_seq rs = (if \<forall>x\<in>set rs. unambiguous x then Inr (map json_value rs) else Inl (plain_error Parse))"
  "visit_map names obj ms =
     (if distinct (map fst ms) \<and> fst ` set ms \<inter> set names = {} \<and> (\<forall>m\<in>set ms. unambiguous (snd m))
      then Inr (fold (\<lambda>(k, v). btree_insert k v) (map (\<lambda>(k, x). (k, json_value x)) ms) obj)
      else Inl (plain_error Parse))"
proof (induction r and rs and names obj ms rule: unique_json_visit_seq_visit_map.induct)
  case (12 names obj key x ms)
  then show ?case by (cases "key \<in> set names"; cases "unambiguous x") auto
next
  case (8 ms)
  let ?vs = "map (\<lambda>(k, x). (k, json_value x)) ms"
  have "map fst ?vs = map fst ms" by (induction ms) auto
  then have "distinct (map fst ms) \<Longrightarrow> fold (\<lambda>(k, v). btree_insert k v) ?vs [] = sort_key fst ?vs"
    by (metis fold_btree_insert)
  with 8 show ?case by simp
qed (auto simp: validate_integer_iff)

text \<open>
  C19. Reading a tokenized JSON value never resolves an ambiguity silently: the visitor returns the
  value with every object's members in key order exactly when no object, at any depth, repeats a
  member name and every number is an integer below 2^53 in magnitude; any repeated name, float or
  larger integer, anywhere in the value, is a parse error.
\<close>

theorem json_visitor_refuses_ambiguity:
  "unique_json r = (if unambiguous r then Inr (json_value r) else Inl (plain_error Parse))"
  by (rule visit_accepts(1))

section \<open>Fields of objects\<close>

definition de_str :: "json \<Rightarrow> string option" where
  "de_str j = (case j of JStr s \<Rightarrow> Some s | _ \<Rightarrow> None)"

definition de_bool :: "json \<Rightarrow> bool option" where
  "de_bool j = (case j of JBool b \<Rightarrow> Some b | _ \<Rightarrow> None)"

definition de_u64 :: "json \<Rightarrow> 64 word option" where
  "de_u64 j = (case j of JNum n \<Rightarrow> if 0 \<le> n \<and> n < 2 ^ 64 then Some (word_of_int n) else None
     | _ \<Rightarrow> None)"

definition de_uuid :: "json_lib \<Rightarrow> json \<Rightarrow> uuid option" where
  "de_uuid J j = Option.bind (de_str j) (jl_uuid_parse J)"

fun de_all :: "(json \<Rightarrow> 'a option) \<Rightarrow> json list \<Rightarrow> 'a list option" where
  "de_all d [] = Some []"
| "de_all d (j # js) = Option.bind (d j) (\<lambda>x. map_option ((#) x) (de_all d js))"

definition de_list :: "(json \<Rightarrow> 'a option) \<Rightarrow> json \<Rightarrow> 'a list option" where
  "de_list d j = (case j of JArr js \<Rightarrow> de_all d js | _ \<Rightarrow> None)"

definition get_field :: "(json \<Rightarrow> 'a option) \<Rightarrow> string \<Rightarrow> (string \<times> json) list \<Rightarrow> 'a option" where
  "get_field d k ms = Option.bind (map_of ms k) d"

definition get_opt :: "(json \<Rightarrow> 'a option) \<Rightarrow> string \<Rightarrow> (string \<times> json) list \<Rightarrow> 'a option option" where
  "get_opt d k ms =
     (case map_of ms k of None \<Rightarrow> Some None | Some JNull \<Rightarrow> Some None | Some j \<Rightarrow> map_option Some (d j))"

text \<open>\<open>#[serde(default)]\<close> on a boolean field.\<close>

definition get_flag :: "string \<Rightarrow> (string \<times> json) list \<Rightarrow> bool option" where
  "get_flag k ms = (case map_of ms k of None \<Rightarrow> Some False | Some j \<Rightarrow> de_bool j)"

text \<open>\<open>#[serde(deny_unknown_fields)]\<close>.\<close>

definition with_object :: "string list \<Rightarrow> ((string \<times> json) list \<Rightarrow> 'a option) \<Rightarrow> json \<Rightarrow> 'a option" where
  "with_object ks f j =
     (case j of JObj ms \<Rightarrow> if \<forall>m\<in>set ms. fst m \<in> set ks then f ms else None | _ \<Rightarrow> None)"

definition opt_member :: "string \<Rightarrow> ('a \<Rightarrow> json) \<Rightarrow> 'a option \<Rightarrow> (string \<times> json) list" where
  "opt_member k e x = (case x of None \<Rightarrow> [] | Some y \<Rightarrow> [(k, e y)])"

lemma opt_member_simps [simp]: "opt_member k e None = []" "opt_member k e (Some y) = [(k, e y)]"
  by (simp_all add: opt_member_def)

lemma de_simps [simp]:
  "de_str (JStr s) = Some s" "de_bool (JBool b) = Some b" "de_list d (JArr js) = de_all d js"
  "de_u64 (JNum (uint w)) = Some w"
  using uint_lt2p [of w] by (simp_all add: de_str_def de_bool_def de_list_def de_u64_def)

lemma de_all_map: "(\<And>x. x \<in> set xs \<Longrightarrow> d (e x) = Some x) \<Longrightarrow> de_all d (map e xs) = Some xs"
  by (induction xs) auto

lemma field_simps_json [simp]:
  "get_field d k ((k', j) # ms) = (if k = k' then d j else get_field d k ms)"
  "get_opt d k [] = Some None"
  "get_opt d k ((k', j) # ms) =
     (if k = k' then (if j = JNull then Some None else map_option Some (d j)) else get_opt d k ms)"
  "get_flag k [] = Some False"
  "get_flag k ((k', j) # ms) = (if k = k' then de_bool j else get_flag k ms)"
  "with_object ks f (JObj ms) = (if \<forall>m\<in>set ms. fst m \<in> set ks then f ms else None)"
  by (auto simp: get_field_def get_opt_def get_flag_def with_object_def split: option.splits json.splits)

lemma less_string [simp]:
  "([] :: string) < c # s" "\<not> s < ([] :: string)"
  "c # s < d # t \<longleftrightarrow> c < d \<or> c = d \<and> s < t"
  by simp_all

section \<open>The documents\<close>

definition se_wrap_item :: "wrap_item \<Rightarrow> json" where
  "se_wrap_item w = JObj
     [(''alg'', JStr (wi_alg w)), (''ct'', JStr (wi_ct w)), (''enc'', JStr (wi_enc w)),
      (''kid'', JStr (wi_kid w)), (''rh'', JStr (wi_recipient_handle w))]"

definition de_wrap_item :: "json \<Rightarrow> wrap_item option" where
  "de_wrap_item = with_object [''rh'', ''kid'', ''alg'', ''enc'', ''ct''] (\<lambda>ms.
     Option.bind (get_field de_str ''rh'' ms) (\<lambda>rh.
     Option.bind (get_field de_str ''kid'' ms) (\<lambda>kid.
     Option.bind (get_field de_str ''alg'' ms) (\<lambda>alg.
     Option.bind (get_field de_str ''enc'' ms) (\<lambda>enc.
     Option.bind (get_field de_str ''ct'' ms) (\<lambda>ct.
     Some \<lparr>wi_recipient_handle = rh, wi_kid = kid, wi_alg = alg, wi_enc = enc, wi_ct = ct\<rparr>))))))"

definition se_removed_recipient :: "removed_recipient \<Rightarrow> json" where
  "se_removed_recipient r = JObj
     [(''kid'', JStr (rr_kid r)), (''removed_at'', JStr (rr_removed_at r)),
      (''rh'', JStr (rr_recipient_handle r))]"

definition de_removed_recipient :: "json \<Rightarrow> removed_recipient option" where
  "de_removed_recipient = with_object [''rh'', ''kid'', ''removed_at''] (\<lambda>ms.
     Option.bind (get_field de_str ''rh'' ms) (\<lambda>rh.
     Option.bind (get_field de_str ''kid'' ms) (\<lambda>kid.
     Option.bind (get_field de_str ''removed_at'' ms) (\<lambda>removed_at.
     Some \<lparr>rr_recipient_handle = rh, rr_kid = kid, rr_removed_at = removed_at\<rparr>))))"

definition se_kv_wrap :: "kv_wrap \<Rightarrow> json" where
  "se_kv_wrap w = JObj
     (opt_member ''removed_recipients'' (\<lambda>rs. JArr (map se_removed_recipient rs))
        (kw_removed_recipients w) @
      [(''wrap'', JArr (map se_wrap_item (kw_wrap w)))])"

definition de_kv_wrap :: "json \<Rightarrow> kv_wrap option" where
  "de_kv_wrap = with_object [''wrap'', ''removed_recipients''] (\<lambda>ms.
     Option.bind (get_field (de_list de_wrap_item) ''wrap'' ms) (\<lambda>wrap.
     Option.bind (get_opt (de_list de_removed_recipient) ''removed_recipients'' ms) (\<lambda>removed.
     Some \<lparr>kw_wrap = wrap, kw_removed_recipients = removed\<rparr>)))"

definition se_kv_header :: "json_lib \<Rightarrow> kv_header \<Rightarrow> json" where
  "se_kv_header J h = JObj
     [(''alg'', JObj [(''aead'', JStr (kvh_aead h))]), (''created_at'', JStr (kvh_created_at h)),
      (''sid'', JStr (jl_uuid_show J (kvh_sid h))), (''updated_at'', JStr (kvh_updated_at h))]"

definition de_kv_header :: "json_lib \<Rightarrow> json \<Rightarrow> kv_header option" where
  "de_kv_header J = with_object [''sid'', ''alg'', ''created_at'', ''updated_at''] (\<lambda>ms.
     Option.bind (get_field (de_uuid J) ''sid'' ms) (\<lambda>sid.
     Option.bind (get_field (with_object [''aead''] (get_field de_str ''aead'')) ''alg'' ms) (\<lambda>aead.
     Option.bind (get_field de_str ''created_at'' ms) (\<lambda>created_at.
     Option.bind (get_field de_str ''updated_at'' ms) (\<lambda>updated_at.
     Some \<lparr>kvh_sid = sid, kvh_aead = aead, kvh_created_at = created_at,
           kvh_updated_at = updated_at\<rparr>)))))"

definition se_kv_entry :: "kv_entry_value \<Rightarrow> json" where
  "se_kv_entry v = JObj
     ([(''ct'', JStr (ev_ct v))] @
      (if ev_disclosed v then [(''disclosed'', JBool True)] else []) @
      [(''nonce'', JStr (ev_nonce v))])"

definition de_kv_entry :: "json \<Rightarrow> kv_entry_value option" where
  "de_kv_entry = with_object [''nonce'', ''ct'', ''disclosed''] (\<lambda>ms.
     Option.bind (get_field de_str ''nonce'' ms) (\<lambda>nonce.
     Option.bind (get_field de_str ''ct'' ms) (\<lambda>ct.
     Option.bind (get_flag ''disclosed'' ms) (\<lambda>disclosed.
     Some \<lparr>ev_nonce = nonce, ev_ct = ct, ev_disclosed = disclosed\<rparr>))))"

lemma de_se_wrap_item [simp]: "de_wrap_item (se_wrap_item w) = Some w"
  by (simp add: de_wrap_item_def se_wrap_item_def)

lemma de_se_removed_recipient [simp]: "de_removed_recipient (se_removed_recipient r) = Some r"
  by (simp add: de_removed_recipient_def se_removed_recipient_def)

lemma de_se_kv_wrap [simp]: "de_kv_wrap (se_kv_wrap w) = Some w"
  by (cases "kw_removed_recipients w"; cases w)
     (simp_all add: de_kv_wrap_def se_kv_wrap_def de_all_map)

lemma de_se_kv_entry [simp]: "de_kv_entry (se_kv_entry v) = Some v"
  by (simp add: de_kv_entry_def se_kv_entry_def)

lemma de_se_kv_header:
  "jl_uuid_parse J (jl_uuid_show J (kvh_sid h)) = Some (kvh_sid h) \<Longrightarrow>
     de_kv_header J (se_kv_header J h) = Some h"
  by (simp add: de_kv_header_def se_kv_header_def de_uuid_def)

lemma wf_se [simp]:
  "wf_json (se_wrap_item w)" "wf_json (se_removed_recipient r)" "wf_json (se_kv_wrap kw)"
  "wf_json (se_kv_entry v)" "wf_json (se_kv_header J h)"
  by (cases "kw_removed_recipients kw";
      auto simp: se_wrap_item_def se_removed_recipient_def se_kv_wrap_def se_kv_entry_def
        se_kv_header_def less_char_def)+

definition se_jwk :: "jwk_okp_public_key \<Rightarrow> json" where
  "se_jwk k = JObj [(''crv'', JStr (jwk_crv k)), (''kty'', JStr (jwk_kty k)), (''x'', JStr (jwk_x k))]"

definition de_jwk :: "json \<Rightarrow> jwk_okp_public_key option" where
  "de_jwk = with_object [''kty'', ''crv'', ''x''] (\<lambda>ms.
     Option.bind (get_field de_str ''kty'' ms) (\<lambda>kty.
     Option.bind (get_field de_str ''crv'' ms) (\<lambda>crv.
     Option.bind (get_field de_str ''x'' ms) (\<lambda>x.
     Some \<lparr>jwk_kty = kty, jwk_crv = crv, jwk_x = x\<rparr>))))"

definition se_identity_keys :: "identity_keys \<Rightarrow> json" where
  "se_identity_keys k = JObj [(''kem'', se_jwk (ik_kem k)), (''sig'', se_jwk (ik_sig k))]"

definition de_identity_keys :: "json \<Rightarrow> identity_keys option" where
  "de_identity_keys = with_object [''kem'', ''sig''] (\<lambda>ms.
     Option.bind (get_field de_jwk ''kem'' ms) (\<lambda>kem.
     Option.bind (get_field de_jwk ''sig'' ms) (\<lambda>sig.
     Some \<lparr>ik_kem = kem, ik_sig = sig\<rparr>)))"

definition se_attestation :: "attestation \<Rightarrow> json" where
  "se_attestation a = JObj
     [(''method'', JStr (att_method a)), (''pub'', JStr (att_pub a)), (''sig'', JStr (att_sig a))]"

definition de_attestation :: "json \<Rightarrow> attestation option" where
  "de_attestation = with_object [''method'', ''pub'', ''sig''] (\<lambda>ms.
     Option.bind (get_field de_str ''method'' ms) (\<lambda>method.
     Option.bind (get_field de_str ''pub'' ms) (\<lambda>pub.
     Option.bind (get_field de_str ''sig'' ms) (\<lambda>sig.
     Some \<lparr>att_method = method, att_pub = pub, att_sig = sig\<rparr>))))"

definition se_github_account :: "github_account \<Rightarrow> json" where
  "se_github_account g = JObj [(''id'', JNum (uint (gh_id g))), (''login'', JStr (gh_login g))]"

definition de_github_account :: "json \<Rightarrow> github_account option" where
  "de_github_account = with_object [''id'', ''login''] (\<lambda>ms.
     Option.bind (get_field de_u64 ''id'' ms) (\<lambda>i.
     Option.bind (get_field de_str ''login'' ms) (\<lambda>login.
     Some \<lparr>gh_id = i, gh_login = login\<rparr>)))"

definition se_binding_claims :: "binding_claims \<Rightarrow> json" where
  "se_binding_claims b = JObj (opt_member ''github_account'' se_github_account (bc_github_account b))"

definition de_binding_claims :: "json \<Rightarrow> binding_claims option" where
  "de_binding_claims = with_object [''github_account''] (\<lambda>ms.
     Option.bind (get_opt de_github_account ''github_account'' ms) (\<lambda>g.
     Some \<lparr>bc_github_account = g\<rparr>))"

definition se_pk_protected :: "public_key_protected \<Rightarrow> json" where
  "se_pk_protected p = JObj
     ([(''attestation'', se_attestation (pk_attestation p))] @
      opt_member ''binding_claims'' se_binding_claims (pk_binding_claims p) @
      opt_member ''created_at'' JStr (pk_created_at p) @
      [(''expires_at'', JStr (pk_expires_at p)), (''format'', JStr (pk_format p)),
       (''keys'', se_identity_keys (pk_keys p)), (''kid'', JStr (pk_kid p)),
       (''subject_handle'', JStr (pk_subject_handle p))])"

definition de_pk_protected :: "json \<Rightarrow> public_key_protected option" where
  "de_pk_protected = with_object [''format'', ''subject_handle'', ''kid'', ''keys'',
       ''binding_claims'', ''attestation'', ''expires_at'', ''created_at''] (\<lambda>ms.
     Option.bind (get_field de_str ''format'' ms) (\<lambda>format.
     Option.bind (get_field de_str ''subject_handle'' ms) (\<lambda>subject_handle.
     Option.bind (get_field de_str ''kid'' ms) (\<lambda>kid.
     Option.bind (get_field de_identity_keys ''keys'' ms) (\<lambda>keys.
     Option.bind (get_opt de_binding_claims ''binding_claims'' ms) (\<lambda>binding_claims.
     Option.bind (get_field de_attestation ''attestation'' ms) (\<lambda>attestation.
     Option.bind (get_field de_str ''expires_at'' ms) (\<lambda>expires_at.
     Option.bind (get_opt de_str ''created_at'' ms) (\<lambda>created_at.
     Some \<lparr>pk_format = format, pk_subject_handle = subject_handle, pk_kid = kid, pk_keys = keys,
           pk_binding_claims = binding_claims, pk_attestation = attestation,
           pk_expires_at = expires_at, pk_created_at = created_at\<rparr>)))))))))"

definition se_public_key :: "public_key \<Rightarrow> json" where
  "se_public_key k = JObj
     [(''protected'', se_pk_protected (pk_protected k)), (''signature'', JStr (pk_signature k))]"

definition de_public_key :: "json \<Rightarrow> public_key option" where
  "de_public_key = with_object [''protected'', ''signature''] (\<lambda>ms.
     Option.bind (get_field de_pk_protected ''protected'' ms) (\<lambda>protected.
     Option.bind (get_field de_str ''signature'' ms) (\<lambda>signature.
     Some \<lparr>pk_protected = protected, pk_signature = signature\<rparr>)))"

definition de_kpp :: "json \<Rightarrow> key_possession_proof option" where
  "de_kpp j = Option.bind (de_str j) (\<lambda>s.
     case KeyPossessionProof_parse s of Inl _ \<Rightarrow> None | Inr p \<Rightarrow> Some p)"

definition se_artifact_signature :: "artifact_signature \<Rightarrow> json" where
  "se_artifact_signature s = JObj
     [(''alg'', JStr (sig_alg s)), (''kid'', JStr (sig_kid s)), (''mac'', JStr (kpp_wire (sig_mac s))),
      (''sig'', JStr (sig_sig s)), (''signer_pub'', se_public_key (sig_signer_pub s))]"

definition de_artifact_signature :: "json \<Rightarrow> artifact_signature option" where
  "de_artifact_signature = with_object [''alg'', ''kid'', ''signer_pub'', ''mac'', ''sig''] (\<lambda>ms.
     Option.bind (get_field de_str ''alg'' ms) (\<lambda>alg.
     Option.bind (get_field de_str ''kid'' ms) (\<lambda>kid.
     Option.bind (get_field de_public_key ''signer_pub'' ms) (\<lambda>signer_pub.
     Option.bind (get_field de_kpp ''mac'' ms) (\<lambda>mac.
     Option.bind (get_field de_str ''sig'' ms) (\<lambda>sig.
     Some \<lparr>sig_alg = alg, sig_kid = kid, sig_signer_pub = signer_pub, sig_mac = mac,
           sig_sig = sig\<rparr>))))))"

definition se_file_payload_header :: "json_lib \<Rightarrow> file_payload_header \<Rightarrow> json" where
  "se_file_payload_header J h = JObj
     [(''alg'', JObj [(''aead'', JStr (fph_aead h))]), (''format'', JStr (fph_format h)),
      (''sid'', JStr (jl_uuid_show J (fph_sid h)))]"

definition se_file_payload :: "json_lib \<Rightarrow> file_payload \<Rightarrow> json" where
  "se_file_payload J p = JObj
     [(''encrypted'', JObj [(''ct'', JStr (fpc_ct (fp_encrypted p))),
                            (''nonce'', JStr (fpc_nonce (fp_encrypted p)))]),
      (''protected'', se_file_payload_header J (fp_protected p))]"

definition de_file_payload :: "json_lib \<Rightarrow> json \<Rightarrow> file_payload option" where
  "de_file_payload J = with_object [''protected'', ''encrypted''] (\<lambda>ms.
     Option.bind (get_field (with_object [''format'', ''sid'', ''alg''] (\<lambda>hs.
       Option.bind (get_field de_str ''format'' hs) (\<lambda>format.
       Option.bind (get_field (de_uuid J) ''sid'' hs) (\<lambda>sid.
       Option.bind (get_field (with_object [''aead''] (get_field de_str ''aead'')) ''alg'' hs) (\<lambda>aead.
       Some \<lparr>fph_format = format, fph_sid = sid, fph_aead = aead\<rparr>))))) ''protected'' ms) (\<lambda>protected.
     Option.bind (get_field (with_object [''nonce'', ''ct''] (\<lambda>cs.
       Option.bind (get_field de_str ''nonce'' cs) (\<lambda>nonce.
       Option.bind (get_field de_str ''ct'' cs) (\<lambda>ct.
       Some \<lparr>fpc_nonce = nonce, fpc_ct = ct\<rparr>)))) ''encrypted'' ms) (\<lambda>encrypted.
     Some \<lparr>fp_protected = protected, fp_encrypted = encrypted\<rparr>)))"

definition se_file_protected :: "json_lib \<Rightarrow> file_enc_protected \<Rightarrow> json" where
  "se_file_protected J p = JObj
     ([(''created_at'', JStr (fe_created_at p)), (''format'', JStr (fe_format p)),
       (''payload'', se_file_payload J (fe_payload p))] @
      opt_member ''removed_recipients'' (\<lambda>rs. JArr (map se_removed_recipient rs))
        (fe_removed_recipients p) @
      [(''sid'', JStr (jl_uuid_show J (fe_sid p))), (''updated_at'', JStr (fe_updated_at p)),
       (''wrap'', JArr (map se_wrap_item (fe_wrap p)))])"

definition de_file_protected :: "json_lib \<Rightarrow> json \<Rightarrow> file_enc_protected option" where
  "de_file_protected J = with_object [''format'', ''sid'', ''wrap'', ''removed_recipients'',
       ''payload'', ''created_at'', ''updated_at''] (\<lambda>ms.
     Option.bind (get_field de_str ''format'' ms) (\<lambda>format.
     Option.bind (get_field (de_uuid J) ''sid'' ms) (\<lambda>sid.
     Option.bind (get_field (de_list de_wrap_item) ''wrap'' ms) (\<lambda>wrap.
     Option.bind (get_opt (de_list de_removed_recipient) ''removed_recipients'' ms) (\<lambda>removed.
     Option.bind (get_field (de_file_payload J) ''payload'' ms) (\<lambda>payload.
     Option.bind (get_field de_str ''created_at'' ms) (\<lambda>created_at.
     Option.bind (get_field de_str ''updated_at'' ms) (\<lambda>updated_at.
     Some \<lparr>fe_format = format, fe_sid = sid, fe_wrap = wrap, fe_removed_recipients = removed,
           fe_payload = payload, fe_created_at = created_at, fe_updated_at = updated_at\<rparr>))))))))"

definition se_file_enc :: "json_lib \<Rightarrow> file_enc_document \<Rightarrow> json" where
  "se_file_enc J d = JObj
     [(''protected'', se_file_protected J (fed_protected d)),
      (''signature'', se_artifact_signature (fed_signature d))]"

definition de_file_enc :: "json_lib \<Rightarrow> json \<Rightarrow> file_enc_document option" where
  "de_file_enc J = with_object [''protected'', ''signature''] (\<lambda>ms.
     Option.bind (get_field (de_file_protected J) ''protected'' ms) (\<lambda>protected.
     Option.bind (get_field de_artifact_signature ''signature'' ms) (\<lambda>signature.
     Some \<lparr>fed_protected = protected, fed_signature = signature\<rparr>)))"

section \<open>Encoding and decoding agree\<close>

lemma de_se_identity_keys [simp]: "de_identity_keys (se_identity_keys k) = Some k"
  by (simp add: de_identity_keys_def se_identity_keys_def de_jwk_def se_jwk_def)

lemma de_se_attestation [simp]: "de_attestation (se_attestation a) = Some a"
  by (simp add: de_attestation_def se_attestation_def)

lemma de_se_github_account [simp]: "de_github_account (se_github_account g) = Some g"
  by (simp add: de_github_account_def se_github_account_def)

lemma se_not_null [simp]:
  "se_github_account g \<noteq> JNull" "se_binding_claims b \<noteq> JNull"
  by (simp_all add: se_github_account_def se_binding_claims_def)

lemma de_se_binding_claims [simp]: "de_binding_claims (se_binding_claims b) = Some b"
  by (cases "bc_github_account b"; cases b) (simp_all add: de_binding_claims_def se_binding_claims_def)

lemma de_se_pk_protected [simp]: "de_pk_protected (se_pk_protected p) = Some p"
  by (cases "pk_binding_claims p"; cases "pk_created_at p"; cases p)
     (simp_all add: de_pk_protected_def se_pk_protected_def)

lemma de_se_public_key [simp]: "de_public_key (se_public_key k) = Some k"
  by (simp add: de_public_key_def se_public_key_def)

lemma de_se_artifact_signature:
  "kpp_valid (sig_mac s) \<Longrightarrow> de_artifact_signature (se_artifact_signature s) = Some s"
proof -
  assume "kpp_valid (sig_mac s)"
  then have "KeyPossessionProof_parse (kpp_wire (sig_mac s)) = Inr (sig_mac s)"
    by (simp add: kpp_parse_iff)
  then show ?thesis
    by (simp add: de_artifact_signature_def se_artifact_signature_def de_kpp_def)
qed

lemma de_se_file_payload:
  "jl_uuid_parse J (jl_uuid_show J (fph_sid (fp_protected p))) = Some (fph_sid (fp_protected p)) \<Longrightarrow>
     de_file_payload J (se_file_payload J p) = Some p"
  by (simp add: de_file_payload_def se_file_payload_def se_file_payload_header_def de_uuid_def)

lemma de_se_file_protected:
  assumes "jl_uuid_parse J (jl_uuid_show J (fe_sid p)) = Some (fe_sid p)"
    and "fph_sid (fp_protected (fe_payload p)) = fe_sid p"
  shows "de_file_protected J (se_file_protected J p) = Some p"
proof -
  have "de_file_payload J (se_file_payload J (fe_payload p)) = Some (fe_payload p)"
    using assms by (intro de_se_file_payload) simp
  with assms show ?thesis
    by (cases "fe_removed_recipients p"; cases p)
       (simp_all add: de_file_protected_def se_file_protected_def de_uuid_def de_all_map)
qed

section \<open>Wrap items\<close>

definition validate_wrap_algorithm :: "string \<Rightarrow> unit res" where
  "validate_wrap_algorithm value =
     (if value = HPKE_X25519_HKDF_SHA256_CHACHA20_POLY1305 then Inr ()
      else Inl (plain_error Crypto))"

definition validate_wrap_item :: "wrap_item \<Rightarrow> unit res" where
  "validate_wrap_item item =
     res_bind (MemberHandle_new (wi_recipient_handle item)) (\<lambda>_.
     res_bind (Kid_from_canonical (wi_kid item)) (\<lambda>_.
     res_bind (validate_wrap_algorithm (wi_alg item)) (\<lambda>_.
     res_bind (decode_base64url_nopad_array 32 (wi_enc item)) (\<lambda>_.
     res_bind (decode_base64url_nopad_array 48 (wi_ct item)) (\<lambda>_.
     Inr ())))))"

definition validate_unique_recipient_handle :: "wrap_item \<Rightarrow> string list \<Rightarrow> string list res" where
  "validate_unique_recipient_handle item seen =
     (if wi_recipient_handle item \<notin> set seen then Inr (wi_recipient_handle item # seen)
      else Inl (verification_error ''E_DUPLICATE_RECIPIENT_HANDLE''))"

fun validate_wrap_loop :: "string list \<Rightarrow> wrap_item list \<Rightarrow> unit res" where
  "validate_wrap_loop seen [] = Inr ()"
| "validate_wrap_loop seen (item # items) =
     res_bind (validate_unique_recipient_handle item seen) (\<lambda>seen'.
     res_bind (validate_wrap_item item) (\<lambda>_. validate_wrap_loop seen' items))"

definition validate_wrap_items :: "wrap_item list \<Rightarrow> unit res" where
  "validate_wrap_items wrap_items =
     res_bind (validate_wrap_count (length wrap_items)) (\<lambda>_. validate_wrap_loop [] wrap_items)"

definition wrap_item_ok :: "wrap_item \<Rightarrow> bool" where
  "wrap_item_ok w \<longleftrightarrow> validate_wrap_item w = Inr ()"

lemma validate_wrap_loop_iff:
  "validate_wrap_loop seen items = Inr u \<longleftrightarrow>
     distinct (map wi_recipient_handle items) \<and>
     set (map wi_recipient_handle items) \<inter> set seen = {} \<and> list_all wrap_item_ok items"
  by (induction items arbitrary: seen)
     (auto simp: validate_unique_recipient_handle_def wrap_item_ok_def)

lemma validate_wrap_items_iff:
  "validate_wrap_items items = Inr u \<longleftrightarrow>
     length items \<le> MAX_WRAP_ITEMS \<and> distinct (map wi_recipient_handle items) \<and>
     list_all wrap_item_ok items"
  by (simp add: validate_wrap_items_def validate_wrap_loop_iff)

lemma wrap_item_ok_iff:
  "wrap_item_ok w \<longleftrightarrow>
     validate_member_handle (wi_recipient_handle w) = Inr () \<and> canonical_kid (wi_kid w) \<and>
     wi_alg w = HPKE_X25519_HKDF_SHA256_CHACHA20_POLY1305 \<and>
     (\<exists>enc. length enc = 32 \<and> wi_enc w = encode_base64url_nopad enc) \<and>
     (\<exists>ct. length ct = 48 \<and> wi_ct w = encode_base64url_nopad ct)"
  by (auto simp: wrap_item_ok_def validate_wrap_item_def MemberHandle_new_iff
      Kid_from_canonical_iff validate_wrap_algorithm_def arr.dec_iff split: if_splits)

section \<open>Parsing documents and tokens\<close>

definition parse_json_value :: "json_lib \<Rightarrow> u8 list \<Rightarrow> json res" where
  "parse_json_value J bytes =
     res_bind (ok_or (plain_error Parse) (jl_tokenize J bytes)) unique_json"

definition deserialize_json_value :: "(json \<Rightarrow> 'd option) \<Rightarrow> json \<Rightarrow> 'd res" where
  "deserialize_json_value de value = ok_or (plain_error Parse) (de value)"

definition parse_json_document_bytes ::
  "json_lib \<Rightarrow> schema_target \<Rightarrow> (json \<Rightarrow> 'd option) \<Rightarrow> u8 list \<Rightarrow> 'd res" where
  "parse_json_document_bytes J target de bytes =
     res_bind (validate_json_limits (from_bytes bytes)) (\<lambda>_.
     res_bind (parse_json_value J bytes) (\<lambda>value.
     res_bind (jl_schema J target value) (\<lambda>_.
     deserialize_json_value de value)))"

definition parse_json_token ::
  "json_lib \<Rightarrow> schema_target \<Rightarrow> (json \<Rightarrow> 'd option) \<Rightarrow> string \<Rightarrow> 'd res" where
  "parse_json_token J target de tok =
     res_bind (decode_token_bytes tok) (\<lambda>bytes.
     res_bind (validate_json_limits (from_bytes bytes)) (\<lambda>_.
     res_bind (parse_json_value J bytes) (\<lambda>value.
     res_bind (jl_schema J target value) (\<lambda>_.
     deserialize_json_value de value))))"

definition parse_kv_head_token :: "json_lib \<Rightarrow> string \<Rightarrow> kv_header res" where
  "parse_kv_head_token J = parse_json_token J SchemaKvHead (de_kv_header J)"

definition parse_kv_wrap_token :: "json_lib \<Rightarrow> string \<Rightarrow> kv_wrap res" where
  "parse_kv_wrap_token J tok =
     res_bind (parse_json_token J SchemaKvWrap de_kv_wrap tok) (\<lambda>wrap.
     res_bind (validate_wrap_items (kw_wrap wrap)) (\<lambda>_. Inr wrap))"

definition parse_kv_entry_token :: "json_lib \<Rightarrow> string \<Rightarrow> kv_entry_value res" where
  "parse_kv_entry_token J = parse_json_token J SchemaKvEntry de_kv_entry"

definition parse_kv_signature_token :: "json_lib \<Rightarrow> string \<Rightarrow> artifact_signature res" where
  "parse_kv_signature_token J =
     parse_json_token J SchemaArtifactSignature de_artifact_signature"

definition parse_public_key_str :: "json_lib \<Rightarrow> string \<Rightarrow> public_key res" where
  "parse_public_key_str J content =
     parse_json_document_bytes J SchemaPublicKey de_public_key (as_bytes content)"

definition parse_file_enc_str :: "json_lib \<Rightarrow> string \<Rightarrow> file_enc_document res" where
  "parse_file_enc_str J content =
     res_bind (parse_json_document_bytes J SchemaFileEnc (de_file_enc J) (as_bytes content)) (\<lambda>doc.
     res_bind (validate_wrap_items (fe_wrap (fed_protected doc))) (\<lambda>_. Inr doc))"

definition token_encode :: "json_lib \<Rightarrow> json \<Rightarrow> string res" where
  "token_encode J = encode_token (jcs_normalize J)"

text \<open>
  A value the libraries carry: its canonical bytes tokenize back to it, the schema accepts it, and
  it is within the size limits.
\<close>

definition storable :: "json_lib \<Rightarrow> schema_target \<Rightarrow> json \<Rightarrow> bool" where
  "storable J target j \<longleftrightarrow>
     wf_json j \<and> jl_jcs J j \<noteq> [] \<and> jl_tokenize J (jl_jcs J j) = Some (raw_of j) \<and>
     jl_schema J target j = Inr () \<and>
     validate_json_limits (from_bytes (jl_jcs J j)) = Inr () \<and>
     url_fits MAX_BASE64_TOKEN_LENGTH (jl_jcs J j)"

lemma wf_all_integers_safe: "wf_json j \<Longrightarrow> all_integers_safe j"
  by (induction j rule: all_integers_safe.induct) auto

lemma token_not_cbor:
  "\<not> starts_with ''cb:'' (encode_base64url_nopad bs)" "\<not> starts_with ''cz:'' (encode_base64url_nopad bs)"
  using encode_url_no_colon [of bs] by (auto simp: starts_with_iff)

lemma decode_token_bytes_iff:
  "decode_token_bytes tok = Inr bs \<longleftrightarrow>
     tok = encode_base64url_nopad bs \<and> url_fits MAX_BASE64_TOKEN_LENGTH bs"
  by (auto simp: decode_token_bytes_def tok.dec_iff token_not_cbor)

lemma token_encode_Inr:
  "token_encode J v = Inr t \<longleftrightarrow> all_integers_safe v \<and> t = encode_base64url_nopad (jl_jcs J v)"
  by (auto simp: token_encode_def encode_token_def jcs_normalize_def)

lemma parse_json_token_encode:
  assumes "storable J target (se v)" and "de (se v) = Some v" and "token_encode J (se v) = Inr t"
  shows "parse_json_token J target de t = Inr v"
proof -
  have "decode_token_bytes t = Inr (jl_jcs J (se v))"
    using assms(1,3) by (simp add: token_encode_Inr decode_token_bytes_iff storable_def)
  with assms(1,2) show ?thesis
    by (simp add: parse_json_token_def storable_def parse_json_value_def unique_json_raw_of
        deserialize_json_value_def)
qed

section \<open>Concrete libraries\<close>

text \<open>
  Libraries that carry the values of a given list, one byte per value: instances at which the
  statements that assume \<open>storable\<close> are evaluated.
\<close>

fun index_of :: "json list \<Rightarrow> json \<Rightarrow> nat" where
  "index_of [] j = 0"
| "index_of (x # xs) j = (if x = j then 0 else Suc (index_of xs j))"

definition sample_lib :: "json list \<Rightarrow> json_lib" where
  "sample_lib js =
     \<lparr>jl_tokenize = (\<lambda>bs. case bs of [b] \<Rightarrow> if unat b < length js then Some (raw_of (js ! unat b)) else None
        | _ \<Rightarrow> None),
      jl_schema = (\<lambda>_ _. Inr ()), jl_jcs = (\<lambda>j. [of_nat (index_of js j)]),
      jl_uuid_show = (\<lambda>_. ''1''), jl_uuid_parse = (\<lambda>_. Some 1)\<rparr>"

lemma index_of_nth: "j \<in> set js \<Longrightarrow> index_of js j < length js \<and> js ! index_of js j = j"
  by (induction js) auto

lemma one_byte_limits: "validate_json_limits [c] = Inr ()"
proof -
  have "json_count json_scan_init c \<in> {Inr s | s. js_elements s \<le> 1}"
    unfolding json_count_def
    by (intro if_mem) (simp_all add: json_scan_init_def open_container_def limit_defs)
  then obtain s where "json_count json_scan_init c = Inr s" "js_elements s \<le> 1" by blast
  moreover have "\<not> js_escape json_scan_init" "\<not> js_in_string json_scan_init"
    by (simp_all add: json_scan_init_def)
  ultimately show ?thesis
    by (simp add: validate_json_limits_def json_consume_def enforce_element_limit_def limit_defs)
qed

lemma sample_lib_storable:
  "j \<in> set js \<Longrightarrow> length js < 256 \<Longrightarrow> wf_json j \<Longrightarrow> storable (sample_lib js) target j"
proof -
  assume j: "j \<in> set js" "length js < 256" "wf_json j"
  note idx = index_of_nth [OF j(1)]
  then have "unat (of_nat (index_of js j) :: u8) = index_of js j"
    using j(2) by (simp add: unsigned_of_nat take_bit_nat_eq_self)
  with idx j(3) show ?thesis
    by (simp add: storable_def sample_lib_def from_bytes_def one_byte_limits url_fits_def
        compute_encoded_len_def limit_defs)
qed

lemma sample_lib_encode:
  "wf_json j \<Longrightarrow> token_encode (sample_lib js) j = Inr (encode_base64url_nopad [of_nat (index_of js j)])"
  by (simp add: token_encode_Inr wf_all_integers_safe sample_lib_def)

lemma wf_se_keys [simp]:
  "wf_json (se_jwk k)" "wf_json (se_identity_keys ik)" "wf_json (se_attestation a)"
  by (auto simp: se_jwk_def se_identity_keys_def se_attestation_def less_char_def)

lemma wf_se_public_key:
  "pk_binding_claims (pk_protected k) = None \<Longrightarrow> wf_json (se_public_key k)"
  by (cases "pk_created_at (pk_protected k)")
     (auto simp: se_public_key_def se_pk_protected_def less_char_def)

lemma wf_se_artifact_signature:
  "pk_binding_claims (pk_protected (sig_signer_pub s)) = None \<Longrightarrow> wf_json (se_artifact_signature s)"
  by (auto simp: se_artifact_signature_def wf_se_public_key less_char_def)

definition sample_jwk :: jwk_okp_public_key where
  "sample_jwk = \<lparr>jwk_kty = ''OKP'', jwk_crv = ''Ed25519'', jwk_x = ''AA''\<rparr>"

definition sample_public_key :: public_key where
  "sample_public_key = PublicKey_new
     \<lparr>pp_subject_handle = ''alice'', pp_kid = ''7M2Q9D4R1H8VW6PKT3XNC5JY2F9AR8GD'',
      pp_keys = \<lparr>ik_kem = sample_jwk, ik_sig = sample_jwk\<rparr>, pp_binding_claims = None,
      pp_attestation = \<lparr>att_method = ''ssh-sign'', att_pub = ''ssh-ed25519 AAAA'', att_sig = ''AA''\<rparr>,
      pp_expires_at = ''2027-01-01T00:00:00Z'', pp_created_at = None, pp_signature = ''AA''\<rparr>"

definition sample_signature :: artifact_signature where
  "sample_signature =
     \<lparr>sig_alg = SIGNATURE_ED25519, sig_kid = ''7M2Q9D4R1H8VW6PKT3XNC5JY2F9AR8GD'',
      sig_signer_pub = sample_public_key,
      sig_mac = \<lparr>kpp_wire = KEY_POSSESSION_HMAC_SHA256 @ '':'' @ encode_base64url_nopad (replicate 32 0),
                 kpp_algorithm = HmacSha256, kpp_tag = replicate 32 0\<rparr>,
      sig_sig = ''AA''\<rparr>"

lemma sample_signature_ok:
  "wf_json (se_artifact_signature sample_signature)" "kpp_valid (sig_mac sample_signature)"
  by (simp_all add: wf_se_artifact_signature sample_signature_def sample_public_key_def
      PublicKey_new_def kpp_valid_def KeyPossessionProof_try_new_def validate_tag_len_def
      KEY_POSSESSION_HMAC_SHA256_TAG_LEN_def)

end
