(* ===== verification/Dotenv.thy ===== *)
theory Dotenv
  imports Rust_Str
begin

text \<open>
  The dotenv reader of \<open>format/kv/dotenv.rs\<close>: key names, value unquoting, the lenient parser
  behind an import, the strict validation that runs before it, and the ordered entries an import
  takes (\<open>feature/kv/import.rs\<close>). The parser's \<open>HashMap\<close> is kept in key order, the order its only
  reader gives it; later lines overwrite earlier ones.
\<close>

section \<open>Key names and values\<close>

definition is_valid_key_name :: "string \<Rightarrow> bool" where
  "is_valid_key_name key =
     (case key of
        [] \<Rightarrow> False
      | first # rest \<Rightarrow> (is_ascii_alphabetic first \<or> first = CHR ''_'') \<and>
          list_all (\<lambda>c. is_ascii_alphanumeric c \<or> c = CHR ''_'') rest)"

definition double_quoted_unescape :: "string \<Rightarrow> string" where
  "double_quoted_unescape body =
     str_replace [NUL] [BACKSLASH]
       (str_replace [BACKSLASH, DQUOTE] [DQUOTE]
         (str_replace [BACKSLASH, CHR ''t''] [TAB]
           (str_replace [BACKSLASH, CHR ''r''] [CR]
             (str_replace [BACKSLASH, CHR ''n''] [LF]
               (str_replace [BACKSLASH, BACKSLASH] [NUL] body)))))"

definition parse_dotenv_value :: "string \<Rightarrow> string" where
  "parse_dotenv_value value =
     (if starts_with [DQUOTE] value \<and> ends_with [DQUOTE] value \<and> length value \<ge> 2
      then double_quoted_unescape (take (length value - 2) (drop 1 value))
      else if starts_with [SQUOTE] value \<and> ends_with [SQUOTE] value \<and> length value \<ge> 2
      then take (length value - 2) (drop 1 value)
      else value)"

section \<open>Parsing\<close>

definition strip_export :: "string \<Rightarrow> string" where
  "strip_export line =
     str_trim (case strip_prefix ''export '' line of Some l \<Rightarrow> l | None \<Rightarrow> line)"

definition dotenv_insert_line :: "(string \<times> string) list \<Rightarrow> string \<Rightarrow> (string \<times> string) list" where
  "dotenv_insert_line m raw_line =
     (let line = str_trim raw_line in
      if line = [] \<or> starts_with ''#'' line then m
      else (case split_once CHR ''='' (strip_export line) of
        None \<Rightarrow> m
      | Some (k, v) \<Rightarrow>
          if is_valid_key_name (str_trim k)
          then btree_insert (str_trim k) (parse_dotenv_value (str_trim v)) m else m))"

definition parse_dotenv :: "string \<Rightarrow> (string \<times> string) list res" where
  "parse_dotenv content = Inr (foldl dotenv_insert_line [] (str_lines content))"

definition validate_dotenv_line :: "string \<Rightarrow> bool res" where
  "validate_dotenv_line line =
     (if line = [] \<or> starts_with ''#'' line then Inr False
      else (case split_once CHR ''='' (strip_export line) of
        None \<Rightarrow> Inl (plain_error Parse)
      | Some (k, _) \<Rightarrow>
          if \<not> is_valid_key_name (str_trim k) then Inl (plain_error Parse) else Inr True))"

fun count_dotenv_entries :: "nat \<Rightarrow> string list \<Rightarrow> nat res" where
  "count_dotenv_entries entry_count [] = Inr entry_count"
| "count_dotenv_entries entry_count (line # rest) =
     res_bind (validate_dotenv_line (str_trim line)) (\<lambda>is_entry.
     count_dotenv_entries (if is_entry then entry_count + 1 else entry_count) rest)"

definition validate_dotenv_strict :: "string \<Rightarrow> unit res" where
  "validate_dotenv_strict content =
     res_bind (count_dotenv_entries 0 (str_lines content)) (\<lambda>entry_count.
     if entry_count = 0 then Inl (plain_error Parse) else Inr ())"

definition parse_dotenv_entries :: "string \<Rightarrow> (string \<times> string) list res" where
  "parse_dotenv_entries content =
     res_bind (validate_dotenv_strict content) (\<lambda>_. parse_dotenv content)"

section \<open>Key names\<close>

lemma valid_key_chars: "is_valid_key_name k \<Longrightarrow> c \<in> set k \<Longrightarrow> is_ascii_alphanumeric c \<or> c = CHR ''_''"
  by (auto simp: is_valid_key_name_def list_all_iff is_ascii_alphanumeric_def split: list.splits)

lemma valid_key_graphic: "is_valid_key_name k \<Longrightarrow> c \<in> set k \<Longrightarrow> graphic c"
  by (drule (1) valid_key_chars) (auto simp: ascii_class_defs graphic_def)

lemma valid_key_not: "is_valid_key_name k \<Longrightarrow> c \<in> set k \<Longrightarrow>
    c \<noteq> CHR '':'' \<and> c \<noteq> CHR '' '' \<and> c \<noteq> CHR ''#'' \<and> c \<noteq> CHR ''='' \<and> c \<noteq> LF \<and> c \<noteq> CR"
  by (drule (1) valid_key_chars) (auto simp: ascii_class_defs)

lemma valid_key_nonempty: "is_valid_key_name k \<Longrightarrow> k \<noteq> []"
  by (auto simp: is_valid_key_name_def)

lemma valid_key_trim [simp]: "is_valid_key_name k \<Longrightarrow> str_trim k = k"
  using valid_key_graphic valid_key_nonempty
  by (intro str_trim_graphic) (auto intro: hd_in_set last_in_set)

section \<open>Values\<close>

text \<open>Escaping is the inverse the unescaper is meant to have.\<close>

fun escape_char :: "char \<Rightarrow> string" where
  "escape_char c =
     (if c = BACKSLASH then [BACKSLASH, BACKSLASH]
      else if c = DQUOTE then [BACKSLASH, DQUOTE]
      else if c = LF then [BACKSLASH, CHR ''n'']
      else if c = CR then [BACKSLASH, CHR ''r'']
      else if c = TAB then [BACKSLASH, CHR ''t'']
      else [c])"

declare escape_char.simps [simp del]

definition quote_value :: "string \<Rightarrow> string" where
  "quote_value s = [DQUOTE] @ concat (map escape_char s) @ [DQUOTE]"

lemma str_replace_single:
  "str_replace [c] [d] s = map (\<lambda>x. if x = c then d else x) s"
  by (induction s) auto

lemma str_replace_pair_other:
  "str_replace [a, b] r (x # s) = x # str_replace [a, b] r s" if "x \<noteq> a"
  using that by simp

text \<open>Each replacement pass over a sequence of escape groups, seen group by group.\<close>

definition pass1 :: "char \<Rightarrow> string" where
  "pass1 c = (if c = BACKSLASH then [NUL] else escape_char c)"
definition pass2 :: "char \<Rightarrow> string" where "pass2 c = (if c = LF then [LF] else pass1 c)"
definition pass3 :: "char \<Rightarrow> string" where "pass3 c = (if c = CR then [CR] else pass2 c)"
definition pass4 :: "char \<Rightarrow> string" where "pass4 c = (if c = TAB then [TAB] else pass3 c)"
definition pass5 :: "char \<Rightarrow> string" where "pass5 c = (if c = DQUOTE then [DQUOTE] else pass4 c)"

lemmas pass_defs = pass5_def pass4_def pass3_def pass2_def pass1_def escape_char.simps

lemma escape_passes:
  "str_replace [BACKSLASH, BACKSLASH] [NUL] (concat (map escape_char s)) = concat (map pass1 s)"
  "str_replace [BACKSLASH, CHR ''n''] [LF] (concat (map pass1 s)) = concat (map pass2 s)"
  "str_replace [BACKSLASH, CHR ''r''] [CR] (concat (map pass2 s)) = concat (map pass3 s)"
  "str_replace [BACKSLASH, CHR ''t''] [TAB] (concat (map pass3 s)) = concat (map pass4 s)"
  "str_replace [BACKSLASH, DQUOTE] [DQUOTE] (concat (map pass4 s)) = concat (map pass5 s)"
  by (induction s; simp add: pass_defs)+

lemma unescape_escape:
  "NUL \<notin> set s \<Longrightarrow> double_quoted_unescape (concat (map escape_char s)) = s"
proof -
  assume nul: "NUL \<notin> set s"
  have "concat (map pass5 s) = map (\<lambda>c. if c = BACKSLASH then NUL else c) s"
    by (induction s) (simp_all add: pass_defs)
  moreover have "map (\<lambda>x. if x = NUL then BACKSLASH else x)
      (map (\<lambda>c. if c = BACKSLASH then NUL else c) s) = s"
    using nul by (induction s) auto
  ultimately show ?thesis
    by (simp add: double_quoted_unescape_def escape_passes str_replace_single)
qed

lemma parse_quote_value: "NUL \<notin> set s \<Longrightarrow> parse_dotenv_value (quote_value s) = s"
proof -
  assume "NUL \<notin> set s"
  moreover have "ends_with [DQUOTE] (quote_value s)"
    unfolding ends_with_iff by (auto simp: quote_value_def)
  ultimately show ?thesis
    by (simp add: parse_dotenv_value_def quote_value_def unescape_escape)
qed

text \<open>
  C23. A value written between double quotes with the five escapes reads back as itself, provided
  it holds no NUL byte; the NUL byte is the unescaper's placeholder, so a NUL in the file reads
  back as a backslash.
\<close>

theorem dotenv_quoted_value_roundtrip:
  "(NUL \<notin> set s \<longrightarrow> parse_dotenv_value (quote_value s) = s) \<and>
   parse_dotenv_value [DQUOTE, NUL, DQUOTE] = [BACKSLASH]"
  using parse_quote_value
  by (intro conjI impI) (simp, simp add: parse_dotenv_value_def double_quoted_unescape_def ends_with_def)

lemma dotenv_quoted_value_roundtrip_witness:
  "parse_dotenv_value (quote_value [CHR ''a'', BACKSLASH, CHR ''n'', LF, DQUOTE]) =
     [CHR ''a'', BACKSLASH, CHR ''n'', LF, DQUOTE]"
  using dotenv_quoted_value_roundtrip [of "[CHR ''a'', BACKSLASH, CHR ''n'', LF, DQUOTE]"] by simp

section \<open>Strict validation and the parser\<close>

definition dotenv_entry :: "string \<Rightarrow> (string \<times> string) option" where
  "dotenv_entry raw_line =
     (let line = str_trim raw_line in
      if line = [] \<or> starts_with ''#'' line then None
      else (case split_once CHR ''='' (strip_export line) of
        None \<Rightarrow> None
      | Some (k, v) \<Rightarrow> Some (str_trim k, parse_dotenv_value (str_trim v))))"

lemma dotenv_insert_line_entry:
  "dotenv_insert_line m l =
     (case dotenv_entry l of None \<Rightarrow> m
      | Some (k, v) \<Rightarrow> if is_valid_key_name k then btree_insert k v m else m)"
  by (auto simp: dotenv_insert_line_def dotenv_entry_def Let_def split: option.splits)

lemma validate_dotenv_line_Inr:
  "validate_dotenv_line (str_trim l) = Inr b \<Longrightarrow>
     b \<longleftrightarrow> dotenv_entry l \<noteq> None"
  by (auto simp: validate_dotenv_line_def dotenv_entry_def Let_def split: option.splits if_splits)

lemma validate_dotenv_line_key:
  "validate_dotenv_line (str_trim l) = Inr b \<Longrightarrow> dotenv_entry l = Some (k, v) \<Longrightarrow> is_valid_key_name k"
  by (auto simp: validate_dotenv_line_def dotenv_entry_def Let_def split: option.splits if_splits)

lemma count_dotenv_entries_Inr:
  "count_dotenv_entries n ls = Inr c \<Longrightarrow>
     c = n + length (filter (\<lambda>l. dotenv_entry l \<noteq> None) ls) \<and>
     (\<forall>l\<in>set ls. \<forall>k v. dotenv_entry l = Some (k, v) \<longrightarrow> is_valid_key_name k)"
proof (induction ls arbitrary: n)
  case (Cons l ls)
  then obtain b where b: "validate_dotenv_line (str_trim l) = Inr b"
    and rest: "count_dotenv_entries (if b then n + 1 else n) ls = Inr c" by auto
  from Cons.IH [OF rest] validate_dotenv_line_Inr [OF b] validate_dotenv_line_key [OF b]
  show ?case by auto
qed simp

lemma foldl_dotenv:
  assumes "\<forall>l\<in>set ls. \<forall>k v. dotenv_entry l = Some (k, v) \<longrightarrow> is_valid_key_name k"
  shows "map_of (foldl dotenv_insert_line m ls) =
    map_of m ++ map_of (rev (List.map_filter dotenv_entry ls))"
  using assms
proof (induction ls arbitrary: m)
  case (Cons l ls)
  then show ?case
    by (cases "dotenv_entry l")
       (auto simp: dotenv_insert_line_entry map_filter_simps map_add_def split: option.splits)
qed (simp add: map_filter_simps)

lemma foldl_dotenv_wf: "btree_wf m \<Longrightarrow> btree_wf (foldl dotenv_insert_line m ls)"
  by (induction ls arbitrary: m) (simp_all add: dotenv_insert_line_entry split: option.split)

text \<open>
  C22. An import loses no line of a file it accepts: the entries it takes are the ones the entry
  lines spell, later lines overriding earlier ones, in key order; there is at least one, and
  every key is a valid key name.
\<close>

theorem dotenv_import_skips_nothing:
  assumes "parse_dotenv_entries content = Inr es"
  shows "map_of es = map_of (rev (List.map_filter dotenv_entry (str_lines content))) \<and>
    btree_wf es \<and> es \<noteq> [] \<and> (\<forall>k\<in>fst ` set es. is_valid_key_name k)"
proof -
  from assms obtain c where c: "count_dotenv_entries 0 (str_lines content) = Inr c" "c \<noteq> 0"
    and es: "es = foldl dotenv_insert_line [] (str_lines content)"
    by (auto simp: parse_dotenv_entries_def validate_dotenv_strict_def parse_dotenv_def split: if_splits)
  note count = count_dotenv_entries_Inr [OF c(1)]
  let ?es = "List.map_filter dotenv_entry (str_lines content)"
  have mem: "e \<in> set ?es \<longleftrightarrow> (\<exists>l\<in>set (str_lines content). dotenv_entry l = Some e)" for e
    by (force simp: List.map_filter_def)
  have map: "map_of es = map_of (rev ?es)"
    using count by (simp add: es foldl_dotenv)
  then have dom: "fst ` set es = fst ` set ?es"
    by (metis dom_map_of_conv_image_fst set_rev)
  from count c(2) have "filter (\<lambda>l. dotenv_entry l \<noteq> None) (str_lines content) \<noteq> []" by auto
  then have "set ?es \<noteq> {}" using mem by (fastforce simp: filter_empty_conv)
  then have ne: "es \<noteq> []" using dom by auto
  have keys: "is_valid_key_name k" if "k \<in> fst ` set es" for k
    using that count unfolding dom by (auto simp: mem)
  have "btree_wf es" by (simp add: es foldl_dotenv_wf)
  with map ne keys show ?thesis by blast
qed

lemma dotenv_import_skips_nothing_witness:
  "\<exists>es. parse_dotenv_entries ''A=1'' = Inr es \<and> es \<noteq> []"
proof -
  have "parse_dotenv_entries ''A=1'' = Inr [(''A'', ''1'')]"
    by (simp add: parse_dotenv_entries_def validate_dotenv_strict_def validate_dotenv_line_def
        strip_export_def str_trim_graphic graphic_def code_in_def is_valid_key_name_def
        ascii_class_defs parse_dotenv_def dotenv_insert_line_def parse_dotenv_value_def)
  from this dotenv_import_skips_nothing [OF this] show ?thesis by blast
qed

end
