(* ===== verification/Kv_Text.thy ===== *)
theory Kv_Text
  imports Wire_Model Dotenv
begin

text \<open>
  The text of a kv-enc file: its lines and their parser (\<open>format/kv.rs\<close>,
  \<open>format/kv/enc/parser.rs\<close>), the writer (\<open>format/kv/enc/writer.rs\<close>), the canonical bytes a
  signature covers (\<open>format/kv/enc/canonical.rs\<close>) and the structural rules
  (\<open>format/kv/document/structure.rs\<close>). The lemmas show that a line has one spelling, that the
  structure check accepts exactly the files of the intended shape, and that the canonical bytes
  determine every line but the signature.
\<close>

section \<open>Lines\<close>

definition HEADER_LINE_PREFIX :: string where "HEADER_LINE_PREFIX = '':KAPSARO_KV ''"
definition HEADER_LINE_V1 :: string where "HEADER_LINE_V1 = '':KAPSARO_KV 1''"

definition TOKEN_CONTROL_LINES :: "(string \<times> (string \<Rightarrow> kv_enc_line)) list" where
  "TOKEN_CONTROL_LINES = [('':HEAD '', Head), ('':WRAP '', Wrap), ('':SIG '', Sig)]"

definition parse_header_line :: "string \<Rightarrow> kv_enc_line res" where
  "parse_header_line version_text =
     res_bind (ok_or (plain_error Parse) (KvEncVersion_parse version_text)) (\<lambda>version.
     Inr (Header version))"

definition parse_token_control_line :: "string \<Rightarrow> (string \<Rightarrow> kv_enc_line) \<Rightarrow> kv_enc_line res" where
  "parse_token_control_line token build_line =
     (if token = [] then Inl (plain_error Parse) else Inr (build_line token))"

fun parse_token_lines :: "(string \<times> (string \<Rightarrow> kv_enc_line)) list \<Rightarrow> string \<Rightarrow> kv_enc_line res" where
  "parse_token_lines [] line = Inl (plain_error Parse)"
| "parse_token_lines ((prefix, build_line) # rest) line =
     (case strip_prefix prefix line of
        Some token \<Rightarrow> parse_token_control_line token build_line
      | None \<Rightarrow> parse_token_lines rest line)"

definition parse_control_line :: "string \<Rightarrow> kv_enc_line res" where
  "parse_control_line line =
     (case strip_prefix HEADER_LINE_PREFIX line of
        Some version_text \<Rightarrow> parse_header_line version_text
      | None \<Rightarrow> parse_token_lines TOKEN_CONTROL_LINES line)"

definition parse_line :: "string \<Rightarrow> kv_enc_line res" where
  "parse_line line =
     (if line = [] then Inr Empty
      else if starts_with ''#'' line then Inl (plain_error Parse)
      else if starts_with '':'' line then parse_control_line line
      else (case split_once CHR '' '' line of
        Some (key, token) \<Rightarrow> Inr (KV key token)
      | None \<Rightarrow> Inl (plain_error Parse)))"

definition is_kv_line :: "kv_enc_line \<Rightarrow> bool" where
  "is_kv_line l = (case l of KV _ _ \<Rightarrow> True | _ \<Rightarrow> False)"

definition parse_all :: "string \<Rightarrow> kv_enc_line list res" where
  "parse_all content =
     (if length content > MAX_KV_ENC_FILE_SIZE then Inl (plain_error Parse)
      else res_bind (collect_res parse_line (str_lines content)) (\<lambda>lines.
        if length (filter is_kv_line lines) > MAX_KV_KEY_LINES then Inl (plain_error Parse)
        else Inr lines))"

lemma is_kv_line_simps [simp]:
  "is_kv_line (KV k t)" "\<not> is_kv_line (Header v)" "\<not> is_kv_line (Head t)" "\<not> is_kv_line (Wrap t)"
  "\<not> is_kv_line (Sig t)" "\<not> is_kv_line Empty"
  by (simp_all add: is_kv_line_def)

section \<open>Writing and the canonical bytes\<close>

definition build_unsigned_kv_document :: "string \<Rightarrow> string \<Rightarrow> (string \<times> string) list \<Rightarrow> string" where
  "build_unsigned_kv_document head_token wrap_token entries =
     HEADER_LINE_V1 @ [LF] @ '':HEAD '' @ head_token @ [LF] @ '':WRAP '' @ wrap_token @ [LF] @
     concat (map (\<lambda>(key, token). key @ '' '' @ token @ [LF]) entries)"

fun canonical_line :: "kv_enc_line \<Rightarrow> string" where
  "canonical_line (Header version) = HEADER_LINE_PREFIX @ nat_show (unat (as_u32 version)) @ [LF]"
| "canonical_line (Head token) = '':HEAD '' @ token @ [LF]"
| "canonical_line (Wrap token) = '':WRAP '' @ token @ [LF]"
| "canonical_line (KV key token) = key @ '' '' @ token @ [LF]"
| "canonical_line (Sig _) = []"
| "canonical_line Empty = []"

definition build_canonical_bytes :: "kv_enc_line list \<Rightarrow> u8 list" where
  "build_canonical_bytes lines = as_bytes (concat (map canonical_line lines))"

definition head_token_of :: "kv_enc_line \<Rightarrow> string option" where
  "head_token_of l = (case l of Head token \<Rightarrow> Some token | _ \<Rightarrow> None)"

definition wrap_token_of :: "kv_enc_line \<Rightarrow> string option" where
  "wrap_token_of l = (case l of Wrap token \<Rightarrow> Some token | _ \<Rightarrow> None)"

fun find_map :: "('a \<Rightarrow> 'b option) \<Rightarrow> 'a list \<Rightarrow> 'b option" where
  "find_map f [] = None"
| "find_map f (x # xs) = (case f x of Some y \<Rightarrow> Some y | None \<Rightarrow> find_map f xs)"

definition extract_kv_header_tokens :: "kv_enc_line list \<Rightarrow> (string \<times> string) res" where
  "extract_kv_header_tokens lines =
     res_bind (ok_or (plain_error Parse) (find_map head_token_of lines)) (\<lambda>head_token.
     res_bind (ok_or (plain_error Parse) (find_map wrap_token_of lines)) (\<lambda>wrap_token.
     Inr (head_token, wrap_token)))"

definition extract_recipients_from_wrap :: "kv_wrap \<Rightarrow> string list" where
  "extract_recipients_from_wrap wrap = map wi_recipient_handle (kw_wrap wrap)"

section \<open>Structure\<close>

record required_line =
  rl_matcher :: "kv_enc_line \<Rightarrow> bool"
  rl_missing_rule :: string
  rl_position_rule :: string

definition is_header :: "kv_enc_line \<Rightarrow> bool" where
  "is_header l = (case l of Header _ \<Rightarrow> True | _ \<Rightarrow> False)"
definition is_head :: "kv_enc_line \<Rightarrow> bool" where
  "is_head l = (case l of Head _ \<Rightarrow> True | _ \<Rightarrow> False)"
definition is_wrap :: "kv_enc_line \<Rightarrow> bool" where
  "is_wrap l = (case l of Wrap _ \<Rightarrow> True | _ \<Rightarrow> False)"
definition is_sig :: "kv_enc_line \<Rightarrow> bool" where
  "is_sig l = (case l of Sig _ \<Rightarrow> True | _ \<Rightarrow> False)"

definition leading_required_lines :: "required_line list" where
  "leading_required_lines =
     [\<lparr>rl_matcher = is_header, rl_missing_rule = ''E_SCHEMA_INVALID'',
       rl_position_rule = ''E_SCHEMA_INVALID''\<rparr>,
      \<lparr>rl_matcher = is_head, rl_missing_rule = ''E_SCHEMA_INVALID'',
       rl_position_rule = ''E_SCHEMA_INVALID''\<rparr>,
      \<lparr>rl_matcher = is_wrap, rl_missing_rule = ''E_WRAP_LINE_MISSING'',
       rl_position_rule = ''E_WRAP_LINE_POSITION''\<rparr>]"

definition required_sig_line :: required_line where
  "required_sig_line =
     \<lparr>rl_matcher = is_sig, rl_missing_rule = ''E_SIG_LINE_MISSING'',
      rl_position_rule = ''E_SCHEMA_INVALID''\<rparr>"

definition validate_required_line_count :: "kv_enc_line list \<Rightarrow> required_line \<Rightarrow> unit res" where
  "validate_required_line_count logical_lines required =
     (let count = length (filter (rl_matcher required) logical_lines) in
      if count = 0 then Inl (verification_error (rl_missing_rule required))
      else if count > 1 then Inl (verification_error ''E_SCHEMA_INVALID'')
      else Inr ())"

definition validate_required_line :: "kv_enc_line list \<Rightarrow> required_line \<Rightarrow> nat \<Rightarrow> unit res" where
  "validate_required_line logical_lines required expected_position =
     res_bind (validate_required_line_count logical_lines required) (\<lambda>_.
     if length logical_lines \<le> expected_position \<or>
        \<not> rl_matcher required (logical_lines ! expected_position)
     then Inl (verification_error (rl_position_rule required))
     else Inr ())"

definition validate_kv_header_lines :: "kv_enc_line list \<Rightarrow> unit res" where
  "validate_kv_header_lines logical_lines =
     res_bind (try_for_each
       (\<lambda>(position, required). validate_required_line logical_lines required position)
       (enumerate 0 leading_required_lines)) (\<lambda>_.
     validate_required_line logical_lines required_sig_line (length logical_lines - 1))"

fun data_after_sig_scan :: "bool \<Rightarrow> kv_enc_line list \<Rightarrow> unit res" where
  "data_after_sig_scan found_sig [] = Inr ()"
| "data_after_sig_scan found_sig (line # rest) =
     (case line of
        Sig _ \<Rightarrow> data_after_sig_scan True rest
      | Empty \<Rightarrow> data_after_sig_scan found_sig rest
      | _ \<Rightarrow> if found_sig then Inl (verification_error ''E_SCHEMA_INVALID'')
             else data_after_sig_scan found_sig rest)"

definition validate_no_data_after_sig :: "kv_enc_line list \<Rightarrow> unit res" where
  "validate_no_data_after_sig lines = data_after_sig_scan False lines"

fun kv_keys_scan :: "string list \<Rightarrow> kv_enc_line list \<Rightarrow> unit res" where
  "kv_keys_scan seen_keys [] = Inr ()"
| "kv_keys_scan seen_keys (line # rest) =
     (case line of
        KV key token \<Rightarrow>
          if \<not> is_valid_key_name key then Inl (verification_error ''E_SCHEMA_INVALID'')
          else if key \<in> set seen_keys then Inl (verification_error ''E_DUPLICATE_KEY'')
          else kv_keys_scan (key # seen_keys) rest
      | _ \<Rightarrow> kv_keys_scan seen_keys rest)"

definition validate_kv_keys :: "kv_enc_line list \<Rightarrow> unit res" where
  "validate_kv_keys lines = kv_keys_scan [] lines"

definition validate_kv_file_structure :: "kv_enc_line list \<Rightarrow> unit res" where
  "validate_kv_file_structure lines =
     (let logical_lines = filter (\<lambda>l. l \<noteq> Empty) lines in
      if logical_lines = [] then Inl (plain_error Parse)
      else
        res_bind (validate_kv_header_lines logical_lines) (\<lambda>_.
        res_bind (validate_no_data_after_sig lines) (\<lambda>_.
        validate_kv_keys lines)))"

section \<open>One spelling per line\<close>

fun line_text :: "kv_enc_line \<Rightarrow> string" where
  "line_text (Header version) = HEADER_LINE_PREFIX @ nat_show (unat (as_u32 version))"
| "line_text (Head token) = '':HEAD '' @ token"
| "line_text (Wrap token) = '':WRAP '' @ token"
| "line_text (KV key token) = key @ '' '' @ token"
| "line_text (Sig token) = '':SIG '' @ token"
| "line_text Empty = []"

fun line_ok :: "kv_enc_line \<Rightarrow> bool" where
  "line_ok (Header version) \<longleftrightarrow> version = KvEncVersion_V1"
| "line_ok (Head token) \<longleftrightarrow> token \<noteq> []"
| "line_ok (Wrap token) \<longleftrightarrow> token \<noteq> []"
| "line_ok (Sig token) \<longleftrightarrow> token \<noteq> []"
| "line_ok (KV key token) \<longleftrightarrow>
     CHR '' '' \<notin> set key \<and> (key \<noteq> [] \<longrightarrow> hd key \<noteq> CHR '':'' \<and> hd key \<noteq> CHR ''#'')"
| "line_ok Empty \<longleftrightarrow> True"

lemma version_text [simp]: "nat_show (unat (as_u32 KvEncVersion_V1)) = ''1''"
  by (simp add: KvEncVersion_V1_def char_of_def bit_Suc_0_iff)

lemma header_line_v1: "HEADER_LINE_V1 = line_text (Header KvEncVersion_V1)"
  by (simp add: HEADER_LINE_V1_def HEADER_LINE_PREFIX_def)

lemma parse_control_line_iff:
  "parse_control_line s = Inr l \<longleftrightarrow> line_ok l \<and> s = line_text l \<and> starts_with '':'' s"
proof -
  have pre: "HEADER_LINE_PREFIX = '':KAPSARO_KV ''" by (simp add: HEADER_LINE_PREFIX_def)
  show ?thesis
  proof
    assume "parse_control_line s = Inr l"
    then show "line_ok l \<and> s = line_text l \<and> starts_with '':'' s"
      by (auto simp: parse_control_line_def parse_header_line_def KvEncVersion_parse_def
          TOKEN_CONTROL_LINES_def parse_token_control_line_def strip_prefix_Some pre
          split: option.splits if_splits)
  next
    assume l: "line_ok l \<and> s = line_text l \<and> starts_with '':'' s"
    show "parse_control_line s = Inr l"
    proof (cases l)
      case (KV k t)
      with l have False by (cases k) auto
      then show ?thesis ..
    qed (use l in \<open>auto simp: parse_control_line_def parse_header_line_def KvEncVersion_parse_def
        TOKEN_CONTROL_LINES_def parse_token_control_line_def pre\<close>)
  qed
qed

lemma parse_line_iff: "parse_line s = Inr l \<longleftrightarrow> line_ok l \<and> s = line_text l"
proof (cases "s = [] \<or> starts_with ''#'' s \<or> starts_with '':'' s")
  case True
  have hash: "starts_with ''#'' (line_text l) \<Longrightarrow> \<not> line_ok l"
    by (cases l) (auto simp: HEADER_LINE_PREFIX_def starts_with_iff Cons_eq_append_conv append_eq_Cons_conv)
  have empty: "line_text l = [] \<longleftrightarrow> l = Empty"
    by (cases l) (auto simp: HEADER_LINE_PREFIX_def)
  from True consider "s = []" | "s \<noteq> []" "starts_with ''#'' s"
    | "s \<noteq> []" "\<not> starts_with ''#'' s" "starts_with '':'' s" by blast
  then show ?thesis
  proof cases
    case 1
    with empty show ?thesis by (auto simp: parse_line_def)
  next
    case 2
    with hash show ?thesis by (auto simp: parse_line_def)
  next
    case 3
    then show ?thesis by (simp add: parse_line_def parse_control_line_iff)
  qed
next
  case False
  have kv: "l = KV k t \<Longrightarrow> split_once CHR '' '' s = Some (k, t) \<longleftrightarrow> line_ok l \<and> s = line_text l" for k t
    using False by (cases k) (auto simp: split_once_Some)
  have other: "\<not> is_kv_line l \<Longrightarrow> \<not> (line_ok l \<and> s = line_text l)"
    using False by (cases l) (auto simp: is_kv_line_def HEADER_LINE_PREFIX_def)
  have eq: "parse_line s = Inr l \<longleftrightarrow> (\<exists>k t. split_once CHR '' '' s = Some (k, t) \<and> l = KV k t)"
    using False by (auto simp: parse_line_def split: option.splits)
  show ?thesis
  proof (cases "is_kv_line l")
    case True
    then obtain k t where "l = KV k t" by (cases l) (auto simp: is_kv_line_def)
    with eq kv show ?thesis by auto
  next
    case False
    then show ?thesis using eq other by (auto simp: is_kv_line_def)
  qed
qed

lemma parse_all_Inr:
  "parse_all content = Inr lines \<longleftrightarrow>
     length content \<le> MAX_KV_ENC_FILE_SIZE \<and> str_lines content = map line_text lines \<and>
     list_all line_ok lines \<and> length (filter is_kv_line lines) \<le> MAX_KV_KEY_LINES"
proof -
  have "list_all2 (\<lambda>s l. parse_line s = Inr l) ss ls \<longleftrightarrow> ss = map line_text ls \<and> list_all line_ok ls"
    for ss ls
    by (induction ss arbitrary: ls; case_tac ls) (auto simp: parse_line_iff)
  then have col: "collect_res parse_line (str_lines content) = Inr ls \<longleftrightarrow>
      str_lines content = map line_text ls \<and> list_all line_ok ls" for ls
    by (simp add: collect_res_Inr)
  show ?thesis
  proof (cases "collect_res parse_line (str_lines content)")
    case (Inl e)
    with col [of lines] show ?thesis by (auto simp: parse_all_def)
  next
    case (Inr ls)
    with col [of ls] col [of lines] show ?thesis by (auto simp: parse_all_def split: if_splits)
  qed
qed

lemma line_text_inj:
  assumes "line_ok a" "line_ok b" "line_text a = line_text b"
  shows "a = b"
proof -
  have "parse_line (line_text a) = Inr a" using assms(1) by (simp only: parse_line_iff)
  moreover have "parse_line (line_text a) = Inr b" using assms(2,3) by (simp only: parse_line_iff)
  ultimately show ?thesis by simp
qed

lemma unlines_inj:
  "list_all (\<lambda>l. LF \<notin> set l) xs \<Longrightarrow> list_all (\<lambda>l. LF \<notin> set l) ys \<Longrightarrow>
     unlines xs = unlines ys \<Longrightarrow> xs = ys"
proof (induction xs arbitrary: ys)
  case Nil
  then show ?case by (cases ys) auto
next
  case (Cons x xs)
  then obtain y ys' where ys: "ys = y # ys'" by (cases ys) auto
  have "split_once LF (unlines (x # xs)) = Some (x, unlines xs)"
    using Cons.prems(1) by simp
  moreover have "split_once LF (unlines (y # ys')) = Some (y, unlines ys')"
    using Cons.prems(2) by (simp add: ys)
  ultimately have "Some (x, unlines xs) = Some (y, unlines ys')"
    using Cons.prems(3) unfolding ys by (simp only:)
  then have xy: "x = y" and rest: "unlines xs = unlines ys'" by simp_all
  have "xs = ys'" using Cons.prems(1,2) by (intro Cons.IH [OF _ _ rest]) (simp_all add: ys)
  then show ?case by (simp only: ys xy)
qed

definition is_data_line :: "kv_enc_line \<Rightarrow> bool" where
  "is_data_line l \<longleftrightarrow> \<not> is_sig l \<and> l \<noteq> Empty"

lemma canonical_as_unlines:
  "concat (map canonical_line lines) = unlines (map line_text (filter is_data_line lines))"
proof (induction lines)
  case (Cons l lines)
  then show ?case by (cases l) (simp_all add: is_data_line_def is_sig_def)
qed simp

lemma canonical_bytes_inj:
  assumes "list_all line_ok ls" "list_all line_ok ms"
    and "list_all (\<lambda>l. LF \<notin> set (line_text l)) ls" "list_all (\<lambda>l. LF \<notin> set (line_text l)) ms"
    and "build_canonical_bytes ls = build_canonical_bytes ms"
  shows "filter is_data_line ls = filter is_data_line ms"
proof -
  have "map line_text (filter is_data_line ls) = map line_text (filter is_data_line ms)"
    using assms by (intro unlines_inj)
      (auto simp: build_canonical_bytes_def canonical_as_unlines list_all_iff)
  moreover have "inj_on line_text (set (filter is_data_line ls) \<union> set (filter is_data_line ms))"
    using assms(1,2) by (auto simp: list_all_iff intro!: inj_onI line_text_inj)
  ultimately show ?thesis by (simp only: inj_on_map_eq_map)
qed

section \<open>The shape of a file\<close>

definition kv_lines :: "(string \<times> string) list \<Rightarrow> kv_enc_line list" where
  "kv_lines kvs = map (\<lambda>(k, t). KV k t) kvs"

definition kv_shape :: "kv_enc_line list \<Rightarrow> bool" where
  "kv_shape lines \<longleftrightarrow>
     (\<exists>v h w kvs s. filter (\<lambda>l. l \<noteq> Empty) lines =
          [Header v, Head h, Wrap w] @ kv_lines kvs @ [Sig s] \<and>
        distinct (map fst kvs) \<and> (\<forall>k\<in>fst ` set kvs. is_valid_key_name k))"

lemma line_kinds [simp]:
  "is_header (Header v)" "\<not> is_header (Head t)" "\<not> is_header (Wrap t)" "\<not> is_header (KV k t)"
  "\<not> is_header (Sig t)" "\<not> is_header Empty"
  "\<not> is_head (Header v)" "is_head (Head t)" "\<not> is_head (Wrap t)" "\<not> is_head (KV k t)"
  "\<not> is_head (Sig t)" "\<not> is_head Empty"
  "\<not> is_wrap (Header v)" "\<not> is_wrap (Head t)" "is_wrap (Wrap t)" "\<not> is_wrap (KV k t)"
  "\<not> is_wrap (Sig t)" "\<not> is_wrap Empty"
  "\<not> is_sig (Header v)" "\<not> is_sig (Head t)" "\<not> is_sig (Wrap t)" "\<not> is_sig (KV k t)"
  "is_sig (Sig t)" "\<not> is_sig Empty"
  by (simp_all add: is_header_def is_head_def is_wrap_def is_sig_def)

lemma line_kind_iffs:
  "is_header l \<longleftrightarrow> (\<exists>v. l = Header v)" "is_head l \<longleftrightarrow> (\<exists>t. l = Head t)"
  "is_wrap l \<longleftrightarrow> (\<exists>t. l = Wrap t)" "is_sig l \<longleftrightarrow> (\<exists>t. l = Sig t)"
  by (cases l; simp)+

lemma kv_lines_simps [simp]:
  "kv_lines [] = []" "kv_lines ((k, t) # kvs) = KV k t # kv_lines kvs"
  by (simp_all add: kv_lines_def)

lemma filter_kv_lines [simp]:
  "filter is_header (kv_lines kvs) = []" "filter is_head (kv_lines kvs) = []"
  "filter is_wrap (kv_lines kvs) = []" "filter is_sig (kv_lines kvs) = []"
  "filter is_data_line (kv_lines kvs) = kv_lines kvs"
  by (induction kvs) (auto simp: is_data_line_def)

lemma required_line_iff:
  "validate_required_line L r pos = Inr u \<longleftrightarrow>
     length (filter (rl_matcher r) L) = 1 \<and> pos < length L \<and> rl_matcher r (L ! pos)"
proof -
  have "n = 1 \<longleftrightarrow> n \<noteq> 0 \<and> \<not> n > 1" for n :: nat by auto
  then show ?thesis
    unfolding validate_required_line_def validate_required_line_count_def Let_def
    by (simp only: res_bind_Inr) (auto split: if_splits)
qed

lemma header_lines_iff:
  "validate_kv_header_lines L = Inr u \<longleftrightarrow>
     validate_required_line L \<lparr>rl_matcher = is_header, rl_missing_rule = ''E_SCHEMA_INVALID'',
       rl_position_rule = ''E_SCHEMA_INVALID''\<rparr> 0 = Inr () \<and>
     validate_required_line L \<lparr>rl_matcher = is_head, rl_missing_rule = ''E_SCHEMA_INVALID'',
       rl_position_rule = ''E_SCHEMA_INVALID''\<rparr> 1 = Inr () \<and>
     validate_required_line L \<lparr>rl_matcher = is_wrap, rl_missing_rule = ''E_WRAP_LINE_MISSING'',
       rl_position_rule = ''E_WRAP_LINE_POSITION''\<rparr> 2 = Inr () \<and>
     validate_required_line L required_sig_line (length L - 1) = Inr ()"
  by (auto simp: validate_kv_header_lines_def leading_required_lines_def numeral_2_eq_2)

lemma header_lines_shape:
  assumes "Empty \<notin> set L"
  shows "validate_kv_header_lines L = Inr () \<longleftrightarrow>
    (\<exists>v h w kvs s. L = [Header v, Head h, Wrap w] @ kv_lines kvs @ [Sig s])" (is "?L \<longleftrightarrow> ?R")
proof
  assume ?L
  then have c: "length (filter is_header L) = 1" "length (filter is_head L) = 1"
      "length (filter is_wrap L) = 1" "length (filter is_sig L) = 1"
    and at: "is_header (L ! 0)" "is_head (L ! 1)" "is_wrap (L ! 2)" "is_sig (L ! (length L - 1))"
      "2 < length L"
    by (simp_all add: header_lines_iff required_line_iff required_sig_line_def)
  from at(5) obtain a b d rest where L: "L = a # b # d # rest"
    by (cases L; cases "tl L"; cases "tl (tl L)") auto
  from at L have "rest \<noteq> []" by (auto simp: line_kind_iffs)
  then obtain mid s where rest: "rest = mid @ [s]" by (cases rest rule: rev_cases) auto
  have kinds: "is_header a" "is_head b" "is_wrap d" "is_sig s" using at by (simp_all add: L rest)
  then have mid: "filter is_header mid = []" "filter is_head mid = []" "filter is_wrap mid = []"
      "filter is_sig mid = []"
    using c by (auto simp: L rest line_kind_iffs)
  have "\<exists>kt. l = (\<lambda>(k, t). KV k t) kt" if "l \<in> set mid" for l
  proof -
    have "\<not> is_header l" "\<not> is_head l" "\<not> is_wrap l" "\<not> is_sig l"
      using that mid by (simp_all only: filter_empty_conv) blast+
    moreover have "l \<noteq> Empty" using that assms by (auto simp: L rest)
    ultimately show ?thesis by (cases l) auto
  qed
  then obtain kvs where "mid = kv_lines kvs"
    unfolding kv_lines_def by (metis ex_map_conv)
  with kinds show ?R by (auto simp: L rest line_kind_iffs)
next
  assume ?R
  then show ?L
    by (auto simp: header_lines_iff required_line_iff required_sig_line_def nth_append)
qed

lemma data_after_sig_skip_empty:
  "data_after_sig_scan b lines = data_after_sig_scan b (filter (\<lambda>l. l \<noteq> Empty) lines)"
  by (induction b lines rule: data_after_sig_scan.induct) (auto split: kv_enc_line.split)

lemma kv_keys_skip_empty:
  "kv_keys_scan seen lines = kv_keys_scan seen (filter (\<lambda>l. l \<noteq> Empty) lines)"
  by (induction seen lines rule: kv_keys_scan.induct) (auto split: kv_enc_line.split)

lemma data_after_sig_kv_lines:
  "data_after_sig_scan False (kv_lines kvs @ [Sig s]) = Inr ()"
  by (induction kvs) auto

lemma kv_keys_scan_kv_lines:
  "kv_keys_scan seen (kv_lines kvs @ [Sig s]) = Inr u \<longleftrightarrow>
     distinct (map fst kvs) \<and> fst ` set kvs \<inter> set seen = {} \<and>
     (\<forall>k\<in>fst ` set kvs. is_valid_key_name k)"
proof (induction kvs arbitrary: seen)
  case (Cons kt kvs)
  obtain k t where kt: "kt = (k, t)" by (cases kt)
  have "kv_keys_scan seen (kv_lines (kt # kvs) @ [Sig s]) = Inr u \<longleftrightarrow>
      is_valid_key_name k \<and> k \<notin> set seen \<and>
      kv_keys_scan (k # seen) (kv_lines kvs @ [Sig s]) = Inr u"
    by (simp add: kt)
  then show ?case unfolding Cons.IH by (auto simp: kt)
qed simp

lemma structure_iff_shape: "validate_kv_file_structure lines = Inr () \<longleftrightarrow> kv_shape lines"
proof -
  let ?L = "filter (\<lambda>l. l \<noteq> Empty) lines"
  have "validate_kv_file_structure lines = Inr () \<longleftrightarrow>
      ?L \<noteq> [] \<and> validate_kv_header_lines ?L = Inr () \<and> data_after_sig_scan False ?L = Inr () \<and>
      kv_keys_scan [] ?L = Inr ()"
    using data_after_sig_skip_empty [of False lines] kv_keys_skip_empty [of "[]" lines]
    by (simp add: validate_kv_file_structure_def validate_no_data_after_sig_def
        validate_kv_keys_def Let_def)
  also have "\<dots> \<longleftrightarrow> kv_shape lines"
    unfolding kv_shape_def
    by (subst header_lines_shape) (auto simp: data_after_sig_kv_lines kv_keys_scan_kv_lines)
  finally show ?thesis .
qed

section \<open>Writing and reading\<close>

definition kv_file_text :: "string \<Rightarrow> string \<Rightarrow> (string \<times> string) list \<Rightarrow> string \<Rightarrow> string" where
  "kv_file_text h w kvs s = build_unsigned_kv_document h w kvs @ '':SIG '' @ s @ [LF]"

definition token_ok :: "string \<Rightarrow> bool" where
  "token_ok t \<longleftrightarrow> t \<noteq> [] \<and> plain_line t"

definition file_lines :: "string \<Rightarrow> string \<Rightarrow> (string \<times> string) list \<Rightarrow> string \<Rightarrow> kv_enc_line list" where
  "file_lines h w kvs s = [Header KvEncVersion_V1, Head h, Wrap w] @ kv_lines kvs @ [Sig s]"

lemma unlines_kv_lines:
  "unlines (map line_text (kv_lines kvs)) = concat (map (\<lambda>(k, t). k @ '' '' @ t @ [LF]) kvs)"
  by (induction kvs) auto

lemma kv_file_text_unlines: "kv_file_text h w kvs s = unlines (map line_text (file_lines h w kvs s))"
  by (simp add: kv_file_text_def build_unsigned_kv_document_def file_lines_def header_line_v1
      unlines_append unlines_kv_lines)

lemma canonical_file_lines:
  "build_canonical_bytes (file_lines h w kvs s) = as_bytes (build_unsigned_kv_document h w kvs)"
  unfolding build_canonical_bytes_def canonical_as_unlines
  by (simp add: file_lines_def build_unsigned_kv_document_def header_line_v1 unlines_append
      unlines_kv_lines is_data_line_def flip: canonical_as_unlines)

lemma valid_key_line_ok: "is_valid_key_name k \<Longrightarrow> line_ok (KV k t)"
  using valid_key_not [of k] valid_key_not [of k "hd k"] by auto

lemma valid_key_plain: "is_valid_key_name k \<Longrightarrow> plain_line k"
  using valid_key_not by (auto simp: plain_line_def)

lemma parse_file_text:
  assumes "token_ok h" "token_ok w" "token_ok s"
    and kvs: "\<forall>(k, t)\<in>set kvs. is_valid_key_name k \<and> plain_line t"
    and size: "length (kv_file_text h w kvs s) \<le> MAX_KV_ENC_FILE_SIZE" "length kvs \<le> MAX_KV_KEY_LINES"
  shows "parse_all (kv_file_text h w kvs s) = Inr (file_lines h w kvs s)"
proof -
  have kvok: "list_all line_ok (kv_lines kvs)" "list_all plain_line (map line_text (kv_lines kvs))"
    using kvs by (auto simp: kv_lines_def list_all_iff valid_key_line_ok valid_key_plain token_ok_def
        simp del: line_ok.simps)
  have "length (filter is_kv_line (kv_lines kvs)) = length kvs"
    by (induction kvs) (auto simp: is_kv_line_def)
  with size(2) have count: "length (filter is_kv_line (file_lines h w kvs s)) \<le> MAX_KV_KEY_LINES"
    by (simp add: file_lines_def is_kv_line_def)
  have "list_all plain_line (map line_text (file_lines h w kvs s))"
    using kvok assms(1-3) by (simp add: file_lines_def token_ok_def HEADER_LINE_PREFIX_def)
  then have "str_lines (kv_file_text h w kvs s) = map line_text (file_lines h w kvs s)"
    by (simp add: kv_file_text_unlines str_lines_unlines)
  with size(1) count kvok(1) assms(1-3) show ?thesis
    by (simp add: parse_all_Inr file_lines_def token_ok_def)
qed

lemma kv_shape_file_lines:
  "kv_shape (file_lines h w kvs s) \<longleftrightarrow>
     distinct (map fst kvs) \<and> (\<forall>k\<in>fst ` set kvs. is_valid_key_name k)"
proof -
  have ne: "filter (\<lambda>l. l \<noteq> Empty) (kv_lines kvs) = kv_lines kvs" for kvs
    by (induction kvs) auto
  have inj: "kv_lines a = kv_lines b \<longleftrightarrow> a = b" for a b
    unfolding kv_lines_def by (intro inj_map_eq_map injI) auto
  show ?thesis by (auto simp: kv_shape_def file_lines_def ne inj)
qed

section \<open>Properties\<close>

text \<open>
  The structure check accepts a list of lines exactly when, empty lines aside, it is one
  header, one head, one wrap, the entries and one signature, in this order, with distinct valid
  keys.
\<close>

theorem kv_structure_is_shape: "validate_kv_file_structure lines = Inr () \<longleftrightarrow> kv_shape lines"
  by (rule structure_iff_shape)

lemma parsed_lines_no_LF: "parse_all c = Inr ls \<Longrightarrow> list_all (\<lambda>l. LF \<notin> set (line_text l)) ls"
proof -
  assume "parse_all c = Inr ls"
  then have "str_lines c = map line_text ls" by (simp add: parse_all_Inr)
  then have "line_text l \<in> set (str_lines c)" if "l \<in> set ls" for l using that by auto
  then show ?thesis by (auto simp: list_all_iff dest: str_lines_no_LF)
qed

text \<open>
  C15. The signed bytes of a kv-enc file determine all of it but the signature: two texts that
  parse and have the same canonical bytes have the same header, head, wrap and entry lines in the
  same order, so no line can be moved between key and token, dropped or added under a signature.
\<close>

theorem kv_signed_bytes_determine_lines:
  assumes "parse_all a = Inr ls" and "parse_all b = Inr ms"
    and "build_canonical_bytes ls = build_canonical_bytes ms"
  shows "filter is_data_line ls = filter is_data_line ms"
  using assms parsed_lines_no_LF
  by (intro canonical_bytes_inj) (auto simp: parse_all_Inr)

lemma kv_signed_bytes_determine_lines_witness:
  "filter is_data_line [KV ''K'' ''t''] = filter is_data_line [Empty, KV ''K'' ''t'', Sig ''s'']"
proof (rule kv_signed_bytes_determine_lines)
  show "parse_all ''K t'' = Inr [KV ''K'' ''t'']"
    by (simp add: parse_all_def parse_line_def limit_defs)
  show "parse_all (LF # ''K t'' @ [LF] @ '':SIG s'') = Inr [Empty, KV ''K'' ''t'', Sig ''s'']"
    by (simp add: parse_all_def parse_line_def limit_defs parse_control_line_def
        HEADER_LINE_PREFIX_def TOKEN_CONTROL_LINES_def parse_token_control_line_def)
  show "build_canonical_bytes [KV ''K'' ''t''] = build_canonical_bytes [Empty, KV ''K'' ''t'', Sig ''s'']"
    by (simp add: build_canonical_bytes_def)
qed

end
