(* ===== verification/Kv_Document.thy ===== *)
theory Kv_Document
  imports Kv_Text Json_Documents
begin

text \<open>
  A kv-enc document as the crate holds it: validation of its tokens
  (\<open>format/kv/document/structure.rs\<close>), parsing (\<open>parse.rs\<close>), the unsigned draft an operation
  edits (\<open>draft.rs\<close>) and its builder (\<open>builder.rs\<close>). The locale \<open>entry_store\<close> is the contract
  the entry operations of a draft have with their callers; the round trip shows that a draft,
  once written and signed, reads back as itself and that the signature covers what was written.

  \<open>TokenCodec\<close> has the single value \<open>JsonJcs\<close> and is left out of the state.
\<close>

section \<open>Tokens\<close>

definition validate_entry_token :: "json_lib \<Rightarrow> string \<Rightarrow> string \<Rightarrow> kv_enc_entry res" where
  "validate_entry_token J key token =
     res_bind (map_err (\<lambda>_. plain_error Parse) (parse_kv_entry_token J token)) (\<lambda>entry.
     Inr \<lparr>ke_key = key, ke_token = token, ke_value = entry\<rparr>)"

definition validate_wrap_token :: "json_lib \<Rightarrow> string \<Rightarrow> unit res" where
  "validate_wrap_token J token = res_bind (parse_kv_wrap_token J token) (\<lambda>_. Inr ())"

fun kv_tokens_scan :: "json_lib \<Rightarrow> kv_enc_entry list \<Rightarrow> artifact_signature option \<Rightarrow>
  kv_enc_line list \<Rightarrow> (kv_enc_entry list \<times> artifact_signature option) res" where
  "kv_tokens_scan J entries signature [] = Inr (entries, signature)"
| "kv_tokens_scan J entries signature (line # rest) =
     (case line of
        Wrap token \<Rightarrow> res_bind (validate_wrap_token J token) (\<lambda>_.
          kv_tokens_scan J entries signature rest)
      | KV key token \<Rightarrow> res_bind (validate_entry_token J key token) (\<lambda>entry.
          kv_tokens_scan J (entries @ [entry]) signature rest)
      | Sig token \<Rightarrow> res_bind (parse_kv_signature_token J token) (\<lambda>sg.
          kv_tokens_scan J entries (Some sg) rest)
      | _ \<Rightarrow> kv_tokens_scan J entries signature rest)"

definition validate_kv_tokens ::
  "json_lib \<Rightarrow> kv_enc_line list \<Rightarrow> (kv_enc_entry list \<times> artifact_signature) res" where
  "validate_kv_tokens J lines =
     res_bind (kv_tokens_scan J [] None lines) (\<lambda>(entries, signature).
     res_bind (ok_or (plain_error Crypto) signature) (\<lambda>sg. Inr (entries, sg)))"

definition parse_kv_document :: "json_lib \<Rightarrow> string \<Rightarrow> kv_enc_document res" where
  "parse_kv_document J content =
     res_bind (parse_all content) (\<lambda>lines.
     res_bind (validate_kv_file_structure lines) (\<lambda>_.
     res_bind (validate_kv_tokens J lines) (\<lambda>(entries, signature).
     res_bind (extract_kv_header_tokens lines) (\<lambda>(head_token, wrap_token).
     res_bind (parse_kv_head_token J head_token) (\<lambda>head.
     res_bind (parse_kv_wrap_token J wrap_token) (\<lambda>wrap.
     Inr \<lparr>kvd_lines = lines, kvd_head = head, kvd_wrap = wrap, kvd_wrap_token = wrap_token,
          kvd_entries = entries, kvd_signature = signature\<rparr>))))))"

section \<open>Drafts\<close>

datatype kv_document_entry = Preserved string string kv_entry_value | Encoded string string

fun de_key :: "kv_document_entry \<Rightarrow> string" where
  "de_key (Preserved key _ _) = key"
| "de_key (Encoded key _) = key"

fun de_token :: "kv_document_entry \<Rightarrow> string" where
  "de_token (Preserved _ token _) = token"
| "de_token (Encoded _ token) = token"

record wrap_source =
  ws_data :: kv_wrap
  ws_token :: "string option"

definition ws_decoded :: "kv_wrap \<Rightarrow> wrap_source" where
  "ws_decoded data = \<lparr>ws_data = data, ws_token = None\<rparr>"

definition ws_raw :: "kv_wrap \<Rightarrow> string \<Rightarrow> wrap_source" where
  "ws_raw data token = \<lparr>ws_data = data, ws_token = Some token\<rparr>"

text \<open>What a caller of \<open>data_mut\<close> does to the data is the function \<open>f\<close>.\<close>

definition ws_data_mut :: "(kv_wrap \<Rightarrow> kv_wrap) \<Rightarrow> wrap_source \<Rightarrow> wrap_source" where
  "ws_data_mut f ws = \<lparr>ws_data = f (ws_data ws), ws_token = None\<rparr>"

record kv_draft =
  dr_head :: kv_header
  dr_wrap :: wrap_source
  dr_entries :: "kv_document_entry list"

fun replace_known_entries :: "(string \<times> string) list \<Rightarrow> string list \<Rightarrow> kv_document_entry list \<Rightarrow>
  string list \<times> kv_document_entry list" where
  "replace_known_entries entries found [] = (found, [])"
| "replace_known_entries entries found (entry # rest) =
     (case map_of entries (de_key entry) of
        Some new_token \<Rightarrow>
          (let (found', es) = replace_known_entries entries (de_key entry # found) rest in
           (found', Encoded (de_key entry) new_token # es))
      | None \<Rightarrow>
          (let (found', es) = replace_known_entries entries found rest in (found', entry # es)))"

definition set_entry_list ::
  "(string \<times> string) list \<Rightarrow> kv_document_entry list \<Rightarrow> kv_document_entry list" where
  "set_entry_list entries es =
     (let (found, replaced) = replace_known_entries entries [] es;
          new_keys = sort_key fst (filter (\<lambda>(key, _). key \<notin> set found) entries) in
      replaced @ map (\<lambda>(key, token). Encoded key token) new_keys)"

definition set_entries :: "(string \<times> string) list \<Rightarrow> kv_draft \<Rightarrow> kv_draft" where
  "set_entries entries d = d\<lparr>dr_entries := set_entry_list entries (dr_entries d)\<rparr>"

definition unset_entry :: "string \<Rightarrow> kv_draft \<Rightarrow> kv_draft" where
  "unset_entry key d = d\<lparr>dr_entries := filter (\<lambda>entry. de_key entry \<noteq> key) (dr_entries d)\<rparr>"

definition set_updated_at :: "string \<Rightarrow> kv_draft \<Rightarrow> kv_draft" where
  "set_updated_at updated_at d = d\<lparr>dr_head := (dr_head d)\<lparr>kvh_updated_at := updated_at\<rparr>\<rparr>"

definition set_wrap :: "kv_wrap \<Rightarrow> kv_draft \<Rightarrow> kv_draft" where
  "set_wrap wrap d = d\<lparr>dr_wrap := ws_decoded wrap\<rparr>"

definition wrap_mut :: "(kv_wrap \<Rightarrow> kv_wrap) \<Rightarrow> kv_draft \<Rightarrow> kv_draft" where
  "wrap_mut f d = d\<lparr>dr_wrap := ws_data_mut f (dr_wrap d)\<rparr>"

definition clear_disclosed_entry :: "json_lib \<Rightarrow> kv_document_entry \<Rightarrow> kv_document_entry res" where
  "clear_disclosed_entry J entry =
     (case entry of
        Preserved key token value \<Rightarrow>
          if ev_disclosed value then
            res_bind (token_encode J (se_kv_entry (value\<lparr>ev_disclosed := False\<rparr>))) (\<lambda>new_token.
            Inr (Encoded key new_token))
          else Inr entry
      | Encoded _ _ \<Rightarrow> Inr entry)"

definition clear_disclosed_flags :: "json_lib \<Rightarrow> kv_draft \<Rightarrow> kv_draft res" where
  "clear_disclosed_flags J d =
     res_map (\<lambda>es. d\<lparr>dr_entries := es\<rparr>) (collect_res (clear_disclosed_entry J) (dr_entries d))"

definition resolve_wrap_token :: "json_lib \<Rightarrow> kv_draft \<Rightarrow> string res" where
  "resolve_wrap_token J d =
     (case ws_token (dr_wrap d) of
        Some token \<Rightarrow> Inr token
      | None \<Rightarrow> token_encode J (se_kv_wrap (ws_data (dr_wrap d))))"

definition serialize_unsigned :: "json_lib \<Rightarrow> kv_draft \<Rightarrow> string res" where
  "serialize_unsigned J d =
     res_bind (token_encode J (se_kv_header J (dr_head d))) (\<lambda>head_token.
     res_bind (resolve_wrap_token J d) (\<lambda>wrap_token.
     Inr (build_unsigned_kv_document head_token wrap_token
       (map (\<lambda>entry. (de_key entry, de_token entry)) (dr_entries d)))))"

section \<open>Building drafts\<close>

definition resolve_wrap_source :: "json_lib \<Rightarrow> kv_wrap option \<Rightarrow> string \<Rightarrow> wrap_source res" where
  "resolve_wrap_source J wrap token =
     (case wrap of
        Some w \<Rightarrow> Inr (ws_decoded w)
      | None \<Rightarrow> res_bind (parse_kv_wrap_token J token) (\<lambda>data. Inr (ws_raw data token)))"

definition wrap_source_from_lines ::
  "json_lib \<Rightarrow> kv_wrap option \<Rightarrow> kv_enc_line list \<Rightarrow> wrap_source res" where
  "wrap_source_from_lines J wrap lines =
     res_bind (ok_or (plain_error Parse) (find_map wrap_token_of lines)) (resolve_wrap_source J wrap)"

definition builder_new :: "kv_header \<Rightarrow> kv_wrap \<Rightarrow> kv_draft" where
  "builder_new head wrap = \<lparr>dr_head = head, dr_wrap = ws_decoded wrap, dr_entries = []\<rparr>"

definition builder_from_document ::
  "json_lib \<Rightarrow> kv_header \<Rightarrow> kv_wrap option \<Rightarrow> kv_enc_document \<Rightarrow> kv_draft res" where
  "builder_from_document J head wrap doc =
     res_bind (wrap_source_from_lines J wrap (kvd_lines doc)) (\<lambda>wrap_src.
     Inr \<lparr>dr_head = head, dr_wrap = wrap_src,
          dr_entries = map (\<lambda>e. Preserved (ke_key e) (ke_token e) (ke_value e)) (kvd_entries doc)\<rparr>)"

definition builder_with_entries :: "(string \<times> string) list \<Rightarrow> kv_draft \<Rightarrow> kv_draft" where
  "builder_with_entries entries d =
     d\<lparr>dr_entries := dr_entries d @ map (\<lambda>(key, token). Encoded key token) entries\<rparr>"

section \<open>The contract of the entry operations\<close>

locale entry_store =
  fixes lookup :: "'s \<Rightarrow> string \<rightharpoonup> string"
    and assign :: "(string \<times> string) list \<Rightarrow> 's \<Rightarrow> 's"
    and remove :: "string \<Rightarrow> 's \<Rightarrow> 's"
    and inv :: "'s \<Rightarrow> bool"
  assumes lookup_assign: "inv s \<Longrightarrow> distinct (map fst es) \<Longrightarrow> lookup (assign es s) = lookup s ++ map_of es"
    and lookup_remove: "inv s \<Longrightarrow> lookup (remove k s) = (lookup s)(k := None)"
    and inv_assign: "inv s \<Longrightarrow> distinct (map fst es) \<Longrightarrow> inv (assign es s)"
    and inv_remove: "inv s \<Longrightarrow> inv (remove k s)"
begin

lemma assign_get: "inv s \<Longrightarrow> distinct (map fst es) \<Longrightarrow> (k, t) \<in> set es \<Longrightarrow>
    lookup (assign es s) k = Some t"
  by (simp add: lookup_assign map_add_Some_iff)

lemma assign_other: "inv s \<Longrightarrow> distinct (map fst es) \<Longrightarrow> k \<notin> fst ` set es \<Longrightarrow>
    lookup (assign es s) k = lookup s k"
  by (simp add: lookup_assign map_add_dom_app_simps(3) dom_map_of_conv_image_fst)

lemma remove_get: "inv s \<Longrightarrow> lookup (remove k s) k = None"
  by (simp add: lookup_remove)

lemma assign_remove_same:
  "inv s \<Longrightarrow> lookup s k = None \<Longrightarrow> lookup (remove k (assign [(k, t)] s)) = lookup s"
  by (auto simp: lookup_remove lookup_assign inv_assign)

lemma assign_keys: "inv s \<Longrightarrow> distinct (map fst es) \<Longrightarrow>
    dom (lookup (assign es s)) = dom (lookup s) \<union> fst ` set es"
  by (simp add: lookup_assign dom_map_of_conv_image_fst Un_commute)

end

definition entry_tokens :: "kv_document_entry list \<Rightarrow> (string \<times> string) list" where
  "entry_tokens es = map (\<lambda>e. (de_key e, de_token e)) es"

definition draft_lookup :: "kv_draft \<Rightarrow> string \<rightharpoonup> string" where
  "draft_lookup d = map_of (entry_tokens (dr_entries d))"

definition draft_inv :: "kv_draft \<Rightarrow> bool" where
  "draft_inv d \<longleftrightarrow> distinct (map de_key (dr_entries d))"

lemma replace_known_entries_eq:
  "replace_known_entries entries found es =
     (rev (filter (\<lambda>k. k \<in> fst ` set entries) (map de_key es)) @ found,
      map (\<lambda>e. case map_of entries (de_key e) of Some t \<Rightarrow> Encoded (de_key e) t | None \<Rightarrow> e) es)"
proof (induction entries found es rule: replace_known_entries.induct)
  case (2 entries found entry rest)
  show ?case
  proof (cases "map_of entries (de_key entry)")
    case None
    then have "de_key entry \<notin> fst ` set entries" by (simp add: map_of_eq_None_iff)
    with None 2 show ?thesis by simp
  next
    case (Some t)
    then have "de_key entry \<in> fst ` set entries" by (force dest: map_of_SomeD)
    with Some 2 show ?thesis by simp
  qed
qed simp

lemma set_entry_list_eq:
  "set_entry_list entries es =
     map (\<lambda>e. case map_of entries (de_key e) of Some t \<Rightarrow> Encoded (de_key e) t | None \<Rightarrow> e) es @
     map (\<lambda>(k, t). Encoded k t) (sort_key fst (filter (\<lambda>(k, _). k \<notin> de_key ` set es) entries))"
proof -
  have "filter (\<lambda>(k, _). k \<notin> set (rev (filter (\<lambda>k. k \<in> fst ` set entries) (map de_key es)) @ [])) entries
      = filter (\<lambda>(k, _). k \<notin> de_key ` set es) entries"
    by (rule filter_cong) (auto simp: rev_image_eqI)
  then show ?thesis by (simp add: set_entry_list_def replace_known_entries_eq)
qed

lemma entry_tokens_append [simp]: "entry_tokens (xs @ ys) = entry_tokens xs @ entry_tokens ys"
  by (simp add: entry_tokens_def)

lemma entry_tokens_encoded [simp]: "entry_tokens (map (\<lambda>(k, t). Encoded k t) ps) = ps"
  by (induction ps) (auto simp: entry_tokens_def)

lemma de_key_encoded [simp]: "map (de_key \<circ> (\<lambda>(k, t). Encoded k t)) ps = map fst ps"
  by (induction ps) auto

lemma keys_replaced [simp]:
  "map (de_key \<circ> (\<lambda>e. case m (de_key e) of Some t \<Rightarrow> Encoded (de_key e) t | None \<Rightarrow> e)) es = map de_key es"
  by (induction es) (auto split: option.split)

lemma map_of_replaced:
  "map_of (entry_tokens (map (\<lambda>e. case m (de_key e) of Some t \<Rightarrow> Encoded (de_key e) t | None \<Rightarrow> e) es)) k =
     (if k \<in> de_key ` set es then (case m k of Some t \<Rightarrow> Some t | None \<Rightarrow> map_of (entry_tokens es) k)
      else None)"
  by (induction es) (auto simp: entry_tokens_def split: option.split)

lemma map_of_sorted: "distinct (map fst ps) \<Longrightarrow> map_of (sort_key fst ps) = map_of ps"
  by (subst map_of_inject_set) (simp_all add: distinct_map)

lemma distinct_sorted_keys:
  "distinct (map fst ps) \<Longrightarrow> distinct (map fst (sort_key fst (filter P ps)))"
  by (auto simp: distinct_map intro: inj_on_subset)

lemma draft_lookup_set:
  assumes "draft_inv d" "distinct (map fst es)"
  shows "draft_lookup (set_entries es d) = draft_lookup d ++ map_of es"
proof
  fix k
  let ?new = "filter (\<lambda>(k, _). k \<notin> de_key ` set (dr_entries d)) es"
  have new: "map_of (sort_key fst ?new) k = (if k \<in> de_key ` set (dr_entries d) then None else map_of es k)"
  proof -
    have "distinct (map fst ?new)" using assms(2) by (simp add: distinct_map_filter)
    then have "map_of (sort_key fst ?new) k = map_of ?new k" by (simp add: map_of_sorted)
    also have "\<dots> = (if k \<in> de_key ` set (dr_entries d) then None else map_of es k)"
      by (induction es) auto
    finally show ?thesis .
  qed
  have old: "k \<notin> de_key ` set (dr_entries d) \<Longrightarrow> map_of (entry_tokens (dr_entries d)) k = None"
    by (auto simp: map_of_eq_None_iff entry_tokens_def)
  have "draft_lookup (set_entries es d) k = (map_of (sort_key fst ?new) ++
      map_of (entry_tokens (map (\<lambda>e. case map_of es (de_key e) of Some t \<Rightarrow> Encoded (de_key e) t
         | None \<Rightarrow> e) (dr_entries d)))) k"
    by (simp add: draft_lookup_def set_entries_def set_entry_list_eq)
  also have "\<dots> = (draft_lookup d ++ map_of es) k"
    using old by (auto simp: map_add_def map_of_replaced new draft_lookup_def split: option.split)
  finally show "draft_lookup (set_entries es d) k = (draft_lookup d ++ map_of es) k" .
qed

lemma draft_inv_set:
  assumes "draft_inv d" "distinct (map fst es)"
  shows "draft_inv (set_entries es d)"
proof -
  let ?new = "filter (\<lambda>(k, _). k \<notin> de_key ` set (dr_entries d)) es"
  have "map de_key (dr_entries (set_entries es d)) = map de_key (dr_entries d) @ map fst (sort_key fst ?new)"
    by (simp add: set_entries_def set_entry_list_eq)
  moreover have "distinct (map fst (sort_key fst ?new))" using assms(2) by (rule distinct_sorted_keys)
  ultimately show ?thesis using assms(1) by (auto simp: draft_inv_def)
qed

lemma draft_lookup_unset: "draft_lookup (unset_entry k d) = (draft_lookup d)(k := None)"
proof -
  have "map_of (entry_tokens (filter (\<lambda>e. de_key e \<noteq> k) es)) = (map_of (entry_tokens es))(k := None)" for es
    by (induction es) (auto simp: entry_tokens_def fun_eq_iff)
  then show ?thesis by (simp add: draft_lookup_def unset_entry_def)
qed

lemma draft_inv_unset: "draft_inv d \<Longrightarrow> draft_inv (unset_entry k d)"
  by (simp add: draft_inv_def unset_entry_def distinct_map_filter)

interpretation draft: entry_store draft_lookup set_entries unset_entry draft_inv
  by unfold_locales (simp_all add: draft_lookup_set draft_lookup_unset draft_inv_set draft_inv_unset)

text \<open>
  C18. Writing entries into a draft gives exactly the update of its key-to-token map, keeps the
  keys distinct and leaves every entry that is not written where and as it was; the new keys
  follow in key order.
\<close>

theorem draft_set_entries:
  assumes "draft_inv d" and "distinct (map fst es)"
  shows "draft_lookup (set_entries es d) = draft_lookup d ++ map_of es \<and>
    draft_inv (set_entries es d) \<and>
    map de_key (dr_entries (set_entries es d)) =
      map de_key (dr_entries d) @ sort (filter (\<lambda>k. k \<notin> de_key ` set (dr_entries d)) (map fst es)) \<and>
    (\<forall>i < length (dr_entries d). de_key (dr_entries d ! i) \<notin> fst ` set es \<longrightarrow>
       dr_entries (set_entries es d) ! i = dr_entries d ! i)"
proof -
  let ?new = "filter (\<lambda>(k, _). k \<notin> de_key ` set (dr_entries d)) es"
  have keys: "map fst (sort_key fst ?new) =
      sort (filter (\<lambda>k. k \<notin> de_key ` set (dr_entries d)) (map fst es))"
    by (simp add: map_sort_key filter_map comp_def case_prod_unfold)
  have "map de_key (dr_entries (set_entries es d)) =
      map de_key (dr_entries d) @ sort (filter (\<lambda>k. k \<notin> de_key ` set (dr_entries d)) (map fst es))"
    by (simp add: set_entries_def set_entry_list_eq keys)
  moreover have "dr_entries (set_entries es d) ! i = dr_entries d ! i"
    if "i < length (dr_entries d)" "de_key (dr_entries d ! i) \<notin> fst ` set es" for i
    using that by (simp add: set_entries_def set_entry_list_eq nth_append map_of_eq_None_iff [symmetric]
        split: option.split)
  ultimately show ?thesis
    using draft.lookup_assign [OF assms] draft.inv_assign [OF assms] by blast
qed

definition sample_header :: kv_header where
  "sample_header = \<lparr>kvh_sid = 1, kvh_aead = AEAD_XCHACHA20_POLY1305,
     kvh_created_at = ''2026-01-01T00:00:00Z'', kvh_updated_at = ''2026-01-01T00:00:00Z''\<rparr>"

definition sample_wrap :: kv_wrap where
  "sample_wrap = \<lparr>kw_wrap = [], kw_removed_recipients = None\<rparr>"

definition sample_draft :: kv_draft where
  "sample_draft = builder_with_entries [(''B'', ''t0'')] (builder_new sample_header sample_wrap)"

lemma draft_set_entries_witness:
  "draft_lookup (set_entries [(''B'', ''t2''), (''A'', ''t1'')] sample_draft) ''A'' = Some ''t1'' \<and>
   map de_key (dr_entries (set_entries [(''B'', ''t2''), (''A'', ''t1'')] sample_draft)) = [''B'', ''A'']"
  using draft_set_entries [of sample_draft "[(''B'', ''t2''), (''A'', ''t1'')]"]
  by (simp add: sample_draft_def draft_inv_def builder_with_entries_def builder_new_def)

section \<open>Round trip\<close>

definition entry_of :: "string \<times> string \<Rightarrow> kv_entry_value \<Rightarrow> kv_enc_entry" where
  "entry_of kt v = \<lparr>ke_key = fst kt, ke_token = snd kt, ke_value = v\<rparr>"

lemma kv_tokens_scan_lines:
  assumes "list_all2 (\<lambda>kt v. parse_kv_entry_token J (snd kt) = Inr v) kvs vs"
    and "parse_kv_signature_token J s = Inr sg"
  shows "kv_tokens_scan J es None (kv_lines kvs @ [Sig s]) =
    Inr (es @ map2 entry_of kvs vs, Some sg)"
  using assms
proof (induction kvs vs arbitrary: es rule: list_all2_induct)
  case Nil
  then show ?case by simp
next
  case (Cons kt kvs v vs)
  then show ?case by (cases kt) (simp add: validate_entry_token_def entry_of_def)
qed

lemma parse_kv_document_file:
  assumes tok: "token_ok h" "token_ok w" "token_ok s"
    and kvs: "\<forall>(k, t)\<in>set kvs. is_valid_key_name k \<and> plain_line t" "distinct (map fst kvs)"
    and size: "length (kv_file_text h w kvs s) \<le> MAX_KV_ENC_FILE_SIZE" "length kvs \<le> MAX_KV_KEY_LINES"
    and head: "parse_kv_head_token J h = Inr head" and wrap: "parse_kv_wrap_token J w = Inr wrap"
    and sg: "parse_kv_signature_token J s = Inr sg"
    and vs: "list_all2 (\<lambda>kt v. parse_kv_entry_token J (snd kt) = Inr v) kvs vs"
  shows "parse_kv_document J (kv_file_text h w kvs s) =
    Inr \<lparr>kvd_lines = file_lines h w kvs s, kvd_head = head, kvd_wrap = wrap, kvd_wrap_token = w,
         kvd_entries = map2 entry_of kvs vs, kvd_signature = sg\<rparr>"
proof -
  have "validate_kv_file_structure (file_lines h w kvs s) = Inr ()"
    using kvs by (auto simp: structure_iff_shape kv_shape_file_lines)
  moreover have "validate_kv_tokens J (file_lines h w kvs s) = Inr (map2 entry_of kvs vs, sg)"
    using kv_tokens_scan_lines [OF vs sg, of "[]"] wrap
    by (simp add: validate_kv_tokens_def file_lines_def validate_wrap_token_def)
  moreover have "extract_kv_header_tokens (file_lines h w kvs s) = Inr (h, w)"
    by (simp add: extract_kv_header_tokens_def file_lines_def head_token_of_def wrap_token_of_def)
  ultimately show ?thesis
    using parse_file_text [OF tok kvs(1) size] head wrap by (simp add: parse_kv_document_def)
qed

lemma base64_token_ok: "bs \<noteq> [] \<Longrightarrow> token_ok (encode_base64url_nopad bs)"
proof -
  assume "bs \<noteq> []"
  then have "encode_base64url_nopad bs \<noteq> []"
    by (cases "(URL_SAFE_ALPHABET, bs)" rule: fill_encoded.cases)
       (auto simp: encode_base64url_nopad_def encode_full_block_def encode_tail_one_def
         encode_tail_two_def)
  moreover have "graphic c" if "c \<in> set (encode_base64url_nopad bs)" for c
    using that fill_encoded_chars [of UrlSafe bs] alphabet_of_graphic [of c UrlSafe]
    by (auto simp: encode_base64url_nopad_def alphabet_of_def)
  moreover have "\<not> graphic LF" "\<not> graphic CR" by (simp_all add: graphic_def code_in_def)
  ultimately show ?thesis unfolding token_ok_def plain_line_def by blast
qed

lemma parsed_token_plain: "parse_json_token J target de t = Inr v \<Longrightarrow> plain_line t"
proof -
  assume "parse_json_token J target de t = Inr v"
  then obtain bs where "t = encode_base64url_nopad bs"
    by (auto simp: parse_json_token_def decode_token_bytes_iff)
  then show ?thesis
    by (cases "bs = []") (simp_all add: encode_base64url_nopad_def base64_token_ok [unfolded token_ok_def encode_base64url_nopad_def])
qed

lemma stored_token_ok: "storable J target j \<Longrightarrow> token_encode J j = Inr t \<Longrightarrow> token_ok t"
  by (auto simp: token_encode_Inr storable_def intro: base64_token_ok)

lemma parsed_wrap_token_ok:
  assumes "parse_all content = Inr ls" and "Wrap t \<in> set ls" and "parse_kv_wrap_token J t = Inr w"
  shows "token_ok t"
proof -
  from assms(1) obtain ss where "list_all2 (\<lambda>l r. parse_line l = Inr r) ss ls"
    by (auto simp: parse_all_def collect_res_Inr split: if_splits)
  then obtain l where "parse_line l = Inr (Wrap t)"
    using assms(2) by (auto simp: list_all2_conv_all_nth in_set_conv_nth)
  then have "t \<noteq> []"
    by (auto simp: parse_line_def parse_control_line_def parse_header_line_def parse_token_control_line_def
        TOKEN_CONTROL_LINES_def split: if_splits option.splits prod.splits)
  moreover have "plain_line t"
    using assms(3) parsed_token_plain by (fastforce simp: parse_kv_wrap_token_def)
  ultimately show ?thesis by (simp add: token_ok_def)
qed

text \<open>
  What a draft needs to be written and read back. The wrap is printed, unless its token is still the
  one that was read.
\<close>

definition wrap_source_ok :: "json_lib \<Rightarrow> wrap_source \<Rightarrow> bool" where
  "wrap_source_ok J ws \<longleftrightarrow>
     (case ws_token ws of
        None \<Rightarrow> storable J SchemaKvWrap (se_kv_wrap (ws_data ws))
      | Some token \<Rightarrow> token_ok token \<and> parse_kv_wrap_token J token = Inr (ws_data ws))"

definition draft_writable :: "json_lib \<Rightarrow> kv_draft \<Rightarrow> kv_entry_value list \<Rightarrow> bool" where
  "draft_writable J d vs \<longleftrightarrow>
     wrap_source_ok J (dr_wrap d) \<and> storable J SchemaKvHead (se_kv_header J (dr_head d)) \<and>
     jl_uuid_parse J (jl_uuid_show J (kvh_sid (dr_head d))) = Some (kvh_sid (dr_head d)) \<and>
     validate_wrap_items (kw_wrap (ws_data (dr_wrap d))) = Inr () \<and>
     draft_inv d \<and> (\<forall>e\<in>set (dr_entries d). is_valid_key_name (de_key e)) \<and>
     list_all2 (\<lambda>e v. parse_kv_entry_token J (de_token e) = Inr v) (dr_entries d) vs \<and>
     length (dr_entries d) \<le> MAX_KV_KEY_LINES"

lemma draft_text_parses:
  assumes ser: "serialize_unsigned J d = Inr body"
    and sig_text: "token_encode J (se_artifact_signature sg) = Inr s"
    and w: "draft_writable J d vs"
    and sig_ok: "storable J SchemaArtifactSignature (se_artifact_signature sg)" and kpp_ok: "kpp_valid (sig_mac sg)"
    and size: "length (body @ '':SIG '' @ s @ [LF]) \<le> MAX_KV_ENC_FILE_SIZE"
  shows "\<exists>doc. parse_kv_document J (body @ '':SIG '' @ s @ [LF]) = Inr doc \<and>
    kvd_head doc = dr_head d \<and> kvd_wrap doc = ws_data (dr_wrap d) \<and> kvd_signature doc = sg \<and>
    map ke_key (kvd_entries doc) = map de_key (dr_entries d) \<and>
    map ke_token (kvd_entries doc) = map de_token (dr_entries d) \<and>
    map ke_value (kvd_entries doc) = vs \<and>
    build_canonical_bytes (kvd_lines doc) = as_bytes body"
proof -
  from w have source: "wrap_source_ok J (dr_wrap d)" and head_ok: "storable J SchemaKvHead (se_kv_header J (dr_head d))"
    and uuid_ok: "jl_uuid_parse J (jl_uuid_show J (kvh_sid (dr_head d))) = Some (kvh_sid (dr_head d))"
    and items_ok: "validate_wrap_items (kw_wrap (ws_data (dr_wrap d))) = Inr ()"
    and inv_ok: "draft_inv d" and keys_ok: "\<forall>e\<in>set (dr_entries d). is_valid_key_name (de_key e)"
    and vs_ok: "list_all2 (\<lambda>e v. parse_kv_entry_token J (de_token e) = Inr v) (dr_entries d) vs"
    and count: "length (dr_entries d) \<le> MAX_KV_KEY_LINES"
    unfolding draft_writable_def by simp_all
  note size_ok = size count
  let ?kvs = "map (\<lambda>e. (de_key e, de_token e)) (dr_entries d)"
  obtain h w where h: "token_encode J (se_kv_header J (dr_head d)) = Inr h"
    and w: "resolve_wrap_token J d = Inr w"
    and body: "body = build_unsigned_kv_document h w ?kvs"
    using ser by (auto simp: serialize_unsigned_def)
  have wrap: "parse_kv_wrap_token J w = Inr (ws_data (dr_wrap d)) \<and> token_ok w"
  proof (cases "ws_token (dr_wrap d)")
    case None
    then have wrap_ok: "storable J SchemaKvWrap (se_kv_wrap (ws_data (dr_wrap d)))"
      and tok: "token_encode J (se_kv_wrap (ws_data (dr_wrap d))) = Inr w"
      using source w by (simp_all add: wrap_source_ok_def resolve_wrap_token_def)
    have "parse_json_token J SchemaKvWrap de_kv_wrap w = Inr (ws_data (dr_wrap d))"
      using wrap_ok de_se_kv_wrap tok by (rule parse_json_token_encode)
    then show ?thesis using items_ok stored_token_ok [OF wrap_ok tok] by (simp add: parse_kv_wrap_token_def)
  next
    case (Some t)
    then show ?thesis using source w by (simp add: wrap_source_ok_def resolve_wrap_token_def)
  qed
  then have ok: "token_ok h" "token_ok w" "token_ok s"
    using sig_text head_ok sig_ok h stored_token_ok by blast+
  have vs: "list_all2 (\<lambda>kt v. parse_kv_entry_token J (snd kt) = Inr v) ?kvs vs"
    using vs_ok by (simp add: list_all2_map1)
  then have kvs: "\<forall>(k, t)\<in>set ?kvs. is_valid_key_name k \<and> plain_line t"
    using keys_ok parsed_token_plain
    by (fastforce simp: list_all2_conv_all_nth in_set_conv_nth parse_kv_entry_token_def)
  have dist: "distinct (map fst ?kvs)" using inv_ok by (simp add: draft_inv_def comp_def)
  have head: "parse_kv_head_token J h = Inr (dr_head d)"
    unfolding parse_kv_head_token_def using head_ok de_se_kv_header [OF uuid_ok] h
    by (rule parse_json_token_encode)
  have sg: "parse_kv_signature_token J s = Inr sg"
    unfolding parse_kv_signature_token_def
    using sig_ok de_se_artifact_signature [OF kpp_ok] sig_text by (rule parse_json_token_encode)
  have "parse_kv_document J (kv_file_text h w ?kvs s) =
    Inr \<lparr>kvd_lines = file_lines h w ?kvs s, kvd_head = dr_head d, kvd_wrap = ws_data (dr_wrap d),
         kvd_wrap_token = w, kvd_entries = map2 entry_of ?kvs vs, kvd_signature = sg\<rparr>"
    using size_ok by (intro parse_kv_document_file ok kvs dist head wrap [THEN conjunct1] sg vs)
      (simp_all add: kv_file_text_def body)
  moreover have "length (dr_entries d) = length vs" using vs_ok by (rule list_all2_lengthD)
  ultimately show ?thesis
    by (simp add: kv_file_text_def body canonical_file_lines entry_of_def comp_def split_beta
        map_fst_zip_take map_snd_zip_take list_eq_iff_nth_eq)
qed

text \<open>
  C16. A draft survives writing and reading: when its values are within what the JSON libraries
  carry, its keys are valid and distinct and its entry tokens parse, the text it serialises to,
  followed by a signature line, parses to a document with the same head, the same wrap, the same
  keys, tokens and values in the same order, and the bytes the verifier will check are exactly
  the unsigned text.
\<close>

theorem kv_draft_roundtrip:
  assumes "serialize_unsigned J d = Inr body" and "token_encode J (se_artifact_signature sg) = Inr s"
    and "ws_token (dr_wrap d) = None"
    and "storable J SchemaKvHead (se_kv_header J (dr_head d))"
    and "jl_uuid_parse J (jl_uuid_show J (kvh_sid (dr_head d))) = Some (kvh_sid (dr_head d))"
    and "storable J SchemaKvWrap (se_kv_wrap (ws_data (dr_wrap d)))"
    and "validate_wrap_items (kw_wrap (ws_data (dr_wrap d))) = Inr ()"
    and "storable J SchemaArtifactSignature (se_artifact_signature sg)" and "kpp_valid (sig_mac sg)"
    and "draft_inv d" and "\<forall>e\<in>set (dr_entries d). is_valid_key_name (de_key e)"
    and "list_all2 (\<lambda>e v. parse_kv_entry_token J (de_token e) = Inr v) (dr_entries d) vs"
    and "length (body @ '':SIG '' @ s @ [LF]) \<le> MAX_KV_ENC_FILE_SIZE"
    and "length (dr_entries d) \<le> MAX_KV_KEY_LINES"
  shows "\<exists>doc. parse_kv_document J (body @ '':SIG '' @ s @ [LF]) = Inr doc \<and>
    kvd_head doc = dr_head d \<and> kvd_wrap doc = ws_data (dr_wrap d) \<and> kvd_signature doc = sg \<and>
    map ke_key (kvd_entries doc) = map de_key (dr_entries d) \<and>
    map ke_token (kvd_entries doc) = map de_token (dr_entries d) \<and>
    map ke_value (kvd_entries doc) = vs \<and>
    build_canonical_bytes (kvd_lines doc) = as_bytes body"
  by (rule draft_text_parses [OF assms(1,2) _ assms(8,9,13)])
    (simp add: draft_writable_def wrap_source_ok_def assms(3-7,10-12,14))

definition sample_entry :: kv_entry_value where
  "sample_entry = \<lparr>ev_nonce = ''AA'', ev_ct = ''AA'', ev_disclosed = True\<rparr>"

definition sample_jsons :: "json list" where
  "sample_jsons = [se_kv_header (sample_lib []) sample_header, se_kv_wrap sample_wrap,
     se_kv_entry sample_entry, se_artifact_signature sample_signature]"

lemma sample_lib_uuid: "se_kv_header (sample_lib js) h = se_kv_header (sample_lib []) h"
  by (simp add: se_kv_header_def sample_lib_def)

lemma sample_jsons_storable:
  "j \<in> set sample_jsons \<Longrightarrow> storable (sample_lib sample_jsons) target j"
  by (rule sample_lib_storable) (auto simp: sample_jsons_def sample_signature_ok)

lemma short_token: "length (encode_base64url_nopad [b]) = 2"
  by (simp add: encode_url_length compute_encoded_len_def)

lemma kv_draft_roundtrip_witness:
  "\<exists>body s doc. parse_kv_document (sample_lib sample_jsons) (body @ '':SIG '' @ s @ [LF]) = Inr doc \<and>
     map ke_key (kvd_entries doc) = [''K''] \<and> map ke_value (kvd_entries doc) = [sample_entry] \<and>
     build_canonical_bytes (kvd_lines doc) = as_bytes body"
proof -
  let ?J = "sample_lib sample_jsons"
  let ?tok = "\<lambda>j. encode_base64url_nopad [of_nat (index_of sample_jsons j)]"
  define d where "d = builder_with_entries [(''K'', ?tok (se_kv_entry sample_entry))]
    (builder_new sample_header sample_wrap)"
  define body where "body = build_unsigned_kv_document (?tok (se_kv_header ?J sample_header))
    (?tok (se_kv_wrap sample_wrap)) [(''K'', ?tok (se_kv_entry sample_entry))]"
  have enc: "wf_json j \<Longrightarrow> token_encode ?J j = Inr (?tok j)" for j by (rule sample_lib_encode)
  have st: "storable ?J t (se_kv_header ?J sample_header)" "storable ?J t (se_kv_wrap sample_wrap)"
    "storable ?J t (se_kv_entry sample_entry)" "storable ?J t (se_artifact_signature sample_signature)"
    for t
    unfolding sample_lib_uuid [of sample_jsons]
    by (rule sample_jsons_storable; simp add: sample_jsons_def)+
  have uuid: "jl_uuid_parse ?J (jl_uuid_show ?J (kvh_sid sample_header)) = Some (kvh_sid sample_header)"
    by (simp add: sample_lib_def sample_header_def)
  have wrap: "validate_wrap_items (kw_wrap sample_wrap) = Inr ()"
    by (simp add: sample_wrap_def validate_wrap_items_iff)
  have sig: "token_encode ?J (se_artifact_signature sample_signature) =
      Inr (?tok (se_artifact_signature sample_signature))"
    by (simp add: enc sample_signature_ok)
  have ser: "serialize_unsigned ?J d = Inr body"
    by (simp add: d_def body_def serialize_unsigned_def resolve_wrap_token_def builder_with_entries_def
        builder_new_def ws_decoded_def enc)
  have entry: "parse_kv_entry_token ?J (?tok (se_kv_entry sample_entry)) = Inr sample_entry"
    unfolding parse_kv_entry_token_def
    by (rule parse_json_token_encode [where se = se_kv_entry]) (simp_all add: enc st)
  have "\<exists>doc. parse_kv_document ?J (body @ '':SIG '' @ ?tok (se_artifact_signature sample_signature) @ [LF])
      = Inr doc \<and>
    kvd_head doc = dr_head d \<and> kvd_wrap doc = ws_data (dr_wrap d) \<and> kvd_signature doc = sample_signature \<and>
    map ke_key (kvd_entries doc) = map de_key (dr_entries d) \<and>
    map ke_token (kvd_entries doc) = map de_token (dr_entries d) \<and>
    map ke_value (kvd_entries doc) = [sample_entry] \<and>
    build_canonical_bytes (kvd_lines doc) = as_bytes body"
    by (rule kv_draft_roundtrip [OF ser sig])
      (simp_all add: d_def builder_with_entries_def builder_new_def ws_decoded_def uuid wrap st
        sample_signature_ok entry limit_defs draft_inv_def is_valid_key_name_def ascii_class_defs
        body_def build_unsigned_kv_document_def short_token HEADER_LINE_V1_def)
  then obtain doc where doc:
    "parse_kv_document ?J (body @ '':SIG '' @ ?tok (se_artifact_signature sample_signature) @ [LF]) = Inr doc"
    "map ke_key (kvd_entries doc) = map de_key (dr_entries d)"
    "map ke_value (kvd_entries doc) = [sample_entry]"
    "build_canonical_bytes (kvd_lines doc) = as_bytes body"
    by (elim exE conjE) (rule that; assumption)
  have key: "map de_key (dr_entries d) = [''K'']"
    by (simp add: d_def builder_with_entries_def builder_new_def)
  show ?thesis
    by (intro exI [of _ body] exI [of _ "?tok (se_artifact_signature sample_signature)"] exI [of _ doc]
        conjI doc(1,3,4) doc(2) [unfolded key])
qed

section \<open>What a parsed document guarantees\<close>

lemma kv_tokens_scan_entries:
  "kv_tokens_scan J es sg ls = Inr (es', sg') \<Longrightarrow>
   \<exists>more. es' = es @ more \<and> kv_lines (map (\<lambda>e. (ke_key e, ke_token e)) more) = filter is_kv_line ls"
proof (induction J es sg ls rule: kv_tokens_scan.induct)
  case (2 J es sg l ls)
  show ?case
  proof (cases l)
    case (KV k t)
    with "2.prems" obtain e where e: "validate_entry_token J k t = Inr e"
      and rest: "kv_tokens_scan J (es @ [e]) sg ls = Inr (es', sg')" by auto
    have kt: "ke_key e = k" "ke_token e = t" using e by (auto simp: validate_entry_token_def)
    from "2.IH"(4) [OF KV rest] obtain more where "es' = (es @ [e]) @ more"
      "kv_lines (map (\<lambda>e. (ke_key e, ke_token e)) more) = filter is_kv_line ls" by blast
    then show ?thesis
      by (intro exI [of _ "e # more"]) (simp add: KV kt)
  next
    case (Wrap t)
    with "2.prems" obtain u where u: "validate_wrap_token J t = Inr u"
      and r: "kv_tokens_scan J es sg ls = Inr (es', sg')" by auto
    from "2.IH"(3) [OF Wrap r] Wrap show ?thesis by simp
  next
    case (Sig t)
    with "2.prems" obtain g where g: "parse_kv_signature_token J t = Inr g"
      and r: "kv_tokens_scan J es (Some g) ls = Inr (es', sg')" by auto
    from "2.IH"(5) [OF Sig r] Sig show ?thesis by simp
  next
    case (Header v)
    with 2 show ?thesis by simp
  next
    case (Head t)
    with 2 show ?thesis by simp
  next
    case Empty
    with 2 show ?thesis by simp
  qed
qed (simp add: kv_lines_def)

text \<open>
  C17. A text that parses has the intended shape: one header, one head, one wrap, then the
  entries under distinct valid keys, then one signature and nothing after it; the entries of the
  document are those lines in order, and its wrap has distinct recipients within the limit.
\<close>

theorem kv_parse_shape:
  assumes "parse_kv_document J content = Inr doc"
  shows "kv_shape (kvd_lines doc) \<and>
    kv_lines (map (\<lambda>e. (ke_key e, ke_token e)) (kvd_entries doc)) = filter is_kv_line (kvd_lines doc) \<and>
    distinct (map wi_recipient_handle (kw_wrap (kvd_wrap doc))) \<and>
    length (kw_wrap (kvd_wrap doc)) \<le> MAX_WRAP_ITEMS"
proof -
  from assms obtain lines entries h w where lines: "parse_all content = Inr lines"
    and str: "validate_kv_file_structure lines = Inr ()"
    and tok: "validate_kv_tokens J lines = Inr (entries, kvd_signature doc)"
    and wrap: "parse_kv_wrap_token J w = Inr (kvd_wrap doc)"
    and doc: "kvd_lines doc = lines" "kvd_entries doc = entries"
    by (auto simp: parse_kv_document_def)
  from tok obtain sg where "kv_tokens_scan J [] None lines = Inr (entries, sg)"
    by (auto simp: validate_kv_tokens_def)
  from kv_tokens_scan_entries [OF this]
  have "kv_lines (map (\<lambda>e. (ke_key e, ke_token e)) entries) = filter is_kv_line lines" by simp
  moreover have "validate_wrap_items (kw_wrap (kvd_wrap doc)) = Inr ()"
    using wrap by (auto simp: parse_kv_wrap_token_def)
  ultimately show ?thesis using str by (simp add: doc structure_iff_shape validate_wrap_items_iff)
qed

definition sample_tok :: "json \<Rightarrow> string" where
  "sample_tok j = encode_base64url_nopad [of_nat (index_of sample_jsons j)]"

definition sample_kvs :: "(string \<times> string) list" where
  "sample_kvs = [(''K'', sample_tok (se_kv_entry sample_entry))]"

definition sample_text :: string where
  "sample_text = kv_file_text (sample_tok (se_kv_header (sample_lib []) sample_header))
     (sample_tok (se_kv_wrap sample_wrap)) sample_kvs (sample_tok (se_artifact_signature sample_signature))"

definition sample_doc :: kv_enc_document where
  "sample_doc =
     \<lparr>kvd_lines = file_lines (sample_tok (se_kv_header (sample_lib []) sample_header))
        (sample_tok (se_kv_wrap sample_wrap)) sample_kvs (sample_tok (se_artifact_signature sample_signature)),
      kvd_head = sample_header, kvd_wrap = sample_wrap, kvd_wrap_token = sample_tok (se_kv_wrap sample_wrap),
      kvd_entries = [entry_of (''K'', sample_tok (se_kv_entry sample_entry)) sample_entry],
      kvd_signature = sample_signature\<rparr>"

lemma sample_tok_ok: "token_ok (sample_tok j)" "length (sample_tok j) = 2"
  by (simp_all add: sample_tok_def base64_token_ok short_token)

lemma sample_tok_parse:
  assumes "se v \<in> set sample_jsons" "de (se v) = Some v"
  shows "parse_json_token (sample_lib sample_jsons) target de (sample_tok (se v)) = Inr v"
proof (rule parse_json_token_encode [where se = se])
  show st: "storable (sample_lib sample_jsons) target (se v)"
    using assms(1) by (rule sample_jsons_storable)
  then show "token_encode (sample_lib sample_jsons) (se v) = Inr (sample_tok (se v))"
    by (simp add: sample_tok_def sample_lib_encode storable_def)
qed (rule assms(2))

lemma sample_parse: "parse_kv_document (sample_lib sample_jsons) sample_text = Inr sample_doc"
proof -
  let ?J = "sample_lib sample_jsons"
  have "de_kv_header ?J (se_kv_header ?J sample_header) = Some sample_header"
    by (rule de_se_kv_header) (simp add: sample_lib_def sample_header_def)
  note de_head = this [unfolded sample_lib_uuid [of sample_jsons]]
  have hd: "parse_kv_head_token ?J (sample_tok (se_kv_header (sample_lib []) sample_header)) = Inr sample_header"
    unfolding parse_kv_head_token_def
    by (rule sample_tok_parse [where se = "se_kv_header (sample_lib [])"])
      (simp add: sample_jsons_def, rule de_head)
  have "parse_json_token ?J SchemaKvWrap de_kv_wrap (sample_tok (se_kv_wrap sample_wrap)) = Inr sample_wrap"
    by (rule sample_tok_parse [where se = se_kv_wrap]) (simp_all add: sample_jsons_def)
  then have wr: "parse_kv_wrap_token ?J (sample_tok (se_kv_wrap sample_wrap)) = Inr sample_wrap"
    by (simp add: parse_kv_wrap_token_def validate_wrap_items_iff) (simp add: sample_wrap_def)
  have en: "parse_kv_entry_token ?J (sample_tok (se_kv_entry sample_entry)) = Inr sample_entry"
    unfolding parse_kv_entry_token_def
    by (rule sample_tok_parse [where se = se_kv_entry]) (simp_all add: sample_jsons_def)
  have sg: "parse_kv_signature_token ?J (sample_tok (se_artifact_signature sample_signature)) = Inr sample_signature"
    unfolding parse_kv_signature_token_def
    by (rule sample_tok_parse [where se = se_artifact_signature])
      (simp_all add: sample_jsons_def de_se_artifact_signature sample_signature_ok)
  have len: "length sample_text \<le> MAX_KV_ENC_FILE_SIZE"
    by (simp add: sample_text_def kv_file_text_def build_unsigned_kv_document_def HEADER_LINE_V1_def
        sample_tok_ok sample_kvs_def limit_defs)
  have "parse_kv_document ?J sample_text =
    Inr \<lparr>kvd_lines = kvd_lines sample_doc, kvd_head = sample_header, kvd_wrap = sample_wrap,
         kvd_wrap_token = sample_tok (se_kv_wrap sample_wrap),
         kvd_entries = map2 entry_of sample_kvs [sample_entry], kvd_signature = sample_signature\<rparr>"
    unfolding sample_text_def sample_doc_def kv_enc_document.simps
    by (rule parse_kv_document_file)
      (use len in \<open>simp_all add: sample_tok_ok hd wr en sg sample_kvs_def is_valid_key_name_def
        ascii_class_defs limit_defs sample_tok_ok(1) [unfolded token_ok_def] sample_text_def\<close>)
  then show ?thesis by (simp add: sample_doc_def sample_kvs_def)
qed

lemma kv_parse_shape_witness: "kv_shape (kvd_lines sample_doc)"
  using kv_parse_shape [OF sample_parse] by simp

end
