(* ===== verification/Crypto_Model.thy ===== *)
theory Crypto_Model
  imports Json_Documents
begin

text \<open>
  The cryptographic operations the crate calls: \<open>crypto/hmac.rs\<close>, \<open>crypto/kdf.rs\<close>,
  \<open>crypto/sign.rs\<close>, \<open>crypto/aead/xchacha.rs\<close> and \<open>crypto/kem.rs\<close>. The primitives behind them
  (RustCrypto, \<open>ed25519-dalek\<close>, \<open>hpke\<close>) are the fields of the record \<open>crypto_lib\<close>; randomness
  is an explicit argument. The predicates at the end state the documented behaviour the theorems
  rely on: what a primitive produced, its counterpart accepts.
\<close>

section \<open>Primitives\<close>

record crypto_lib =
  cl_hmac :: "u8 list \<Rightarrow> u8 list \<Rightarrow> u8 list"
  cl_hkdf_extract :: "u8 list \<Rightarrow> u8 list \<Rightarrow> u8 list"
  cl_hkdf_expand :: "u8 list \<Rightarrow> u8 list \<Rightarrow> u8 list option"
  cl_aead_seal :: "u8 list \<Rightarrow> u8 list \<Rightarrow> u8 list \<Rightarrow> u8 list \<Rightarrow> u8 list option"
  cl_aead_open :: "u8 list \<Rightarrow> u8 list \<Rightarrow> u8 list \<Rightarrow> u8 list \<Rightarrow> u8 list option"
  cl_ed_sign :: "u8 list \<Rightarrow> u8 list \<Rightarrow> u8 list"
  cl_ed_verify :: "u8 list \<Rightarrow> u8 list \<Rightarrow> u8 list \<Rightarrow> bool"
  cl_hpke_seal :: "u8 list \<Rightarrow> u8 list \<Rightarrow> u8 list \<Rightarrow> u8 list \<Rightarrow> u8 list \<Rightarrow> (u8 list \<times> u8 list) option"
  cl_hpke_open :: "u8 list \<Rightarrow> u8 list \<Rightarrow> u8 list \<Rightarrow> u8 list \<Rightarrow> u8 list \<Rightarrow> u8 list option"
  cl_sha256 :: "u8 list \<Rightarrow> u8 list"
  cl_ed_point :: "u8 list \<Rightarrow> bool"
  cl_ed_public :: "u8 list \<Rightarrow> u8 list"
  cl_x_public :: "u8 list \<Rightarrow> u8 list option"
  cl_argon2 :: "u8 list \<Rightarrow> u8 list \<Rightarrow> u8 list option"

text \<open>Fresh random values, in the order an operation draws them.\<close>

type_synonym entropy = "nat \<Rightarrow> u8 list"

section \<open>The crate's wrappers\<close>

definition compute_hmac_sha256_tag :: "crypto_lib \<Rightarrow> u8 list \<Rightarrow> u8 list \<Rightarrow> u8 list" where
  "compute_hmac_sha256_tag C key message = cl_hmac C key message"

definition verify_hmac_sha256_tag :: "crypto_lib \<Rightarrow> u8 list \<Rightarrow> u8 list \<Rightarrow> u8 list \<Rightarrow> bool" where
  "verify_hmac_sha256_tag C key message expected_tag \<longleftrightarrow>
     compute_hmac_sha256_tag C key message = expected_tag"

definition derive_hkdf_sha256_prk :: "crypto_lib \<Rightarrow> u8 list \<Rightarrow> u8 list \<Rightarrow> u8 list" where
  "derive_hkdf_sha256_prk C ikm salt = cl_hkdf_extract C salt ikm"

definition derive_hkdf_sha256_array_from_prk ::
  "crypto_lib \<Rightarrow> u8 list \<Rightarrow> u8 list \<Rightarrow> u8 list res" where
  "derive_hkdf_sha256_array_from_prk C prk info =
     ok_or (plain_error Crypto) (cl_hkdf_expand C prk info)"

definition derive_hkdf_sha256_array ::
  "crypto_lib \<Rightarrow> u8 list \<Rightarrow> u8 list \<Rightarrow> u8 list \<Rightarrow> u8 list res" where
  "derive_hkdf_sha256_array C ikm salt info =
     ok_or (plain_error Crypto) (cl_hkdf_expand C (cl_hkdf_extract C salt ikm) info)"

definition derive_public_key_from_secret :: "crypto_lib \<Rightarrow> u8 list \<Rightarrow> u8 list res" where
  "derive_public_key_from_secret C secret_key = ok_or (plain_error Crypto) (cl_x_public C secret_key)"

definition sign_detached_bytes :: "crypto_lib \<Rightarrow> u8 list \<Rightarrow> u8 list \<Rightarrow> u8 list" where
  "sign_detached_bytes C message signing_key = cl_ed_sign C signing_key message"

definition verify_detached_bytes :: "crypto_lib \<Rightarrow> u8 list \<Rightarrow> u8 list \<Rightarrow> u8 list \<Rightarrow> unit res" where
  "verify_detached_bytes C message verifying_key signature_bytes =
     (if length signature_bytes \<noteq> 64 then Inl (plain_error Crypto)
      else if cl_ed_verify C verifying_key message signature_bytes then Inr ()
      else Inl (plain_error Crypto))"

definition xchacha_encrypt ::
  "crypto_lib \<Rightarrow> u8 list \<Rightarrow> u8 list \<Rightarrow> u8 list \<Rightarrow> u8 list \<Rightarrow> (u8 list \<times> u8 list) res" where
  "xchacha_encrypt C key nonce aad plaintext =
     res_map (\<lambda>ct. (ct, nonce)) (ok_or (plain_error Crypto) (cl_aead_seal C key nonce aad plaintext))"

definition xchacha_decrypt ::
  "crypto_lib \<Rightarrow> u8 list \<Rightarrow> u8 list \<Rightarrow> u8 list \<Rightarrow> u8 list \<Rightarrow> u8 list res" where
  "xchacha_decrypt C key nonce aad ciphertext =
     ok_or (plain_error Crypto) (cl_aead_open C key nonce aad ciphertext)"

definition seal_base ::
  "crypto_lib \<Rightarrow> u8 list \<Rightarrow> u8 list \<Rightarrow> u8 list \<Rightarrow> u8 list \<Rightarrow> u8 list \<Rightarrow> (u8 list \<times> u8 list) res" where
  "seal_base C rnd pk info aad plaintext =
     ok_or (plain_error Crypto) (cl_hpke_seal C rnd pk info aad plaintext)"

definition open_base ::
  "crypto_lib \<Rightarrow> u8 list \<Rightarrow> u8 list \<Rightarrow> u8 list \<Rightarrow> u8 list \<Rightarrow> u8 list \<Rightarrow> u8 list res" where
  "open_base C sk enc info aad ciphertext =
     ok_or (plain_error Crypto) (cl_hpke_open C sk enc info aad ciphertext)"

lemmas crypto_wrapper_defs =
  compute_hmac_sha256_tag_def verify_hmac_sha256_tag_def derive_hkdf_sha256_prk_def
  derive_hkdf_sha256_array_from_prk_def derive_hkdf_sha256_array_def derive_public_key_from_secret_def
  sign_detached_bytes_def verify_detached_bytes_def
  xchacha_encrypt_def xchacha_decrypt_def seal_base_def open_base_def

section \<open>Documented behaviour of the primitives\<close>

definition hmac_ok :: "crypto_lib \<Rightarrow> bool" where
  "hmac_ok C \<longleftrightarrow> (\<forall>key message. length (cl_hmac C key message) = 32)"

definition hkdf_ok :: "crypto_lib \<Rightarrow> bool" where
  "hkdf_ok C \<longleftrightarrow> (\<forall>prk info okm. cl_hkdf_expand C prk info = Some okm \<longrightarrow> length okm = 32)"

definition aead_ok :: "crypto_lib \<Rightarrow> bool" where
  "aead_ok C \<longleftrightarrow> (\<forall>key nonce aad m ct. cl_aead_seal C key nonce aad m = Some ct \<longrightarrow>
     length ct = length m + AEAD_TAG_LENGTH \<and> cl_aead_open C key nonce aad ct = Some m)"

definition ed25519_pair :: "crypto_lib \<Rightarrow> u8 list \<Rightarrow> u8 list \<Rightarrow> bool" where
  "ed25519_pair C sk vk \<longleftrightarrow>
     cl_ed_point C vk \<and>
     (\<forall>m. length (cl_ed_sign C sk m) = 64 \<and> cl_ed_verify C vk m (cl_ed_sign C sk m))"

definition x25519_pair :: "crypto_lib \<Rightarrow> u8 list \<Rightarrow> u8 list \<Rightarrow> bool" where
  "x25519_pair C sk pk \<longleftrightarrow>
     (\<forall>rnd info aad m enc ct. cl_hpke_seal C rnd pk info aad m = Some (enc, ct) \<longrightarrow>
        length enc = 32 \<and> length ct = length m + AEAD_TAG_LENGTH \<and>
        cl_hpke_open C sk enc info aad ct = Some m)"

text \<open>
  A concrete library: tags and pads are real functions of their inputs, and opening checks the
  key and the associated data. The statements with hypotheses on the primitives are evaluated at
  it.
\<close>

definition digest :: "u8 list \<Rightarrow> u8" where
  "digest bs = foldl (\<lambda>h b. 31 * h + b) 7 bs"

definition sample_crypto :: crypto_lib where
  "sample_crypto =
     \<lparr>cl_hmac = (\<lambda>key m. replicate 32 (digest (key @ m))),
      cl_hkdf_extract = (\<lambda>salt ikm. replicate 32 (digest (salt @ ikm))),
      cl_hkdf_expand = (\<lambda>prk info. Some (replicate 32 (digest (prk @ info)))),
      cl_aead_seal = (\<lambda>key nonce aad m. Some (m @ replicate 16 (digest (key @ nonce @ aad)))),
      cl_aead_open = (\<lambda>key nonce aad ct.
        if drop (length ct - 16) ct = replicate 16 (digest (key @ nonce @ aad))
        then Some (take (length ct - 16) ct) else None),
      cl_ed_sign = (\<lambda>sk m. replicate 64 (digest (sk @ m))),
      cl_ed_verify = (\<lambda>vk m s. s = replicate 64 (digest (vk @ m))),
      cl_hpke_seal = (\<lambda>rnd pk info aad m.
        Some (replicate 32 (digest rnd), m @ replicate 16 (digest (pk @ info @ aad)))),
      cl_hpke_open = (\<lambda>sk enc info aad ct.
        if drop (length ct - 16) ct = replicate 16 (digest (sk @ info @ aad))
        then Some (take (length ct - 16) ct) else None),
      cl_sha256 = (\<lambda>m. replicate 32 (digest m)), cl_ed_point = (\<lambda>_. True),
      cl_ed_public = (\<lambda>sk. sk), cl_x_public = (\<lambda>sk. Some sk),
      cl_argon2 = (\<lambda>pw salt. Some (replicate 32 (digest (pw @ salt))))\<rparr>"

lemma sample_crypto_ok [simp]:
  "hmac_ok sample_crypto" "hkdf_ok sample_crypto" "aead_ok sample_crypto"
  "ed25519_pair sample_crypto k k" "x25519_pair sample_crypto k k"
  by (auto simp: hmac_ok_def hkdf_ok_def aead_ok_def ed25519_pair_def x25519_pair_def
      sample_crypto_def AEAD_TAG_LENGTH_def)

end
