(* ===== verification/Artifact_Keys.thy ===== *)
theory Artifact_Keys
  imports Crypto_Model
begin

text \<open>
  Context binding and key schedules: \<open>feature/envelope/binding.rs\<close> and
  \<open>feature/envelope/key_schedule.rs\<close>. Every derivation and every sealed value is bound to a
  canonical JSON context that names its purpose, the session and, where there is one, the key id
  or the entry. The section on separation shows that no two uses share a context.
\<close>

section \<open>Domain-separation constants\<close>

definition AAD_KV_ENTRY_PAYLOAD_V1 :: string where
  "AAD_KV_ENTRY_PAYLOAD_V1 = ''kapsaro:aad:kv:entry-payload@1''"
definition HPKE_INFO_KV_WRAP_V1 :: string where
  "HPKE_INFO_KV_WRAP_V1 = ''kapsaro:hpke-info:kv:wrap@1''"
definition HPKE_INFO_FILE_WRAP_V1 :: string where
  "HPKE_INFO_FILE_WRAP_V1 = ''kapsaro:hpke-info:file:wrap@1''"
definition HKDF_SALT_FILE_V1 :: string where "HKDF_SALT_FILE_V1 = ''kapsaro:hkdf-salt:file@1''"
definition HKDF_SALT_KV_V1 :: string where "HKDF_SALT_KV_V1 = ''kapsaro:hkdf-salt:kv@1''"
definition HKDF_INFO_FILE_CONTENT_KEY_V1 :: string where
  "HKDF_INFO_FILE_CONTENT_KEY_V1 = ''kapsaro:hkdf-info:file:content-key@1''"
definition HKDF_INFO_FILE_MAC_KEY_V1 :: string where
  "HKDF_INFO_FILE_MAC_KEY_V1 = ''kapsaro:hkdf-info:file:mac-key@1''"
definition HKDF_INFO_KV_CEK_V1 :: string where
  "HKDF_INFO_KV_CEK_V1 = ''kapsaro:hkdf-info:kv:cek@1''"
definition HKDF_INFO_KV_MAC_KEY_V1 :: string where
  "HKDF_INFO_KV_MAC_KEY_V1 = ''kapsaro:hkdf-info:kv:mac-key@1''"

lemmas context_constant_defs =
  AAD_KV_ENTRY_PAYLOAD_V1_def HPKE_INFO_KV_WRAP_V1_def HPKE_INFO_FILE_WRAP_V1_def
  HKDF_SALT_FILE_V1_def HKDF_SALT_KV_V1_def HKDF_INFO_FILE_CONTENT_KEY_V1_def
  HKDF_INFO_FILE_MAC_KEY_V1_def HKDF_INFO_KV_CEK_V1_def HKDF_INFO_KV_MAC_KEY_V1_def

section \<open>Contexts\<close>

definition sid_context :: "json_lib \<Rightarrow> string \<Rightarrow> uuid \<Rightarrow> json" where
  "sid_context J protocol sid = JObj [(''p'', JStr protocol), (''sid'', JStr (jl_uuid_show J sid))]"

definition wrap_info_context :: "json_lib \<Rightarrow> string \<Rightarrow> uuid \<Rightarrow> string \<Rightarrow> json" where
  "wrap_info_context J protocol sid k = JObj
     [(''kid'', JStr k), (''p'', JStr protocol), (''sid'', JStr (jl_uuid_show J sid))]"

definition kv_entry_context :: "json_lib \<Rightarrow> string \<Rightarrow> uuid \<Rightarrow> string \<Rightarrow> json" where
  "kv_entry_context J protocol sid key = JObj
     [(''k'', JStr key), (''p'', JStr protocol), (''sid'', JStr (jl_uuid_show J sid))]"

definition kv_cek_context :: "json_lib \<Rightarrow> string \<Rightarrow> uuid \<Rightarrow> string \<Rightarrow> string \<Rightarrow> json" where
  "kv_cek_context J protocol sid key nonce = JObj
     [(''k'', JStr key), (''nonce'', JStr nonce), (''p'', JStr protocol),
      (''sid'', JStr (jl_uuid_show J sid))]"

definition build_kv_entry_aad :: "json_lib \<Rightarrow> uuid \<Rightarrow> string \<Rightarrow> u8 list res" where
  "build_kv_entry_aad J sid key = jcs_normalize J (kv_entry_context J AAD_KV_ENTRY_PAYLOAD_V1 sid key)"

definition build_file_payload_aad :: "json_lib \<Rightarrow> file_payload_header \<Rightarrow> u8 list res" where
  "build_file_payload_aad J protected = jcs_normalize J (se_file_payload_header J protected)"

definition build_kv_wrap_info :: "json_lib \<Rightarrow> uuid \<Rightarrow> string \<Rightarrow> u8 list res" where
  "build_kv_wrap_info J sid k = jcs_normalize J (wrap_info_context J HPKE_INFO_KV_WRAP_V1 sid k)"

definition build_file_wrap_info :: "json_lib \<Rightarrow> uuid \<Rightarrow> string \<Rightarrow> u8 list res" where
  "build_file_wrap_info J sid k = jcs_normalize J (wrap_info_context J HPKE_INFO_FILE_WRAP_V1 sid k)"

definition build_file_key_schedule_salt :: "json_lib \<Rightarrow> uuid \<Rightarrow> u8 list res" where
  "build_file_key_schedule_salt J sid = jcs_normalize J (sid_context J HKDF_SALT_FILE_V1 sid)"

definition build_kv_key_schedule_salt :: "json_lib \<Rightarrow> uuid \<Rightarrow> u8 list res" where
  "build_kv_key_schedule_salt J sid = jcs_normalize J (sid_context J HKDF_SALT_KV_V1 sid)"

definition build_file_content_key_info :: "json_lib \<Rightarrow> uuid \<Rightarrow> u8 list res" where
  "build_file_content_key_info J sid =
     jcs_normalize J (sid_context J HKDF_INFO_FILE_CONTENT_KEY_V1 sid)"

definition build_file_mac_key_info :: "json_lib \<Rightarrow> uuid \<Rightarrow> u8 list res" where
  "build_file_mac_key_info J sid = jcs_normalize J (sid_context J HKDF_INFO_FILE_MAC_KEY_V1 sid)"

definition build_kv_cek_info :: "json_lib \<Rightarrow> uuid \<Rightarrow> string \<Rightarrow> string \<Rightarrow> u8 list res" where
  "build_kv_cek_info J sid key nonce =
     jcs_normalize J (kv_cek_context J HKDF_INFO_KV_CEK_V1 sid key nonce)"

definition build_kv_mac_key_info :: "json_lib \<Rightarrow> uuid \<Rightarrow> u8 list res" where
  "build_kv_mac_key_info J sid = jcs_normalize J (sid_context J HKDF_INFO_KV_MAC_KEY_V1 sid)"

lemmas context_defs =
  sid_context_def wrap_info_context_def kv_entry_context_def kv_cek_context_def

lemmas binding_defs =
  build_kv_entry_aad_def build_file_payload_aad_def build_kv_wrap_info_def build_file_wrap_info_def
  build_file_key_schedule_salt_def build_kv_key_schedule_salt_def build_file_content_key_info_def
  build_file_mac_key_info_def build_kv_cek_info_def build_kv_mac_key_info_def

lemma wf_contexts [simp]:
  "wf_json (sid_context J p sid)" "wf_json (wrap_info_context J p sid k)"
  "wf_json (kv_entry_context J p sid key)" "wf_json (kv_cek_context J p sid key nonce)"
  "wf_json (se_file_payload_header J h)"
  by (auto simp: context_defs se_file_payload_header_def less_char_def)

lemma jcs_normalize_wf [simp]: "wf_json j \<Longrightarrow> jcs_normalize J j = Inr (jl_jcs J j)"
  by (simp add: jcs_normalize_def wf_all_integers_safe)

text \<open>Building a context never fails.\<close>

lemma binding_total:
  "build_kv_entry_aad J sid key = Inr (jl_jcs J (kv_entry_context J AAD_KV_ENTRY_PAYLOAD_V1 sid key))"
  "build_kv_wrap_info J sid k = Inr (jl_jcs J (wrap_info_context J HPKE_INFO_KV_WRAP_V1 sid k))"
  "build_file_wrap_info J sid k = Inr (jl_jcs J (wrap_info_context J HPKE_INFO_FILE_WRAP_V1 sid k))"
  "build_file_payload_aad J h = Inr (jl_jcs J (se_file_payload_header J h))"
  by (simp_all add: binding_defs)

section \<open>Key schedules\<close>

record key_schedule =
  ks_prk :: "u8 list"
  ks_sid :: uuid

definition file_schedule_extract :: "json_lib \<Rightarrow> crypto_lib \<Rightarrow> u8 list \<Rightarrow> uuid \<Rightarrow> key_schedule res" where
  "file_schedule_extract J C master_key sid =
     res_bind (build_file_key_schedule_salt J sid) (\<lambda>salt.
     Inr \<lparr>ks_prk = derive_hkdf_sha256_prk C master_key salt, ks_sid = sid\<rparr>)"

definition file_derive_content_key :: "json_lib \<Rightarrow> crypto_lib \<Rightarrow> key_schedule \<Rightarrow> u8 list res" where
  "file_derive_content_key J C ks =
     res_bind (build_file_content_key_info J (ks_sid ks)) (derive_hkdf_sha256_array_from_prk C (ks_prk ks))"

definition file_derive_mac_key :: "json_lib \<Rightarrow> crypto_lib \<Rightarrow> key_schedule \<Rightarrow> u8 list res" where
  "file_derive_mac_key J C ks =
     res_bind (build_file_mac_key_info J (ks_sid ks)) (derive_hkdf_sha256_array_from_prk C (ks_prk ks))"

definition kv_schedule_extract :: "json_lib \<Rightarrow> crypto_lib \<Rightarrow> u8 list \<Rightarrow> uuid \<Rightarrow> key_schedule res" where
  "kv_schedule_extract J C master_key sid =
     res_bind (build_kv_key_schedule_salt J sid) (\<lambda>salt.
     Inr \<lparr>ks_prk = derive_hkdf_sha256_prk C master_key salt, ks_sid = sid\<rparr>)"

definition kv_derive_cek ::
  "json_lib \<Rightarrow> crypto_lib \<Rightarrow> key_schedule \<Rightarrow> string \<Rightarrow> string \<Rightarrow> u8 list res" where
  "kv_derive_cek J C ks key nonce =
     res_bind (build_kv_cek_info J (ks_sid ks) key nonce)
       (derive_hkdf_sha256_array_from_prk C (ks_prk ks))"

definition kv_derive_mac_key :: "json_lib \<Rightarrow> crypto_lib \<Rightarrow> key_schedule \<Rightarrow> u8 list res" where
  "kv_derive_mac_key J C ks =
     res_bind (build_kv_mac_key_info J (ks_sid ks)) (derive_hkdf_sha256_array_from_prk C (ks_prk ks))"

section \<open>Separation\<close>

text \<open>
  The uses a context can be built for, with what each is bound to, and the bytes the code builds
  for it.
\<close>

datatype context_use =
  KvEntryAad uuid string | FilePayloadAad file_payload_header
  | KvWrapInfo uuid string | FileWrapInfo uuid string
  | FileScheduleSalt uuid | KvScheduleSalt uuid
  | FileContentKeyInfo uuid | FileMacKeyInfo uuid
  | KvCekInfo uuid string string | KvMacKeyInfo uuid

fun context_bytes :: "json_lib \<Rightarrow> context_use \<Rightarrow> u8 list res" where
  "context_bytes J (KvEntryAad sid key) = build_kv_entry_aad J sid key"
| "context_bytes J (FilePayloadAad h) = build_file_payload_aad J h"
| "context_bytes J (KvWrapInfo sid k) = build_kv_wrap_info J sid k"
| "context_bytes J (FileWrapInfo sid k) = build_file_wrap_info J sid k"
| "context_bytes J (FileScheduleSalt sid) = build_file_key_schedule_salt J sid"
| "context_bytes J (KvScheduleSalt sid) = build_kv_key_schedule_salt J sid"
| "context_bytes J (FileContentKeyInfo sid) = build_file_content_key_info J sid"
| "context_bytes J (FileMacKeyInfo sid) = build_file_mac_key_info J sid"
| "context_bytes J (KvCekInfo sid key nonce) = build_kv_cek_info J sid key nonce"
| "context_bytes J (KvMacKeyInfo sid) = build_kv_mac_key_info J sid"

fun context_json :: "json_lib \<Rightarrow> context_use \<Rightarrow> json" where
  "context_json J (KvEntryAad sid key) = kv_entry_context J AAD_KV_ENTRY_PAYLOAD_V1 sid key"
| "context_json J (FilePayloadAad h) = se_file_payload_header J h"
| "context_json J (KvWrapInfo sid k) = wrap_info_context J HPKE_INFO_KV_WRAP_V1 sid k"
| "context_json J (FileWrapInfo sid k) = wrap_info_context J HPKE_INFO_FILE_WRAP_V1 sid k"
| "context_json J (FileScheduleSalt sid) = sid_context J HKDF_SALT_FILE_V1 sid"
| "context_json J (KvScheduleSalt sid) = sid_context J HKDF_SALT_KV_V1 sid"
| "context_json J (FileContentKeyInfo sid) = sid_context J HKDF_INFO_FILE_CONTENT_KEY_V1 sid"
| "context_json J (FileMacKeyInfo sid) = sid_context J HKDF_INFO_FILE_MAC_KEY_V1 sid"
| "context_json J (KvCekInfo sid key nonce) = kv_cek_context J HKDF_INFO_KV_CEK_V1 sid key nonce"
| "context_json J (KvMacKeyInfo sid) = sid_context J HKDF_INFO_KV_MAC_KEY_V1 sid"

fun context_sid :: "context_use \<Rightarrow> uuid" where
  "context_sid (KvEntryAad sid _) = sid" | "context_sid (FilePayloadAad h) = fph_sid h"
| "context_sid (KvWrapInfo sid _) = sid" | "context_sid (FileWrapInfo sid _) = sid"
| "context_sid (FileScheduleSalt sid) = sid" | "context_sid (KvScheduleSalt sid) = sid"
| "context_sid (FileContentKeyInfo sid) = sid" | "context_sid (FileMacKeyInfo sid) = sid"
| "context_sid (KvCekInfo sid _ _) = sid" | "context_sid (KvMacKeyInfo sid) = sid"

definition printer_reads_back :: "json_lib \<Rightarrow> json \<Rightarrow> bool" where
  "printer_reads_back J j \<longleftrightarrow> jl_tokenize J (jl_jcs J j) = Some (raw_of j)"

lemma raw_of_inject: "wf_json a \<Longrightarrow> wf_json b \<Longrightarrow> raw_of a = raw_of b \<Longrightarrow> a = b"
  by (metis Inr_inject unique_json_raw_of)

lemma jcs_inject:
  "wf_json a \<Longrightarrow> wf_json b \<Longrightarrow> printer_reads_back J a \<Longrightarrow> printer_reads_back J b \<Longrightarrow>
   jl_jcs J a = jl_jcs J b \<Longrightarrow> a = b"
  by (metis option.inject printer_reads_back_def raw_of_inject)

lemma context_bytes_json: "wf_json (context_json J u) \<and> context_bytes J u = Inr (jl_jcs J (context_json J u))"
  by (cases u) (simp_all add: binding_defs)

lemma context_constants_distinct:
  "distinct [AAD_KV_ENTRY_PAYLOAD_V1, HPKE_INFO_KV_WRAP_V1, HPKE_INFO_FILE_WRAP_V1, HKDF_SALT_FILE_V1,
     HKDF_SALT_KV_V1, HKDF_INFO_FILE_CONTENT_KEY_V1, HKDF_INFO_FILE_MAC_KEY_V1, HKDF_INFO_KV_CEK_V1,
     HKDF_INFO_KV_MAC_KEY_V1]"
  by (simp add: context_constant_defs)

lemma context_constants_distinct_rev:
  "distinct [HKDF_INFO_KV_MAC_KEY_V1, HKDF_INFO_KV_CEK_V1, HKDF_INFO_FILE_MAC_KEY_V1,
     HKDF_INFO_FILE_CONTENT_KEY_V1, HKDF_SALT_KV_V1, HKDF_SALT_FILE_V1, HPKE_INFO_FILE_WRAP_V1,
     HPKE_INFO_KV_WRAP_V1, AAD_KV_ENTRY_PAYLOAD_V1]"
  by (simp add: context_constant_defs)

lemmas context_constants_neq [simp] =
  context_constants_distinct [simplified] context_constants_distinct_rev [simplified]

fun context_kind :: "context_use \<Rightarrow> string option" where
  "context_kind (KvEntryAad _ _) = Some AAD_KV_ENTRY_PAYLOAD_V1"
| "context_kind (FilePayloadAad _) = None"
| "context_kind (KvWrapInfo _ _) = Some HPKE_INFO_KV_WRAP_V1"
| "context_kind (FileWrapInfo _ _) = Some HPKE_INFO_FILE_WRAP_V1"
| "context_kind (FileScheduleSalt _) = Some HKDF_SALT_FILE_V1"
| "context_kind (KvScheduleSalt _) = Some HKDF_SALT_KV_V1"
| "context_kind (FileContentKeyInfo _) = Some HKDF_INFO_FILE_CONTENT_KEY_V1"
| "context_kind (FileMacKeyInfo _) = Some HKDF_INFO_FILE_MAC_KEY_V1"
| "context_kind (KvCekInfo _ _ _) = Some HKDF_INFO_KV_CEK_V1"
| "context_kind (KvMacKeyInfo _) = Some HKDF_INFO_KV_MAC_KEY_V1"

lemma context_json_inj:
  assumes "context_json J u = context_json J u'"
    and "jl_uuid_show J (context_sid u) = jl_uuid_show J (context_sid u') \<Longrightarrow>
      context_sid u = context_sid u'"
  shows "u = u'"
proof -
  have kind: "context_kind u = (case context_json J u of JObj ms \<Rightarrow>
      map_option (\<lambda>j. case j of JStr s \<Rightarrow> s) (map_of ms ''p''))" for u
    by (cases u) (simp_all add: context_defs se_file_payload_header_def)
  have "context_kind u = context_kind u'" by (simp add: kind assms(1))
  then show ?thesis
    using assms
    by (cases u; cases u'; simp add: context_defs se_file_payload_header_def)
qed

text \<open>
  C11. No two uses share a context: when the JSON printer's output reads back and the session ids
  print differently when they differ, equal context bytes come from the same use with the same
  session, key id, entry key and nonce (file or kv, salt or info, wrap or entry, never across).
\<close>

theorem contexts_never_collide:
  assumes "context_bytes J u = context_bytes J u'"
    and "printer_reads_back J (context_json J u)" and "printer_reads_back J (context_json J u')"
    and "jl_uuid_parse J (jl_uuid_show J (context_sid u)) = Some (context_sid u)"
    and "jl_uuid_parse J (jl_uuid_show J (context_sid u')) = Some (context_sid u')"
  shows "u = u'"
proof (rule context_json_inj)
  show "context_json J u = context_json J u'"
    using assms(1-3) context_bytes_json [of J u] context_bytes_json [of J u']
    by (auto intro: jcs_inject)
  show "context_sid u = context_sid u'"
    if "jl_uuid_show J (context_sid u) = jl_uuid_show J (context_sid u')"
    using assms(4,5) that by (metis option.inject)
qed

definition sample_contexts :: "context_use list" where
  "sample_contexts = [KvWrapInfo 1 ''7M2Q9D4R1H8VW6PKT3XNC5JY2F9AR8GD'',
     FileWrapInfo 1 ''7M2Q9D4R1H8VW6PKT3XNC5JY2F9AR8GD'', KvCekInfo 1 ''K'' ''AA'']"

lemma contexts_never_collide_witness:
  "\<exists>J. context_bytes J (KvWrapInfo 1 ''7M2Q9D4R1H8VW6PKT3XNC5JY2F9AR8GD'') \<noteq>
       context_bytes J (FileWrapInfo 1 ''7M2Q9D4R1H8VW6PKT3XNC5JY2F9AR8GD'')"
proof -
  let ?J = "sample_lib (map (context_json (sample_lib [])) sample_contexts)"
  let ?a = "KvWrapInfo 1 ''7M2Q9D4R1H8VW6PKT3XNC5JY2F9AR8GD''"
  let ?b = "FileWrapInfo 1 ''7M2Q9D4R1H8VW6PKT3XNC5JY2F9AR8GD''"
  have sid: "context_json (sample_lib js) u = context_json (sample_lib []) u" for js u
    by (cases u) (simp_all add: context_defs se_file_payload_header_def sample_lib_def)
  have reads: "printer_reads_back ?J (context_json ?J u)" if "u \<in> set sample_contexts" for u
  proof -
    have "storable ?J SchemaKvHead (context_json ?J u)"
      unfolding sid [of "map (context_json (sample_lib [])) sample_contexts"]
      using that context_bytes_json
      by (intro sample_lib_storable) (auto simp: sample_contexts_def)
    then show ?thesis by (simp add: storable_def printer_reads_back_def)
  qed
  have uuid: "jl_uuid_parse ?J (jl_uuid_show ?J 1) = Some 1" by (simp add: sample_lib_def)
  have "context_bytes ?J ?a \<noteq> context_bytes ?J ?b"
    using contexts_never_collide [of ?J ?a ?b] reads [of ?a] reads [of ?b] uuid
    by (auto simp: sample_contexts_def)
  then show ?thesis by blast
qed

end
