(* ===== verification/Artifact_Signature.thy ===== *)
theory Artifact_Signature
  imports Artifact_Keys Kv_Document
begin

text \<open>
  Signatures and key-possession proofs of artifacts: \<open>format/signature/*.rs\<close>,
  \<open>format/file.rs\<close>, \<open>feature/envelope/signature.rs\<close> and \<open>feature/envelope/key_possession.rs\<close>.
  The framing lemmas show that the bytes signed and the bytes MACed determine every field; the
  properties at the end show that what a writer signs a reader accepts, and exactly when a
  possession proof is accepted.
\<close>

section \<open>Framed bytes\<close>

definition MAC_DOMAIN_KEY_POSSESSION_V1 :: string where
  "MAC_DOMAIN_KEY_POSSESSION_V1 = ''kapsaro:mac:key-possession@1''"
definition SIG_DOMAIN_ARTIFACT_SIGNATURE_V1 :: string where
  "SIG_DOMAIN_ARTIFACT_SIGNATURE_V1 = ''kapsaro:sig:artifact-signature@1''"

definition append_framed_field :: "u8 list \<Rightarrow> u8 list \<Rightarrow> u8 list" where
  "append_framed_field out field = out @ as_bytes (nat_show (length field)) @ [58] @ field"

definition build_domain_framed_bytes :: "u8 list \<Rightarrow> u8 list list \<Rightarrow> u8 list" where
  "build_domain_framed_bytes domain parts = foldl append_framed_field domain parts"

definition build_key_possession_mac_message :: "u8 list \<Rightarrow> string \<Rightarrow> u8 list" where
  "build_key_possession_mac_message body signer_kid =
     build_domain_framed_bytes (as_bytes MAC_DOMAIN_KEY_POSSESSION_V1) [body, as_bytes signer_kid]"

definition signature_header_json :: "string \<Rightarrow> string \<Rightarrow> json" where
  "signature_header_json alg k = JObj [(''alg'', JStr alg), (''kid'', JStr k)]"

definition build_artifact_signature_header :: "json_lib \<Rightarrow> string \<Rightarrow> string \<Rightarrow> u8 list res" where
  "build_artifact_signature_header J alg k = jcs_normalize J (signature_header_json alg k)"

definition build_artifact_signature_input ::
  "json_lib \<Rightarrow> string \<Rightarrow> string \<Rightarrow> u8 list \<Rightarrow> string \<Rightarrow> u8 list res" where
  "build_artifact_signature_input J alg signer_kid body mac_string =
     res_bind (build_artifact_signature_header J alg signer_kid) (\<lambda>header.
     Inr (build_domain_framed_bytes (as_bytes SIG_DOMAIN_ARTIFACT_SIGNATURE_V1)
       [header, body, as_bytes mac_string]))"

definition validate_signature_algorithm :: "string \<Rightarrow> string \<Rightarrow> unit res" where
  "validate_signature_algorithm signature_alg expected_alg =
     (if signature_alg = expected_alg then Inr () else Inl (plain_error Crypto))"

definition encode_ed25519_signature :: "u8 list \<Rightarrow> string" where
  "encode_ed25519_signature signature = encode_base64url_nopad signature"

definition decode_ed25519_signature :: "string \<Rightarrow> u8 list res" where
  "decode_ed25519_signature signature =
     res_bind (map_err (\<lambda>_. plain_error Crypto) (decode_base64url_nopad signature)) (\<lambda>bytes.
     if length bytes = 64 then Inr bytes else Inl (plain_error Crypto))"

definition build_file_signature_bytes :: "json_lib \<Rightarrow> file_enc_protected \<Rightarrow> u8 list res" where
  "build_file_signature_bytes J protected = jcs_normalize J (se_file_protected J protected)"

definition build_kv_artifact_body_bytes :: "kv_enc_document \<Rightarrow> u8 list" where
  "build_kv_artifact_body_bytes doc = build_canonical_bytes (kvd_lines doc)"

definition build_kv_artifact_body_bytes_from_unsigned :: "string \<Rightarrow> u8 list" where
  "build_kv_artifact_body_bytes_from_unsigned unsigned_text = as_bytes unsigned_text"

section \<open>Key-possession proofs\<close>

fun compute_key_possession_tag ::
  "crypto_lib \<Rightarrow> kpp_algorithm \<Rightarrow> u8 list \<Rightarrow> u8 list \<Rightarrow> string \<Rightarrow> u8 list" where
  "compute_key_possession_tag C HmacSha256 key body signer_kid =
     compute_hmac_sha256_tag C key (build_key_possession_mac_message body signer_kid)"

fun verify_key_possession_tag ::
  "crypto_lib \<Rightarrow> kpp_algorithm \<Rightarrow> u8 list \<Rightarrow> u8 list \<Rightarrow> string \<Rightarrow> u8 list \<Rightarrow> bool" where
  "verify_key_possession_tag C HmacSha256 key body signer_kid expected_tag =
     verify_hmac_sha256_tag C key (build_key_possession_mac_message body signer_kid) expected_tag"

definition build_key_possession_proof ::
  "crypto_lib \<Rightarrow> u8 list \<Rightarrow> u8 list \<Rightarrow> string \<Rightarrow> key_possession_proof res" where
  "build_key_possession_proof C body mac_key signer_kid =
     (case KeyPossessionProof_try_new HmacSha256
             (compute_key_possession_tag C HmacSha256 mac_key body signer_kid) of
        Inl _ \<Rightarrow> Inl (plain_error Crypto)
      | Inr proof \<Rightarrow> Inr proof)"

definition verify_key_possession_proof ::
  "crypto_lib \<Rightarrow> key_possession_proof \<Rightarrow> u8 list \<Rightarrow> u8 list \<Rightarrow> string \<Rightarrow> unit res" where
  "verify_key_possession_proof C proof key body signer_kid =
     (if verify_key_possession_tag C (kpp_algorithm proof) key body signer_kid (kpp_tag proof)
      then Inr () else Inl (verification_error ''E_KEY_POSSESSION_MAC_INVALID''))"

record verified_file_key_possession =
  fkp_document :: "file_enc_document verified_document"
  fkp_master_key :: "u8 list"
  fkp_content_key :: "u8 list"

record verified_kv_key_possession =
  kkp_document :: "kv_enc_document verified_document"
  kkp_master_key :: "u8 list"
  kkp_key_schedule :: key_schedule

definition verify_file_key_possession ::
  "json_lib \<Rightarrow> crypto_lib \<Rightarrow> file_enc_document verified_document \<Rightarrow> u8 list \<Rightarrow>
   verified_file_key_possession res" where
  "verify_file_key_possession J C document master_key =
     (let doc = vd_document document in
      res_bind (build_file_signature_bytes J (fed_protected doc)) (\<lambda>body.
      res_bind (file_schedule_extract J C master_key (fe_sid (fed_protected doc))) (\<lambda>schedule.
      res_bind (file_derive_mac_key J C schedule) (\<lambda>mac_key.
      res_bind (verify_key_possession_proof C (sig_mac (fed_signature doc)) mac_key body
                  (sig_kid (fed_signature doc))) (\<lambda>_.
      res_bind (file_derive_content_key J C schedule) (\<lambda>content_key.
      Inr \<lparr>fkp_document = document, fkp_master_key = master_key, fkp_content_key = content_key\<rparr>))))))"

definition verify_kv_key_possession ::
  "json_lib \<Rightarrow> crypto_lib \<Rightarrow> kv_enc_document verified_document \<Rightarrow> u8 list \<Rightarrow>
   verified_kv_key_possession res" where
  "verify_kv_key_possession J C document master_key =
     (let doc = vd_document document; body = build_kv_artifact_body_bytes doc in
      res_bind (kv_schedule_extract J C master_key (kvh_sid (kvd_head doc))) (\<lambda>schedule.
      res_bind (kv_derive_mac_key J C schedule) (\<lambda>mac_key.
      res_bind (verify_key_possession_proof C (sig_mac (kvd_signature doc)) mac_key body
                  (sig_kid (kvd_signature doc))) (\<lambda>_.
      Inr \<lparr>kkp_document = document, kkp_master_key = master_key, kkp_key_schedule = schedule\<rparr>))))"

section \<open>Signing and verifying\<close>

record signing_context =
  sc_signing_key :: "u8 list"
  sc_signer_kid :: string
  sc_signer_pub :: public_key

definition build_artifact_signature ::
  "crypto_lib \<Rightarrow> u8 list \<Rightarrow> u8 list \<Rightarrow> string \<Rightarrow> public_key \<Rightarrow> key_possession_proof \<Rightarrow> artifact_signature" where
  "build_artifact_signature C sig_input signing_key signer_kid signer_pub mac =
     \<lparr>sig_alg = SIGNATURE_ED25519, sig_kid = signer_kid, sig_signer_pub = signer_pub, sig_mac = mac,
      sig_sig = encode_ed25519_signature (sign_detached_bytes C sig_input signing_key)\<rparr>"

definition sign_file_document ::
  "json_lib \<Rightarrow> crypto_lib \<Rightarrow> file_enc_protected \<Rightarrow> u8 list \<Rightarrow> u8 list \<Rightarrow> string \<Rightarrow> public_key \<Rightarrow>
   artifact_signature res" where
  "sign_file_document J C protected mac_key signing_key signer_kid signer_pub =
     res_bind (build_file_signature_bytes J protected) (\<lambda>body.
     res_bind (build_key_possession_proof C body mac_key signer_kid) (\<lambda>mac.
     res_bind (build_artifact_signature_input J SIGNATURE_ED25519 signer_kid body (kpp_wire mac)) (\<lambda>sig_input.
     Inr (build_artifact_signature C sig_input signing_key signer_kid signer_pub mac))))"

definition verify_file_signature ::
  "json_lib \<Rightarrow> crypto_lib \<Rightarrow> file_enc_protected \<Rightarrow> u8 list \<Rightarrow> artifact_signature \<Rightarrow> unit res" where
  "verify_file_signature J C protected verifying_key signature =
     res_bind (build_file_signature_bytes J protected) (\<lambda>body.
     res_bind (build_artifact_signature_input J (sig_alg signature) (sig_kid signature) body
                 (kpp_wire (sig_mac signature))) (\<lambda>sig_input.
     res_bind (validate_signature_algorithm (sig_alg signature) SIGNATURE_ED25519) (\<lambda>_.
     res_bind (decode_ed25519_signature (sig_sig signature)) (\<lambda>signature_bytes.
     verify_detached_bytes C sig_input verifying_key signature_bytes))))"

definition sign_kv_document ::
  "json_lib \<Rightarrow> crypto_lib \<Rightarrow> string \<Rightarrow> u8 list \<Rightarrow> signing_context \<Rightarrow> string res" where
  "sign_kv_document J C unsigned_text mac_key signing =
     (let body = build_kv_artifact_body_bytes_from_unsigned unsigned_text in
      res_bind (build_key_possession_proof C body mac_key (sc_signer_kid signing)) (\<lambda>mac.
      res_bind (build_artifact_signature_input J SIGNATURE_ED25519 (sc_signer_kid signing) body
                  (kpp_wire mac)) (\<lambda>sig_input.
      res_bind (token_encode J (se_artifact_signature (build_artifact_signature C sig_input
                  (sc_signing_key signing) (sc_signer_kid signing) (sc_signer_pub signing) mac)))
        (\<lambda>sig_token. Inr (unsigned_text @ '':SIG '' @ sig_token @ [LF])))))"

definition verify_kv_signature ::
  "json_lib \<Rightarrow> crypto_lib \<Rightarrow> kv_enc_document \<Rightarrow> u8 list \<Rightarrow> artifact_signature \<Rightarrow> unit res" where
  "verify_kv_signature J C doc verifying_key signature =
     res_bind (build_artifact_signature_input J (sig_alg signature) (sig_kid signature)
                 (build_kv_artifact_body_bytes doc) (kpp_wire (sig_mac signature))) (\<lambda>sig_input.
     res_bind (validate_signature_algorithm (sig_alg signature) SIGNATURE_ED25519) (\<lambda>_.
     res_bind (decode_ed25519_signature (sig_sig signature)) (\<lambda>signature_bytes.
     verify_detached_bytes C sig_input verifying_key signature_bytes)))"

section \<open>Framing determines the fields\<close>

definition framed :: "u8 list \<Rightarrow> u8 list" where
  "framed field = as_bytes (nat_show (length field)) @ [58] @ field"

lemma framed_bytes_eq: "build_domain_framed_bytes domain parts = domain @ concat (map framed parts)"
proof -
  have "foldl append_framed_field out parts = out @ concat (map framed parts)" for out
    by (induction parts arbitrary: out) (simp_all add: append_framed_field_def framed_def)
  then show ?thesis by (simp add: build_domain_framed_bytes_def)
qed

lemma colon_not_digit: "(58 :: u8) \<notin> set (as_bytes (nat_show n))"
proof
  assume "(58 :: u8) \<in> set (as_bytes (nat_show n))"
  then obtain c where c: "c \<in> set (nat_show n)" "(of_char c :: u8) = 58" by (auto simp: as_bytes_def)
  then have "unat (of_char c :: u8) = 58" by simp
  then have "(of_char c :: nat) = 58" by simp
  with nat_show_digits [OF c(1)] show False by simp
qed

lemma split_at_first:
  "c \<notin> set xs \<Longrightarrow> c \<notin> set xs' \<Longrightarrow> xs @ c # ys = xs' @ c # ys' \<longleftrightarrow> xs = xs' \<and> ys = ys'"
proof (induction xs arbitrary: xs')
  case Nil
  then show ?case by (cases xs') auto
next
  case (Cons x xs)
  then show ?case by (cases xs') auto
qed

lemma framed_append_inject: "framed f @ r = framed g @ s \<longleftrightarrow> f = g \<and> r = s"
proof
  assume eq: "framed f @ r = framed g @ s"
  then have "as_bytes (nat_show (length f)) = as_bytes (nat_show (length g)) \<and> f @ r = g @ s"
    using colon_not_digit by (simp add: framed_def split_at_first)
  then show "f = g \<and> r = s" by auto
qed simp

lemma framed_fields_inject:
  "length fs = length gs \<Longrightarrow>
   build_domain_framed_bytes d fs = build_domain_framed_bytes d gs \<longleftrightarrow> fs = gs"
  by (induction fs gs rule: list_induct2) (simp_all add: framed_bytes_eq framed_append_inject)

text \<open>
  C12. The signature input determines what was signed: with a JSON printer whose headers read
  back, two signature inputs are equal only for the same algorithm, the same signer kid, the same
  artifact body and the same possession proof; and a possession MAC message only for the same body
  and signer. No field can be lengthened at the expense of its neighbour.
\<close>

theorem signature_input_determines_fields:
  assumes "build_artifact_signature_input J alg k body mac = Inr input"
    and "build_artifact_signature_input J alg' k' body' mac' = Inr input"
    and "printer_reads_back J (signature_header_json alg k)"
    and "printer_reads_back J (signature_header_json alg' k')"
  shows "alg = alg' \<and> k = k' \<and> body = body' \<and> mac = mac' \<and>
    (build_key_possession_mac_message b s = build_key_possession_mac_message b' s' \<longleftrightarrow> b = b' \<and> s = s')"
proof -
  have wf: "wf_json (signature_header_json a i)" for a i
    by (auto simp: signature_header_json_def less_char_def)
  have "jl_jcs J (signature_header_json alg k) = jl_jcs J (signature_header_json alg' k') \<and>
      body = body' \<and> mac = mac'"
    using assms(1,2)
    by (auto simp: build_artifact_signature_input_def build_artifact_signature_header_def wf
        framed_fields_inject)
  moreover from this have "signature_header_json alg k = signature_header_json alg' k'"
    using jcs_inject wf assms(3,4) by blast
  ultimately show ?thesis
    by (auto simp: signature_header_json_def build_key_possession_mac_message_def framed_fields_inject)
qed

lemma signature_input_determines_fields_witness:
  "\<exists>J. \<exists>a b. build_artifact_signature_input J ''a'' ''k'' [1] ''m'' = Inr a \<and>
     build_artifact_signature_input J ''a'' ''k'' [1, 2] ''m'' = Inr b \<and> a \<noteq> b"
proof -
  let ?h = "signature_header_json ''a'' ''k''"
  let ?J = "sample_lib [?h]"
  have wf: "wf_json ?h" by (simp add: signature_header_json_def less_char_def)
  then have "storable ?J SchemaKvHead ?h" by (intro sample_lib_storable) simp_all
  then have reads: "printer_reads_back ?J ?h" by (simp add: storable_def printer_reads_back_def)
  obtain a b where a: "build_artifact_signature_input ?J ''a'' ''k'' [1] ''m'' = Inr a"
    and b: "build_artifact_signature_input ?J ''a'' ''k'' [1, 2] ''m'' = Inr b"
    using wf by (simp add: build_artifact_signature_input_def build_artifact_signature_header_def)
  have "a \<noteq> b"
    using signature_input_determines_fields [OF a _ reads reads, of "[1, 2]" "''m''"] b by auto
  with a b show ?thesis by blast
qed

section \<open>What is signed verifies\<close>

definition signed_input :: "json_lib \<Rightarrow> u8 list \<Rightarrow> string \<Rightarrow> string \<Rightarrow> u8 list" where
  "signed_input J body k mac = build_domain_framed_bytes (as_bytes SIG_DOMAIN_ARTIFACT_SIGNATURE_V1)
     [jl_jcs J (signature_header_json SIGNATURE_ED25519 k), body, as_bytes mac]"

definition possession_proof :: "crypto_lib \<Rightarrow> u8 list \<Rightarrow> u8 list \<Rightarrow> string \<Rightarrow> key_possession_proof" where
  "possession_proof C body mac_key k =
     (let tag = cl_hmac C mac_key (build_key_possession_mac_message body k) in
      \<lparr>kpp_wire = KEY_POSSESSION_HMAC_SHA256 @ '':'' @ encode_base64url_nopad tag,
       kpp_algorithm = HmacSha256, kpp_tag = tag\<rparr>)"

definition expected_signature ::
  "json_lib \<Rightarrow> crypto_lib \<Rightarrow> u8 list \<Rightarrow> u8 list \<Rightarrow> signing_context \<Rightarrow> artifact_signature" where
  "expected_signature J C body mac_key sc =
     (let mac = possession_proof C body mac_key (sc_signer_kid sc) in
      build_artifact_signature C (signed_input J body (sc_signer_kid sc) (kpp_wire mac))
        (sc_signing_key sc) (sc_signer_kid sc) (sc_signer_pub sc) mac)"

lemma signature_input_total:
  "build_artifact_signature_input J SIGNATURE_ED25519 k body mac = Inr (signed_input J body k mac)"
proof -
  have "wf_json (signature_header_json SIGNATURE_ED25519 k)"
    by (simp add: signature_header_json_def less_char_def)
  then show ?thesis
    by (simp add: build_artifact_signature_input_def build_artifact_signature_header_def signed_input_def)
qed

lemma possession_proof_built:
  "hmac_ok C \<Longrightarrow> build_key_possession_proof C body mac_key k = Inr (possession_proof C body mac_key k)"
  "hmac_ok C \<Longrightarrow> kpp_valid (possession_proof C body mac_key k)"
  by (simp_all add: build_key_possession_proof_def KeyPossessionProof_try_new_def validate_tag_len_def
      KEY_POSSESSION_HMAC_SHA256_TAG_LEN_def hmac_ok_def compute_hmac_sha256_tag_def
      possession_proof_def kpp_valid_def Let_def)

lemma possession_proof_verifies:
  "verify_key_possession_proof C (possession_proof C body mac_key k) mac_key body k = Inr ()"
  by (simp add: verify_key_possession_proof_def possession_proof_def Let_def
      verify_hmac_sha256_tag_def compute_hmac_sha256_tag_def)

lemma expected_signature_fields [simp]:
  "sig_alg (expected_signature J C body mac_key sc) = SIGNATURE_ED25519"
  "sig_kid (expected_signature J C body mac_key sc) = sc_signer_kid sc"
  "sig_signer_pub (expected_signature J C body mac_key sc) = sc_signer_pub sc"
  "sig_mac (expected_signature J C body mac_key sc) = possession_proof C body mac_key (sc_signer_kid sc)"
  by (simp_all add: expected_signature_def build_artifact_signature_def Let_def)

lemma decode_encode_ed25519 [simp]:
  "length bs = 64 \<Longrightarrow> decode_ed25519_signature (encode_ed25519_signature bs) = Inr bs"
proof -
  assume len: "length bs = 64"
  then have "decode_base64url_nopad (encode_base64url_nopad bs) = Inr bs"
    by (intro url.dec_enc) (simp add: url_fits_def compute_encoded_len_def limit_defs Let_def)
  with len show ?thesis by (simp add: decode_ed25519_signature_def encode_ed25519_signature_def)
qed

lemma sign_kv_document_eq:
  "hmac_ok C \<Longrightarrow> sign_kv_document J C unsigned_text mac_key sc =
     res_map (\<lambda>s. unsigned_text @ '':SIG '' @ s @ [LF])
       (token_encode J (se_artifact_signature (expected_signature J C (as_bytes unsigned_text) mac_key sc)))"
  by (cases "token_encode J (se_artifact_signature (expected_signature J C (as_bytes unsigned_text) mac_key sc))")
     (simp_all add: sign_kv_document_def build_kv_artifact_body_bytes_from_unsigned_def
       possession_proof_built signature_input_total expected_signature_def Let_def)

lemma expected_signature_verifies:
  assumes "ed25519_pair C (sc_signing_key sc) vk" and "sg = expected_signature J C body mac_key sc"
  shows "res_bind (build_artifact_signature_input J (sig_alg sg) (sig_kid sg) body (kpp_wire (sig_mac sg)))
    (\<lambda>sig_input. res_bind (validate_signature_algorithm (sig_alg sg) SIGNATURE_ED25519) (\<lambda>_.
     res_bind (decode_ed25519_signature (sig_sig sg)) (\<lambda>bytes.
     verify_detached_bytes C sig_input vk bytes))) = Inr ()"
proof -
  have sig: "sig_sig sg = encode_ed25519_signature (cl_ed_sign C (sc_signing_key sc)
      (signed_input J body (sc_signer_kid sc) (kpp_wire (possession_proof C body mac_key (sc_signer_kid sc)))))"
    by (simp add: assms(2) expected_signature_def build_artifact_signature_def Let_def
        sign_detached_bytes_def)
  show ?thesis
    using assms(1)
    by (simp add: assms(2) sig [unfolded assms(2)] signature_input_total validate_signature_algorithm_def
        verify_detached_bytes_def ed25519_pair_def)
qed

lemma sign_file_document_eq:
  "hmac_ok C \<Longrightarrow> build_file_signature_bytes J protected = Inr body \<Longrightarrow>
   sign_file_document J C protected mac_key sk k pub = Inr (expected_signature J C body mac_key
     \<lparr>sc_signing_key = sk, sc_signer_kid = k, sc_signer_pub = pub\<rparr>)"
  by (simp add: sign_file_document_def possession_proof_built signature_input_total
      expected_signature_def Let_def)

text \<open>
  A file artifact that is signed verifies: the signature \<open>sign_file_document\<close> returns for a
  document is accepted by \<open>verify_file_signature\<close> under the public half of the signing key, and its
  possession proof by whoever derives the same MAC key; a verifier holding another MAC key accepts
  the proof only if the HMAC tags of the two keys coincide.
\<close>

theorem signed_file_document_verifies:
  assumes "hmac_ok C" and "ed25519_pair C sk vk"
    and "sign_file_document J C protected mac_key sk k pub = Inr sg"
  shows "verify_file_signature J C protected vk sg = Inr () \<and>
    (\<exists>body. build_file_signature_bytes J protected = Inr body \<and>
      (\<forall>key. verify_key_possession_proof C (sig_mac sg) key body (sig_kid sg) =
         (if cl_hmac C key (build_key_possession_mac_message body k) =
             cl_hmac C mac_key (build_key_possession_mac_message body k)
          then Inr () else Inl (verification_error ''E_KEY_POSSESSION_MAC_INVALID''))))"
proof -
  from assms(3) obtain body where body: "build_file_signature_bytes J protected = Inr body"
    by (auto simp: sign_file_document_def)
  let ?sc = "\<lparr>sc_signing_key = sk, sc_signer_kid = k, sc_signer_pub = pub\<rparr>"
  have sg: "sg = expected_signature J C body mac_key ?sc"
    using assms(3) sign_file_document_eq [OF assms(1) body] by simp
  have "verify_file_signature J C protected vk sg = Inr ()"
    using expected_signature_verifies [OF _ sg, of vk] assms(2)
    by (simp add: verify_file_signature_def body)
  moreover have "verify_key_possession_proof C (sig_mac sg) key body (sig_kid sg) =
      (if cl_hmac C key (build_key_possession_mac_message body k) =
          cl_hmac C mac_key (build_key_possession_mac_message body k)
       then Inr () else Inl (verification_error ''E_KEY_POSSESSION_MAC_INVALID''))" for key
    by (simp add: sg verify_key_possession_proof_def possession_proof_def Let_def
        verify_hmac_sha256_tag_def compute_hmac_sha256_tag_def)
  ultimately show ?thesis using body by blast
qed

definition sample_signing :: signing_context where
  "sample_signing = \<lparr>sc_signing_key = [1], sc_signer_kid = ''7M2Q9D4R1H8VW6PKT3XNC5JY2F9AR8GD'',
     sc_signer_pub = sample_public_key\<rparr>"

definition sample_file_protected :: file_enc_protected where
  "sample_file_protected =
     \<lparr>fe_format = FILE_ENC_V1, fe_sid = 1, fe_wrap = [], fe_removed_recipients = None,
      fe_payload = \<lparr>fp_protected = \<lparr>fph_format = FILE_PAYLOAD_V1, fph_sid = 1,
        fph_aead = AEAD_XCHACHA20_POLY1305\<rparr>, fp_encrypted = \<lparr>fpc_nonce = ''AA'', fpc_ct = ''AA''\<rparr>\<rparr>,
      fe_created_at = ''2026-01-01T00:00:00Z'', fe_updated_at = ''2026-01-01T00:00:00Z''\<rparr>"

lemma sample_file_body: "\<exists>body. build_file_signature_bytes (sample_lib []) sample_file_protected = Inr body"
proof -
  have "wf_json (se_file_protected (sample_lib []) sample_file_protected)"
    by (simp add: sample_file_protected_def se_file_protected_def se_file_payload_def less_char_def)
  then show ?thesis by (simp add: build_file_signature_bytes_def)
qed

lemma signed_file_document_verifies_witness:
  "\<exists>sg. verify_file_signature (sample_lib []) sample_crypto sample_file_protected [1] sg = Inr ()"
proof -
  obtain body where "build_file_signature_bytes (sample_lib []) sample_file_protected = Inr body"
    using sample_file_body by blast
  then show ?thesis
    using signed_file_document_verifies [of sample_crypto "[1]" "[1]" "sample_lib []"
        sample_file_protected "[9]" "sc_signer_kid sample_signing" sample_public_key]
    by (auto simp: sign_file_document_eq)
qed

text \<open>
  C8. The whole write path of a kv-enc file is accepted by the read path: a draft that the JSON
  libraries carry, serialised and signed with \<open>sign_kv_document\<close>, parses to a document with the
  draft's head, wrap and entries whose signature verifies under the public half of the signing key
  and whose possession proof verifies under the MAC key it was made with.
\<close>

theorem signed_kv_document_verifies:
  assumes "hmac_ok C" and "ed25519_pair C (sc_signing_key sc) vk"
    and "serialize_unsigned J d = Inr body" and "draft_writable J d vs"
    and "sign_kv_document J C body mac_key sc = Inr content"
    and "storable J SchemaArtifactSignature
      (se_artifact_signature (expected_signature J C (as_bytes body) mac_key sc))"
    and "length content \<le> MAX_KV_ENC_FILE_SIZE"
  shows "\<exists>doc. parse_kv_document J content = Inr doc \<and> kvd_head doc = dr_head d \<and>
    kvd_wrap doc = ws_data (dr_wrap d) \<and> map ke_key (kvd_entries doc) = map de_key (dr_entries d) \<and>
    map ke_value (kvd_entries doc) = vs \<and>
    sig_kid (kvd_signature doc) = sc_signer_kid sc \<and>
    verify_kv_signature J C doc vk (kvd_signature doc) = Inr () \<and>
    verify_key_possession_proof C (sig_mac (kvd_signature doc)) mac_key
      (build_kv_artifact_body_bytes doc) (sig_kid (kvd_signature doc)) = Inr ()"
proof -
  let ?sg = "expected_signature J C (as_bytes body) mac_key sc"
  from assms(5) obtain s where s: "token_encode J (se_artifact_signature ?sg) = Inr s"
    and content: "content = body @ '':SIG '' @ s @ [LF]"
    by (auto simp: sign_kv_document_eq [OF assms(1)])
  have "kpp_valid (sig_mac ?sg)" by (simp add: possession_proof_built [OF assms(1)])
  then obtain doc where doc: "parse_kv_document J content = Inr doc" "kvd_head doc = dr_head d"
    "kvd_wrap doc = ws_data (dr_wrap d)" "kvd_signature doc = ?sg"
    "map ke_key (kvd_entries doc) = map de_key (dr_entries d)" "map ke_value (kvd_entries doc) = vs"
    and bytes: "build_kv_artifact_body_bytes doc = as_bytes body"
    using draft_text_parses [OF assms(3) s assms(4,6)] assms(7)
    unfolding content build_kv_artifact_body_bytes_def by blast
  have "verify_kv_signature J C doc vk (kvd_signature doc) = Inr ()"
    using expected_signature_verifies [OF assms(2) refl]
    by (simp add: verify_kv_signature_def doc(4) bytes)
  then show ?thesis using doc by (simp add: bytes possession_proof_verifies)
qed

text \<open>
  The instance: a library that carries the header of the signature first, then the parts of a
  one-entry draft and the signature made over them.
\<close>

definition sample_sig_header :: json where
  "sample_sig_header = signature_header_json SIGNATURE_ED25519 (sc_signer_kid sample_signing)"

definition byte_token :: "u8 \<Rightarrow> string" where
  "byte_token b = encode_base64url_nopad [b]"

definition sample_signed_body :: string where
  "sample_signed_body = build_unsigned_kv_document (byte_token 1) (byte_token 2) [(''K'', byte_token 3)]"

definition sample_expected :: artifact_signature where
  "sample_expected = expected_signature (sample_lib [sample_sig_header]) sample_crypto
     (as_bytes sample_signed_body) [9] sample_signing"

definition sample_signed_jsons :: "json list" where
  "sample_signed_jsons = [sample_sig_header, se_kv_header (sample_lib []) sample_header,
     se_kv_wrap sample_wrap, se_kv_entry sample_entry, se_artifact_signature sample_expected]"

definition sample_signed_draft :: kv_draft where
  "sample_signed_draft = builder_with_entries [(''K'', byte_token 3)] (builder_new sample_header sample_wrap)"

lemma expected_signature_lib:
  "jl_jcs J (signature_header_json SIGNATURE_ED25519 (sc_signer_kid sc)) =
     jl_jcs J' (signature_header_json SIGNATURE_ED25519 (sc_signer_kid sc)) \<Longrightarrow>
   expected_signature J C body mac_key sc = expected_signature J' C body mac_key sc"
  by (simp add: expected_signature_def signed_input_def)

lemma sample_signed_expected:
  "expected_signature (sample_lib sample_signed_jsons) sample_crypto (as_bytes sample_signed_body)
     [9] sample_signing = sample_expected"
  unfolding sample_expected_def
  by (rule expected_signature_lib)
     (simp add: sample_lib_def sample_signed_jsons_def sample_sig_header_def)

lemma sample_signed_wf: "j \<in> set sample_signed_jsons \<Longrightarrow> wf_json j"
  by (auto simp: sample_signed_jsons_def sample_sig_header_def signature_header_json_def less_char_def
      wf_se_artifact_signature sample_expected_def sample_signing_def sample_public_key_def
      PublicKey_new_def)

lemma sample_signed_storable:
  "j \<in> set sample_signed_jsons \<Longrightarrow> storable (sample_lib sample_signed_jsons) t j"
proof (rule sample_lib_storable)
  assume "j \<in> set sample_signed_jsons"
  then show "wf_json j" by (rule sample_signed_wf)
qed (simp_all add: sample_signed_jsons_def)

lemma sample_signed_tokens:
  "token_encode (sample_lib sample_signed_jsons) (se_kv_header (sample_lib []) sample_header) =
     Inr (byte_token 1)"
  "token_encode (sample_lib sample_signed_jsons) (se_kv_wrap sample_wrap) = Inr (byte_token 2)"
  "token_encode (sample_lib sample_signed_jsons) (se_kv_entry sample_entry) = Inr (byte_token 3)"
  by (simp_all add: sample_lib_encode)
     (simp_all add: byte_token_def sample_signed_jsons_def sample_sig_header_def
       signature_header_json_def se_kv_header_def se_kv_wrap_def se_kv_entry_def sample_wrap_def
       sample_entry_def)

lemma signed_kv_document_verifies_witness:
  "\<exists>content doc. parse_kv_document (sample_lib sample_signed_jsons) content = Inr doc \<and>
     map ke_key (kvd_entries doc) = [''K''] \<and>
     verify_kv_signature (sample_lib sample_signed_jsons) sample_crypto doc [1] (kvd_signature doc) = Inr ()"
proof -
  let ?J = "sample_lib sample_signed_jsons"
  obtain s where s: "token_encode ?J (se_artifact_signature sample_expected) = Inr s" "length s = 2"
    using sample_lib_encode [OF sample_signed_wf] short_token by (simp add: sample_signed_jsons_def)
  then have sign: "sign_kv_document ?J sample_crypto sample_signed_body [9] sample_signing =
      Inr (sample_signed_body @ '':SIG '' @ s @ [LF])"
    by (simp add: sign_kv_document_eq sample_signed_expected)
  have ser: "serialize_unsigned ?J sample_signed_draft = Inr sample_signed_body"
    by (simp add: sample_signed_draft_def sample_signed_body_def serialize_unsigned_def
        resolve_wrap_token_def builder_with_entries_def builder_new_def ws_decoded_def
        sample_signed_tokens sample_lib_uuid [of sample_signed_jsons])
  have st: "storable ?J t (se_kv_header ?J sample_header)" "storable ?J t (se_kv_wrap sample_wrap)"
    "storable ?J t (se_kv_entry sample_entry)" "storable ?J t (se_artifact_signature sample_expected)"
    for t
    unfolding sample_lib_uuid [of sample_signed_jsons]
    by (rule sample_signed_storable; simp add: sample_signed_jsons_def)+
  have entry: "parse_kv_entry_token ?J (byte_token 3) = Inr sample_entry"
    unfolding parse_kv_entry_token_def
    by (rule parse_json_token_encode [where se = se_kv_entry]) (simp_all add: st sample_signed_tokens)
  have uuid: "jl_uuid_parse ?J (jl_uuid_show ?J (kvh_sid sample_header)) = Some (kvh_sid sample_header)"
    by (simp add: sample_lib_def sample_header_def)
  have writable: "draft_writable ?J sample_signed_draft [sample_entry]"
    using st uuid entry
    by (simp add: draft_writable_def wrap_source_ok_def sample_signed_draft_def builder_with_entries_def builder_new_def
        ws_decoded_def draft_inv_def is_valid_key_name_def ascii_class_defs limit_defs
        sample_wrap_def validate_wrap_items_iff)
  have size: "length (sample_signed_body @ '':SIG '' @ s @ [LF]) \<le> MAX_KV_ENC_FILE_SIZE"
    by (simp add: s(2) sample_signed_body_def build_unsigned_kv_document_def byte_token_def short_token
        HEADER_LINE_V1_def limit_defs)
  have key: "map de_key (dr_entries sample_signed_draft) = [''K'']"
    by (simp add: sample_signed_draft_def builder_with_entries_def builder_new_def)
  have "ed25519_pair sample_crypto (sc_signing_key sample_signing) [1]" by (simp add: sample_signing_def)
  from signed_kv_document_verifies [OF _ this ser writable sign _ size] st(4)
  obtain doc where "parse_kv_document ?J (sample_signed_body @ '':SIG '' @ s @ [LF]) = Inr doc"
    "map ke_key (kvd_entries doc) = [''K'']"
    "verify_kv_signature ?J sample_crypto doc [1] (kvd_signature doc) = Inr ()"
    unfolding sample_signed_expected key by fastforce
  then show ?thesis by (intro exI conjI)
qed

end
