(* ===== verification/Key_Context.thy ===== *)
theory Key_Context
  imports Crypto_Model
begin

text \<open>
  The keys an operation works with: relative durations (\<open>support/time.rs\<close>), the expiry policy
  (\<open>feature/context/expiry.rs\<close>), the identity of a local key and the context that carries it
  (\<open>feature/context/crypto.rs\<close>). RFC 3339 parsing is the \<open>time\<close> crate's and is a parameter that
  returns an instant in nanoseconds; the clock is the argument \<open>now\<close>; what the keystore returns is
  a field of the context. A warning keeps its label, day count and date instead of its text; the escaping of
  untrusted text in labels is in \<open>Display\<close>.
\<close>

section \<open>Relative durations\<close>

definition SECONDS_PER_DAY :: int where "SECONDS_PER_DAY = 86400"
definition DAYS_PER_MONTH :: int where "DAYS_PER_MONTH = 30"
definition DAYS_PER_YEAR :: int where "DAYS_PER_YEAR = 365"

lemmas duration_constant_defs = SECONDS_PER_DAY_def DAYS_PER_MONTH_def DAYS_PER_YEAR_def

record relative_duration =
  rd_days :: int
  rd_seconds :: int

definition fits_i64 :: "int \<Rightarrow> bool" where
  "fits_i64 n \<longleftrightarrow> - (2 ^ 63) \<le> n \<and> n < 2 ^ 63"

definition checked_mul :: "int \<Rightarrow> int \<Rightarrow> int option" where
  "checked_mul a b = (if fits_i64 (a * b) then Some (a * b) else None)"

text \<open>\<open>str::parse::<i64>\<close>: an optional sign, at least one digit, and the value in range.\<close>

definition parse_i64 :: "string \<Rightarrow> int option" where
  "parse_i64 s =
     (let neg = starts_with ''-'' s;
          digits = (if neg \<or> starts_with ''+'' s then tl s else s);
          n = int (nat_of_digits digits);
          v = (if neg then - n else n) in
      if digits \<noteq> [] \<and> list_all is_ascii_digit digits \<and> fits_i64 v then Some v else None)"

definition parse_relative_duration :: "string \<Rightarrow> relative_duration res" where
  "parse_relative_duration s =
     (let s' = str_trim s in
      if s' = [] then Inl (plain_error Parse)
      else (case parse_i64 (butlast s') of
          None \<Rightarrow> Inl (plain_error Parse)
        | Some count \<Rightarrow>
            if count \<le> 0 then Inl (plain_error Parse)
            else if last s' \<notin> {CHR ''d'', CHR ''m'', CHR ''y''} then Inl (plain_error Parse)
            else (let days = (if last s' = CHR ''d'' then Some count
                              else if last s' = CHR ''m'' then checked_mul count DAYS_PER_MONTH
                              else checked_mul count DAYS_PER_YEAR) in
              res_bind (ok_or (plain_error Parse) (Option.bind days (\<lambda>d. checked_mul d SECONDS_PER_DAY)))
                (\<lambda>seconds. Inr \<lparr>rd_days = seconds div SECONDS_PER_DAY, rd_seconds = seconds\<rparr>))))"

section \<open>Expiry of keys\<close>

definition EXPIRY_WARNING_DAYS :: int where "EXPIRY_WARNING_DAYS = 30"

type_synonym rfc3339 = "string \<Rightarrow> int option"

definition NANOS_PER_DAY :: int where "NANOS_PER_DAY = 86400 * 10 ^ 9"

datatype key_expiry_status =
  Valid | ExpiringSoon string int | Expired string

definition parse_expires_at :: "rfc3339 \<Rightarrow> string \<Rightarrow> int res" where
  "parse_expires_at T expires_at = ok_or (plain_error Parse) (T expires_at)"

definition check_key_expiry :: "rfc3339 \<Rightarrow> string \<Rightarrow> int \<Rightarrow> key_expiry_status res" where
  "check_key_expiry T expires_at now =
     res_bind (parse_expires_at T expires_at) (\<lambda>expiry.
     if now \<ge> expiry then Inr (Expired expires_at)
     else (let days_remaining = (expiry - now) div NANOS_PER_DAY in
       if days_remaining \<le> EXPIRY_WARNING_DAYS then Inr (ExpiringSoon expires_at days_remaining)
       else Inr Valid))"

fun select_stricter_key_expiry_status ::
  "key_expiry_status \<Rightarrow> key_expiry_status \<Rightarrow> key_expiry_status" where
  "select_stricter_key_expiry_status _ (Expired e) = Expired e"
| "select_stricter_key_expiry_status (Expired e) _ = Expired e"
| "select_stricter_key_expiry_status (ExpiringSoon le ld) (ExpiringSoon re rd) =
     (if rd < ld then ExpiringSoon re rd else ExpiringSoon le ld)"
| "select_stricter_key_expiry_status (ExpiringSoon le ld) Valid = ExpiringSoon le ld"
| "select_stricter_key_expiry_status Valid (ExpiringSoon re rd) = ExpiringSoon re rd"
| "select_stricter_key_expiry_status Valid Valid = Valid"

record local_key_pair_expiry =
  lke_private_expires_at :: string
  lke_public_expires_at :: "string option"

definition select_status :: "rfc3339 \<Rightarrow> local_key_pair_expiry \<Rightarrow> int \<Rightarrow> key_expiry_status res" where
  "select_status T e now =
     res_bind (check_key_expiry T (lke_private_expires_at e) now) (\<lambda>status.
     case lke_public_expires_at e of
       None \<Rightarrow> Inr status
     | Some public_expires_at \<Rightarrow>
         res_bind (check_key_expiry T public_expires_at now) (\<lambda>public_status.
         Inr (select_stricter_key_expiry_status status public_status)))"

definition enforce_not_expired_for_signing ::
  "rfc3339 \<Rightarrow> local_key_pair_expiry \<Rightarrow> int \<Rightarrow> unit res" where
  "enforce_not_expired_for_signing T e now =
     res_bind (select_status T e now) (\<lambda>status.
     case status of Expired _ \<Rightarrow> Inl (verification_error ''key-expiry'') | _ \<Rightarrow> Inr ())"

fun enforce_selected_status_usage ::
  "key_expiry_status \<Rightarrow> bool \<Rightarrow> string \<Rightarrow> key_warning option res" where
  "enforce_selected_status_usage Valid allow label = Inr None"
| "enforce_selected_status_usage (ExpiringSoon expires_at days) allow label =
     Inr (Some (KeyExpiring label days expires_at))"
| "enforce_selected_status_usage (Expired expires_at) allow label =
     (if allow then Inr (Some (KeyExpiredAllowed label expires_at))
      else Inl (verification_error ''E_KEY_EXPIRED''))"

definition enforce_expired_usage ::
  "rfc3339 \<Rightarrow> local_key_pair_expiry \<Rightarrow> int \<Rightarrow> bool \<Rightarrow> key_warning option res" where
  "enforce_expired_usage T e now allow =
     res_bind (select_status T e now) (\<lambda>status.
     enforce_selected_status_usage status allow ''Local key'')"

definition build_signing_warning ::
  "rfc3339 \<Rightarrow> local_key_pair_expiry \<Rightarrow> int \<Rightarrow> key_warning option res" where
  "build_signing_warning T e now =
     res_bind (select_status T e now) (\<lambda>status.
     case status of
       ExpiringSoon expires_at days \<Rightarrow> Inr (Some (KeyExpiring ''Local key'' days expires_at))
     | _ \<Rightarrow> Inr None)"

definition enforce_expired_key_usage ::
  "rfc3339 \<Rightarrow> string \<Rightarrow> int \<Rightarrow> bool \<Rightarrow> string \<Rightarrow> key_warning option res" where
  "enforce_expired_key_usage T expires_at now allow label =
     res_bind (check_key_expiry T expires_at now) (\<lambda>status.
     enforce_selected_status_usage status allow label)"

definition build_recipient_key_expiry_warning ::
  "rfc3339 \<Rightarrow> int \<Rightarrow> public_key \<Rightarrow> key_warning option res" where
  "build_recipient_key_expiry_warning T now doc =
     (let p = pk_protected doc in
      if pk_expires_at p = [] then Inr None
      else res_bind (check_key_expiry T (pk_expires_at p) now) (\<lambda>status.
        case status of
          ExpiringSoon expires_at days \<Rightarrow>
            Inr (Some (KeyExpiring
              (''Recipient public key for '' @ [CHR 0x27] @ pk_subject_handle p @ [CHR 0x27]) days expires_at))
        | _ \<Rightarrow> Inr None))"

definition collect_recipient_key_expiry_warnings ::
  "rfc3339 \<Rightarrow> int \<Rightarrow> public_key list \<Rightarrow> key_warning list res" where
  "collect_recipient_key_expiry_warnings T now keys =
     res_map (\<lambda>ws. map the (filter (\<lambda>w. w \<noteq> None) ws))
       (collect_res (build_recipient_key_expiry_warning T now) keys)"

definition enforce_recipient_key_not_expired :: "rfc3339 \<Rightarrow> int \<Rightarrow> public_key \<Rightarrow> unit res" where
  "enforce_recipient_key_not_expired T now doc =
     (if pk_expires_at (pk_protected doc) = [] then Inr ()
      else res_bind (check_key_expiry T (pk_expires_at (pk_protected doc)) now) (\<lambda>status.
        case status of Expired _ \<Rightarrow> Inl (verification_error ''key-expiry'') | _ \<Rightarrow> Inr ()))"

section \<open>The identity of a local key\<close>

record local_key_identity =
  lki_member_handle :: member_handle
  lki_kid :: kid
  lki_sig_x :: "u8 list"

datatype public_key_match =
  Matches | MemberHandleMismatch | KidMismatch | SignaturePublicKeyMismatch

definition check_public_key :: "local_key_identity \<Rightarrow> public_key \<Rightarrow> public_key_match res" where
  "check_public_key identity public_key =
     (let p = pk_protected public_key in
      if pk_subject_handle p \<noteq> handle_str (lki_member_handle identity) then Inr MemberHandleMismatch
      else if pk_kid p \<noteq> kid_str (lki_kid identity) then Inr KidMismatch
      else res_bind (decode_base64url_nopad_array 32 (jwk_x (ik_sig (pk_keys p)))) (\<lambda>public_sig_x.
        if public_sig_x \<noteq> lki_sig_x identity then Inr SignaturePublicKeyMismatch else Inr Matches))"

definition matches_public_key :: "local_key_identity \<Rightarrow> public_key \<Rightarrow> bool res" where
  "matches_public_key identity public_key =
     res_map (\<lambda>m. m = Matches) (check_public_key identity public_key)"

definition local_key_identity_from_public_key :: "public_key \<Rightarrow> local_key_identity res" where
  "local_key_identity_from_public_key public_key =
     (let p = pk_protected public_key in
      res_bind (decode_base64url_nopad_array 32 (jwk_x (ik_sig (pk_keys p)))) (\<lambda>sig_x.
      res_bind (MemberHandle_new (pk_subject_handle p)) (\<lambda>handle.
      res_bind (Kid_from_canonical (pk_kid p)) (\<lambda>k.
      Inr \<lparr>lki_member_handle = handle, lki_kid = k, lki_sig_x = sig_x\<rparr>))))"

definition matches_local_key_identity :: "public_key \<Rightarrow> local_key_identity option \<Rightarrow> bool res" where
  "matches_local_key_identity public_key identity =
     (case identity of None \<Rightarrow> Inr False | Some i \<Rightarrow> matches_public_key i public_key)"

fun warnings_excluding_local_key ::
  "rfc3339 \<Rightarrow> int \<Rightarrow> local_key_identity option \<Rightarrow> key_warning list \<Rightarrow> public_key list \<Rightarrow>
   key_warning list res" where
  "warnings_excluding_local_key T now identity ws [] = Inr ws"
| "warnings_excluding_local_key T now identity ws (key # keys) =
     res_bind (matches_local_key_identity key identity) (\<lambda>own.
     if own then warnings_excluding_local_key T now identity ws keys
     else res_bind (build_recipient_key_expiry_warning T now key) (\<lambda>w.
       case w of
         Some warning \<Rightarrow> warnings_excluding_local_key T now identity (ws @ [warning]) keys
       | None \<Rightarrow> warnings_excluding_local_key T now identity ws keys))"

definition collect_recipient_key_expiry_warnings_excluding_local_key ::
  "rfc3339 \<Rightarrow> int \<Rightarrow> public_key list \<Rightarrow> local_key_identity option \<Rightarrow> key_warning list res" where
  "collect_recipient_key_expiry_warnings_excluding_local_key T now keys identity =
     warnings_excluding_local_key T now identity [] keys"

section \<open>The crypto context\<close>

record decryption_key_info =
  dki_kid :: kid
  dki_expires_at :: string
  dki_used_fallback :: bool
  dki_key_identity :: local_key_identity
  dki_key_expiry :: local_key_pair_expiry

record private_key_load_result =
  pkl_private_key :: verified_private_key
  pkl_key_identity :: local_key_identity
  pkl_key_expiry :: local_key_pair_expiry

record crypto_context =
  cc_member_handle :: member_handle
  cc_kid :: kid
  cc_private_key :: verified_private_key
  cc_signing_key :: "u8 list"
  cc_local_key_identity :: local_key_identity
  cc_local_key_expiry :: local_key_pair_expiry
  cc_selected_kid_override :: "kid option"
  cc_local_key_access :: "(member_handle \<Rightarrow> kid \<Rightarrow> private_key_load_result res) option"

text \<open>\<open>public_of\<close> derives the Ed25519 public key of a signing key.\<close>

definition CryptoContext_new ::
  "(u8 list \<Rightarrow> u8 list) \<Rightarrow> member_handle \<Rightarrow> kid \<Rightarrow> verified_private_key \<Rightarrow> u8 list \<Rightarrow>
   local_key_pair_expiry \<Rightarrow> crypto_context" where
  "CryptoContext_new public_of handle k private_key signing_key expiry =
     \<lparr>cc_member_handle = handle, cc_kid = k, cc_private_key = private_key,
      cc_signing_key = signing_key,
      cc_local_key_identity = \<lparr>lki_member_handle = handle, lki_kid = k, lki_sig_x = public_of signing_key\<rparr>,
      cc_local_key_expiry = expiry, cc_selected_kid_override = None, cc_local_key_access = None\<rparr>"

definition decode_kem_secret_key :: "verified_private_key \<Rightarrow> u8 list res" where
  "decode_kem_secret_key private_key = decode_base64url_nopad_array 32 
       (jpk_d (ikp_kem (pkp_keys (vpk_document private_key))))"

text \<open>\<open>load_signer\<close> and \<open>verify_key\<close> are the keystore's copy of the signer key and the full check of
  a public key (\<open>feature/verify/public_key.rs\<close>).\<close>

definition ensure_signer_public_key_matches_signing_key ::
  "crypto_context \<Rightarrow> public_key \<Rightarrow> unit res" where
  "ensure_signer_public_key_matches_signing_key cc signer_pub =
     res_bind (matches_public_key (cc_local_key_identity cc) signer_pub) (\<lambda>m.
     if m then Inr () else Inl (verification_error ''V-SIGNER-KEY-BINDING''))"

section \<open>What the policies allow\<close>

definition unit_days :: "char \<Rightarrow> int option" where
  "unit_days c = (if c = CHR ''d'' then Some 1 else if c = CHR ''m'' then Some DAYS_PER_MONTH
     else if c = CHR ''y'' then Some DAYS_PER_YEAR else None)"

lemma parse_i64_fits: "parse_i64 s = Some n \<Longrightarrow> fits_i64 n"
  by (auto simp: parse_i64_def Let_def split: if_splits)

text \<open>
  C14. A relative duration is accepted exactly when it is a positive count and one of the units
  \<open>d\<close>, \<open>m\<close> (30 days) and \<open>y\<close> (365 days) whose span in seconds is below two to the 63; the days
  and seconds returned are those of that span, so building a duration from them cannot overflow.
\<close>

theorem parse_relative_duration_iff:
  "parse_relative_duration s = Inr d \<longleftrightarrow>
     (\<exists>count_text u count k. str_trim s = count_text @ [u] \<and> parse_i64 count_text = Some count \<and>
        unit_days u = Some k \<and> 0 < count \<and> count * k * SECONDS_PER_DAY < 2 ^ 63 \<and>
        d = \<lparr>rd_days = count * k, rd_seconds = count * k * SECONDS_PER_DAY\<rparr>)"
  (is "?parse \<longleftrightarrow> ?spec")
proof (cases "str_trim s" rule: rev_cases)
  case Nil
  then show ?thesis by (simp add: parse_relative_duration_def)
next
  case (snoc body u)
  show ?thesis
  proof (cases "parse_i64 body")
    case None
    with snoc show ?thesis by (simp add: parse_relative_duration_def)
  next
    case (Some n)
    note fits = parse_i64_fits [OF Some]
    show ?thesis
    proof (cases "0 < n")
      case False
      with snoc Some show ?thesis by (auto simp: parse_relative_duration_def)
    next
      case True
      with fits have n: "n < 2 ^ 63" by (simp add: fits_i64_def)
      show ?thesis
        using snoc Some True n
        by (auto simp: parse_relative_duration_def unit_days_def duration_constant_defs
            checked_mul_def fits_i64_def Let_def bind_eq_Some_conv split: if_splits)
    qed
  qed
qed

definition expiry_dates :: "local_key_pair_expiry \<Rightarrow> string list" where
  "expiry_dates e = lke_private_expires_at e #
     (case lke_public_expires_at e of None \<Rightarrow> [] | Some d \<Rightarrow> [d])"

definition days_left :: "rfc3339 \<Rightarrow> int \<Rightarrow> string \<Rightarrow> int" where
  "days_left T now d = (the (T d) - now) div NANOS_PER_DAY"

definition live :: "rfc3339 \<Rightarrow> int \<Rightarrow> string \<Rightarrow> bool" where
  "live T now d \<longleftrightarrow> now < the (T d)"

lemma check_key_expiry_parsed:
  "T d \<noteq> None \<Longrightarrow> check_key_expiry T d now = Inr
     (if \<not> live T now d then Expired d
      else if days_left T now d \<le> EXPIRY_WARNING_DAYS then ExpiringSoon d (days_left T now d)
      else Valid)"
  by (cases "T d") (auto simp: check_key_expiry_def parse_expires_at_def live_def days_left_def Let_def)

lemma check_key_expiry_unparsed: "T d = None \<Longrightarrow> check_key_expiry T d now = Inl (plain_error Parse)"
  by (simp add: check_key_expiry_def parse_expires_at_def)

lemma select_status_parsed:
  "\<forall>d\<in>set (expiry_dates e). T d \<noteq> None \<Longrightarrow> \<exists>st. select_status T e now = Inr st"
  by (cases "lke_public_expires_at e")
     (auto simp: select_status_def expiry_dates_def check_key_expiry_parsed)

text \<open>
  C13. The expiry policy of a local key pair looks at both dates and takes the stricter: signing
  is allowed exactly while neither the private key nor its public sibling has expired; using the
  key without the recovery flag gives no warning exactly while both have more than thirty days,
  a warning that names the date with the fewest days left otherwise, and the error
  \<open>E_KEY_EXPIRED\<close> exactly when one of them has expired; with the flag it is never refused.
\<close>

theorem local_key_expiry_policy:
  assumes "\<forall>d\<in>set (expiry_dates e). T d \<noteq> None"
  shows "(enforce_not_expired_for_signing T e now = Inr () \<longleftrightarrow> (\<forall>d\<in>set (expiry_dates e). live T now d)) \<and>
    (enforce_expired_usage T e now False = Inr None \<longleftrightarrow>
       (\<forall>d\<in>set (expiry_dates e). live T now d \<and> EXPIRY_WARNING_DAYS < days_left T now d)) \<and>
    (enforce_expired_usage T e now False = Inl (verification_error ''E_KEY_EXPIRED'') \<longleftrightarrow>
       (\<exists>d\<in>set (expiry_dates e). \<not> live T now d)) \<and>
    (enforce_expired_usage T e now False = Inr (Some (KeyExpiring l n d)) \<longrightarrow>
       l = ''Local key'' \<and> d \<in> set (expiry_dates e) \<and> n = days_left T now d \<and>
       (\<forall>d'\<in>set (expiry_dates e). live T now d' \<and> n \<le> days_left T now d')) \<and>
    (\<exists>w. enforce_expired_usage T e now True = Inr w)"
proof (cases "lke_public_expires_at e")
  case None
  then show ?thesis
    using assms
    by (auto simp: enforce_not_expired_for_signing_def enforce_expired_usage_def select_status_def
        expiry_dates_def check_key_expiry_parsed)
next
  case (Some d)
  then show ?thesis
    using assms
    by (auto simp: enforce_not_expired_for_signing_def enforce_expired_usage_def select_status_def
        expiry_dates_def check_key_expiry_parsed split: if_splits)
qed

lemma local_key_expiry_policy_witness:
  "enforce_not_expired_for_signing (\<lambda>d. Some (if d = ''a'' then 5 * NANOS_PER_DAY else 9 * NANOS_PER_DAY))
     \<lparr>lke_private_expires_at = ''b'', lke_public_expires_at = Some ''a''\<rparr> (6 * NANOS_PER_DAY) \<noteq> Inr ()"
  using local_key_expiry_policy
    [of "\<lparr>lke_private_expires_at = ''b'', lke_public_expires_at = Some ''a''\<rparr>"
      "\<lambda>d. Some (if d = ''a'' then 5 * NANOS_PER_DAY else 9 * NANOS_PER_DAY)" "6 * NANOS_PER_DAY"]
  by (simp add: expiry_dates_def live_def NANOS_PER_DAY_def)

text \<open>A public key is the local key's own exactly when handle, key id and Ed25519 point agree.\<close>

lemma matches_public_key_iff:
  "matches_public_key i k = Inr True \<longleftrightarrow>
     pk_subject_handle (pk_protected k) = handle_str (lki_member_handle i) \<and>
     pk_kid (pk_protected k) = kid_str (lki_kid i) \<and>
     decode_base64url_nopad_array 32 (jwk_x (ik_sig (pk_keys (pk_protected k)))) = Inr (lki_sig_x i)"
  by (auto simp: matches_public_key_def check_public_key_def Let_def split: if_splits)

end
