(* ===== verification/Envelope.thy ===== *)
theory Envelope
  imports Artifact_Signature Key_Context
begin

text \<open>
  Sealing and opening: kv entries (\<open>feature/envelope/entry.rs\<close>), file payloads
  (\<open>payload.rs\<close>), the wrapping of the master key for recipients (\<open>wrap.rs\<close>, \<open>wrap_set.rs\<close>,
  \<open>unwrap.rs\<close>) and the choice of the local key that opens a wrap
  (\<open>feature/context/crypto/decryption_key.rs\<close>, \<open>signing.rs\<close>). The locale \<open>wrap_scheme\<close> is the
  contract between the two wrap formats and the operations on recipient sets.
\<close>

section \<open>Kv entries\<close>

definition XChaChaKey_from_slice :: "u8 list \<Rightarrow> u8 list res" where
  "XChaChaKey_from_slice bytes = (if length bytes = 32 then Inr bytes else Inl (plain_error Crypto))"

definition encrypt_entry ::
  "json_lib \<Rightarrow> crypto_lib \<Rightarrow> u8 list \<Rightarrow> string \<Rightarrow> string \<Rightarrow> key_schedule \<Rightarrow> uuid \<Rightarrow> bool \<Rightarrow> kv_entry_value res" where
  "encrypt_entry J C fresh_nonce key value ks sid disclosed =
     (let nonce_b64 = encode_base64url_nopad fresh_nonce in
      res_bind (kv_derive_cek J C ks key nonce_b64) (\<lambda>cek.
      res_bind (XChaChaKey_from_slice cek) (\<lambda>cek_key.
      res_bind (build_kv_entry_aad J sid key) (\<lambda>aad.
      res_bind (xchacha_encrypt C cek_key fresh_nonce aad (as_bytes value)) (\<lambda>(ciphertext, _).
      Inr \<lparr>ev_nonce = nonce_b64, ev_ct = encode_base64url_nopad ciphertext,
           ev_disclosed = disclosed\<rparr>)))))"

definition validate_kv_entry_aead :: "string \<Rightarrow> unit res" where
  "validate_kv_entry_aead aead =
     (if aead \<noteq> AEAD_XCHACHA20_POLY1305 then Inl (plain_error Crypto) else Inr ())"

definition decrypt_entry ::
  "json_lib \<Rightarrow> crypto_lib \<Rightarrow> kv_entry_value \<Rightarrow> string \<Rightarrow> string \<Rightarrow> key_schedule \<Rightarrow> uuid \<Rightarrow> u8 list res" where
  "decrypt_entry J C entry key aead ks sid =
     res_bind (validate_kv_entry_aead aead) (\<lambda>_.
     res_bind (kv_derive_cek J C ks key (ev_nonce entry)) (\<lambda>cek.
     res_bind (XChaChaKey_from_slice cek) (\<lambda>cek_key.
     res_bind (decode_base64url_nopad_array 24 (ev_nonce entry)) (\<lambda>nonce.
     res_bind (decode_base64url_nopad (ev_ct entry)) (\<lambda>ciphertext.
     res_bind (build_kv_entry_aad J sid key) (\<lambda>aad.
     xchacha_decrypt C cek_key nonce aad ciphertext))))))"

section \<open>File payloads\<close>

definition encrypt_file_payload_content ::
  "json_lib \<Rightarrow> crypto_lib \<Rightarrow> u8 list \<Rightarrow> u8 list \<Rightarrow> u8 list \<Rightarrow> file_payload_header \<Rightarrow>
   file_payload_ciphertext res" where
  "encrypt_file_payload_content J C fresh_nonce plaintext key payload_header =
     res_bind (build_file_payload_aad J payload_header) (\<lambda>aad.
     res_bind (xchacha_encrypt C key fresh_nonce aad plaintext) (\<lambda>(ciphertext, nonce).
     Inr \<lparr>fpc_nonce = encode_base64url_nopad nonce, fpc_ct = encode_base64url_nopad ciphertext\<rparr>))"

section \<open>Wrap sets\<close>

record recipient_wrap =
  rw_recipient_handle :: member_handle
  rw_kid :: kid
  rw_enc :: "u8 list"
  rw_ct :: "u8 list"

definition RecipientWrap_parse :: "wrap_item \<Rightarrow> recipient_wrap res" where
  "RecipientWrap_parse item =
     res_bind (MemberHandle_new (wi_recipient_handle item)) (\<lambda>handle.
     res_bind (Kid_from_canonical (wi_kid item)) (\<lambda>k.
     res_bind (decode_base64url_nopad_array 32 (wi_enc item)) (\<lambda>enc.
     res_bind (decode_base64url_nopad_array 48 (wi_ct item)) (\<lambda>ct.
     Inr \<lparr>rw_recipient_handle = handle, rw_kid = k, rw_enc = enc, rw_ct = ct\<rparr>))))"

definition WrapSet_parse :: "wrap_item list \<Rightarrow> recipient_wrap list res" where
  "WrapSet_parse wrap_items =
     res_bind (validate_wrap_items wrap_items) (\<lambda>_. collect_res RecipientWrap_parse wrap_items)"

definition find_by_kid_for_member ::
  "recipient_wrap list \<Rightarrow> kid \<Rightarrow> member_handle \<Rightarrow> recipient_wrap res" where
  "find_by_kid_for_member items k handle =
     (case find (\<lambda>item. rw_kid item = k \<and> rw_recipient_handle item = handle) items of
        Some wrap_item \<Rightarrow> Inr wrap_item
      | None \<Rightarrow> (case find (\<lambda>item. rw_kid item = k) items of
          Some _ \<Rightarrow> Inl (plain_error Crypto)
        | None \<Rightarrow> Inl (plain_error Crypto)))"

definition self_wrap_kid :: "recipient_wrap list \<Rightarrow> member_handle \<Rightarrow> kid option" where
  "self_wrap_kid items handle =
     map_option rw_kid (find (\<lambda>item. rw_recipient_handle item = handle) items)"

section \<open>Wrapping and unwrapping the master key\<close>

datatype wrap_format = FileWrap | KvWrap

definition build_wrap_item ::
  "crypto_lib \<Rightarrow> u8 list \<Rightarrow> public_key \<Rightarrow> uuid \<Rightarrow> u8 list \<Rightarrow> (uuid \<Rightarrow> string \<Rightarrow> u8 list res) \<Rightarrow> wrap_item res" where
  "build_wrap_item C rnd member sid master_key info_builder =
     (let p = pk_protected member in
      res_bind (info_builder sid (pk_kid p)) (\<lambda>info.
      res_bind (decode_base64url_nopad_array 32 (jwk_x (ik_kem (pk_keys p)))) (\<lambda>kem_pk.
      res_bind (seal_base C rnd kem_pk info info master_key) (\<lambda>(enc, ct).
      Inr \<lparr>wi_recipient_handle = pk_subject_handle p, wi_kid = pk_kid p,
           wi_alg = HPKE_X25519_HKDF_SHA256_CHACHA20_POLY1305,
           wi_enc = encode_base64url_nopad enc, wi_ct = encode_base64url_nopad ct\<rparr>))))"

definition build_wrap_item_for_file ::
  "json_lib \<Rightarrow> crypto_lib \<Rightarrow> u8 list \<Rightarrow> public_key \<Rightarrow> uuid \<Rightarrow> u8 list \<Rightarrow> wrap_item res" where
  "build_wrap_item_for_file J C rnd member sid master_key =
     build_wrap_item C rnd member sid master_key (build_file_wrap_info J)"

definition build_wrap_item_for_kv ::
  "json_lib \<Rightarrow> crypto_lib \<Rightarrow> u8 list \<Rightarrow> public_key \<Rightarrow> uuid \<Rightarrow> u8 list \<Rightarrow> wrap_item res" where
  "build_wrap_item_for_kv J C rnd member sid master_key =
     build_wrap_item C rnd member sid master_key (build_kv_wrap_info J)"

text \<open>Each seal draws fresh randomness: the \<open>i\<close>-th member uses \<open>rnd i\<close>.\<close>

definition build_wraps_for_recipients ::
  "json_lib \<Rightarrow> crypto_lib \<Rightarrow> entropy \<Rightarrow> public_key list \<Rightarrow> uuid \<Rightarrow> u8 list \<Rightarrow> wrap_format \<Rightarrow>
   wrap_item list res" where
  "build_wraps_for_recipients J C rnd members sid master_key format =
     res_bind (validate_wrap_count (length members)) (\<lambda>_.
     collect_res (\<lambda>(i, member). case format of
         FileWrap \<Rightarrow> build_wrap_item_for_file J C (rnd i) member sid master_key
       | KvWrap \<Rightarrow> build_wrap_item_for_kv J C (rnd i) member sid master_key)
       (zip [0..<length members] members))"

definition parse_master_key_from_plaintext :: "u8 list \<Rightarrow> u8 list res" where
  "parse_master_key_from_plaintext plaintext =
     (if length plaintext \<noteq> 32 then Inl (plain_error Crypto) else Inr plaintext)"

definition unwrap_master_key ::
  "crypto_lib \<Rightarrow> recipient_wrap \<Rightarrow> uuid \<Rightarrow> u8 list \<Rightarrow> (uuid \<Rightarrow> string \<Rightarrow> u8 list res) \<Rightarrow> u8 list res" where
  "unwrap_master_key C wrap_item sid kem_secret_key info_builder =
     res_bind (info_builder sid (kid_str (rw_kid wrap_item))) (\<lambda>info.
     res_bind (open_base C kem_secret_key (rw_enc wrap_item) info info (rw_ct wrap_item))
       parse_master_key_from_plaintext)"

definition unwrap_master_key_from_item ::
  "json_lib \<Rightarrow> crypto_lib \<Rightarrow> uuid \<Rightarrow> recipient_wrap \<Rightarrow> u8 list \<Rightarrow> u8 list res" where
  "unwrap_master_key_from_item J C sid wrap_item kem_secret_key =
     unwrap_master_key C wrap_item sid kem_secret_key (build_kv_wrap_info J)"

section \<open>Choosing the local key\<close>

datatype decryption_key_resolution =
  Active verified_private_key decryption_key_info
  | Fallback verified_private_key decryption_key_info

fun resolution_private_key :: "decryption_key_resolution \<Rightarrow> verified_private_key" where
  "resolution_private_key (Active private_key _) = private_key"
| "resolution_private_key (Fallback private_key _) = private_key"

fun resolution_info :: "decryption_key_resolution \<Rightarrow> decryption_key_info" where
  "resolution_info (Active _ info) = info"
| "resolution_info (Fallback _ info) = info"

definition active_decryption_key :: "crypto_context \<Rightarrow> kid \<Rightarrow> decryption_key_resolution" where
  "active_decryption_key cc k = Active (cc_private_key cc)
     \<lparr>dki_kid = k, dki_expires_at = lke_private_expires_at (cc_local_key_expiry cc),
      dki_used_fallback = False, dki_key_identity = cc_local_key_identity cc,
      dki_key_expiry = cc_local_key_expiry cc\<rparr>"

definition build_fallback_resolution :: "private_key_load_result \<Rightarrow> kid \<Rightarrow> decryption_key_resolution" where
  "build_fallback_resolution loaded k = Fallback (pkl_private_key loaded)
     \<lparr>dki_kid = k, dki_expires_at = lke_private_expires_at (pkl_key_expiry loaded),
      dki_used_fallback = True, dki_key_identity = pkl_key_identity loaded,
      dki_key_expiry = pkl_key_expiry loaded\<rparr>"

definition load_fallback_key ::
  "crypto_context \<Rightarrow> member_handle \<Rightarrow> kid \<Rightarrow> decryption_key_resolution option res" where
  "load_fallback_key cc handle k =
     (case cc_local_key_access cc of
        None \<Rightarrow> Inr None
      | Some load \<Rightarrow> (case load handle k of
          Inr loaded \<Rightarrow> Inr (Some (build_fallback_resolution loaded k))
        | Inl e \<Rightarrow> if err_kind e = NotFound then Inr None else Inl e))"

definition select_candidate_kid :: "kid option \<Rightarrow> kid option \<Rightarrow> kid option" where
  "select_candidate_kid wrap_kid explicit_kid =
     (case explicit_kid of Some k \<Rightarrow> Some k | None \<Rightarrow> wrap_kid)"

definition select_local_decryption_key ::
  "crypto_context \<Rightarrow> recipient_wrap list \<Rightarrow> string \<Rightarrow> decryption_key_resolution res" where
  "select_local_decryption_key cc wrap_set handle =
     res_bind (MemberHandle_new handle) (\<lambda>keystore_handle.
     case select_candidate_kid (self_wrap_kid wrap_set keystore_handle) (cc_selected_kid_override cc) of
       None \<Rightarrow> Inl (plain_error Crypto)
     | Some k \<Rightarrow>
         if k = cc_kid cc then Inr (active_decryption_key cc k)
         else res_bind (load_fallback_key cc keystore_handle k) (\<lambda>r.
           case r of Some resolution \<Rightarrow> Inr resolution | None \<Rightarrow> Inl (plain_error Crypto)))"

definition unwrap_master_key_for_file_with_context ::
  "json_lib \<Rightarrow> crypto_lib \<Rightarrow> file_enc_document verified_document \<Rightarrow> string \<Rightarrow> crypto_context \<Rightarrow>
   (u8 list \<times> decryption_key_info) res" where
  "unwrap_master_key_for_file_with_context J C verified handle cc =
     (let protected = fed_protected (vd_document verified) in
      res_bind (WrapSet_parse (fe_wrap protected)) (\<lambda>wrap_set.
      res_bind (MemberHandle_new handle) (\<lambda>recipient_handle.
      res_bind (select_local_decryption_key cc wrap_set handle) (\<lambda>selected.
      res_bind (find_by_kid_for_member wrap_set (dki_kid (resolution_info selected)) recipient_handle) (\<lambda>wrap_item.
      res_bind (decode_kem_secret_key (resolution_private_key selected)) (\<lambda>kem_sk.
      res_bind (unwrap_master_key C wrap_item (fe_sid protected) kem_sk (build_file_wrap_info J)) (\<lambda>master_key.
      Inr (master_key, resolution_info selected))))))))"

definition unwrap_master_key_for_kv_with_context ::
  "json_lib \<Rightarrow> crypto_lib \<Rightarrow> uuid \<Rightarrow> wrap_item list \<Rightarrow> string \<Rightarrow> crypto_context \<Rightarrow>
   (u8 list \<times> decryption_key_info) res" where
  "unwrap_master_key_for_kv_with_context J C sid wrap_items handle cc =
     res_bind (WrapSet_parse wrap_items) (\<lambda>wrap_set.
     res_bind (MemberHandle_new handle) (\<lambda>recipient_handle.
     res_bind (select_local_decryption_key cc wrap_set handle) (\<lambda>selected.
     res_bind (find_by_kid_for_member wrap_set (dki_kid (resolution_info selected)) recipient_handle) (\<lambda>wrap_item.
     res_bind (decode_kem_secret_key (resolution_private_key selected)) (\<lambda>kem_sk.
     res_bind (unwrap_master_key_from_item J C sid wrap_item kem_sk) (\<lambda>master_key.
     Inr (master_key, resolution_info selected)))))))"

text \<open>\<open>load_signer\<close> and \<open>verify_key\<close>: the keystore's copy of the signer key and the full check of
  a public key.\<close>

definition build_signing_context ::
  "rfc3339 \<Rightarrow> int \<Rightarrow> (member_handle \<Rightarrow> kid \<Rightarrow> public_key res) \<Rightarrow> (public_key \<Rightarrow> unit res) \<Rightarrow>
   crypto_context \<Rightarrow> signing_context res" where
  "build_signing_context T now load_signer verify_key cc =
     res_bind (enforce_not_expired_for_signing T (cc_local_key_expiry cc) now) (\<lambda>_.
     res_bind (Kid_from_canonical (kid_str (cc_kid cc))) (\<lambda>signer_kid.
     res_bind (load_signer (cc_member_handle cc) signer_kid) (\<lambda>signer_pub.
     res_bind (verify_key signer_pub) (\<lambda>_.
     res_bind (ensure_signer_public_key_matches_signing_key cc signer_pub) (\<lambda>_.
     Inr \<lparr>sc_signing_key = cc_signing_key cc, sc_signer_kid = kid_str (cc_kid cc),
          sc_signer_pub = signer_pub\<rparr>)))))"

section \<open>Entries open to what was sealed\<close>

lemma plaintext_limit_fits:
  "length ct \<le> MAX_PLAINTEXT_INPUT_SIZE + AEAD_TAG_LENGTH \<Longrightarrow> url_fits MAX_BASE64_CIPHERTEXT_LENGTH ct"
proof -
  assume "length ct \<le> MAX_PLAINTEXT_INPUT_SIZE + AEAD_TAG_LENGTH"
  then have "length ct \<le> 12582912" by (simp add: limit_defs)
  moreover have "3 * (length ct div 3) + length ct mod 3 = length ct" by simp
  ultimately have "length ct div 3 \<le> 4194304"
    and "length ct mod 3 \<noteq> 0 \<Longrightarrow> length ct div 3 < 4194304"
    by linarith+
  then have "compute_encoded_len (length ct) \<le> 16777216"
    by (auto simp: compute_encoded_len_def Let_def)
  then show ?thesis by (simp add: url_fits_def limit_defs)
qed

lemma decode_encode_nonce:
  "length n = 24 \<Longrightarrow> decode_base64url_nopad_array 24 (encode_base64url_nopad n) = Inr n"
  by (simp add: arr.dec_iff)

lemma sealed_entry_opens:
  assumes "aead_ok C" and "length nonce = 24" and "length value \<le> MAX_PLAINTEXT_INPUT_SIZE"
    and "encrypt_entry J C nonce key value ks sid disclosed = Inr entry"
  shows "decrypt_entry J C entry key AEAD_XCHACHA20_POLY1305 ks sid = Inr (as_bytes value)"
    and "ev_disclosed entry = disclosed"
proof -
  from assms(4) obtain cek aad ct where cek: "kv_derive_cek J C ks key (encode_base64url_nopad nonce) = Inr cek"
    "XChaChaKey_from_slice cek = Inr cek" and aad: "build_kv_entry_aad J sid key = Inr aad"
    and ct: "cl_aead_seal C cek nonce aad (as_bytes value) = Some ct"
    and entry: "entry = \<lparr>ev_nonce = encode_base64url_nopad nonce, ev_ct = encode_base64url_nopad ct,
      ev_disclosed = disclosed\<rparr>"
    by (auto simp: encrypt_entry_def XChaChaKey_from_slice_def xchacha_encrypt_def Let_def split: if_splits)
  have len: "length ct = length value + AEAD_TAG_LENGTH" and opens: "cl_aead_open C cek nonce aad ct = Some (as_bytes value)"
    using assms(1) ct by (auto simp: aead_ok_def)
  have "decode_base64url_nopad (encode_base64url_nopad ct) = Inr ct"
    using len assms(3) by (intro url.dec_enc plaintext_limit_fits) simp
  then show "decrypt_entry J C entry key AEAD_XCHACHA20_POLY1305 ks sid = Inr (as_bytes value)"
    using cek aad opens assms(2)
    by (simp add: decrypt_entry_def validate_kv_entry_aead_def entry decode_encode_nonce xchacha_decrypt_def)
  show "ev_disclosed entry = disclosed" by (simp add: entry)
qed

text \<open>
  A kv entry opens to what was sealed: an entry encrypted under a key schedule for a key name
  and session decrypts, under the same three, to the bytes of the value, whatever the nonce, for
  every value up to the plaintext limit; and a document that names another AEAD is refused before
  any key is derived.
\<close>

theorem kv_entry_roundtrip:
  assumes "aead_ok C" and "length nonce = 24" and "length value \<le> MAX_PLAINTEXT_INPUT_SIZE"
    and "encrypt_entry J C nonce key value ks sid disclosed = Inr entry"
  shows "decrypt_entry J C entry key AEAD_XCHACHA20_POLY1305 ks sid = Inr (as_bytes value) \<and>
    ev_disclosed entry = disclosed \<and>
    (aead \<noteq> AEAD_XCHACHA20_POLY1305 \<longrightarrow>
       decrypt_entry J C entry key aead ks sid = Inl (plain_error Crypto))"
  using sealed_entry_opens [OF assms] by (simp add: decrypt_entry_def validate_kv_entry_aead_def)

definition sample_schedule :: key_schedule where
  "sample_schedule = \<lparr>ks_prk = replicate 32 5, ks_sid = 1\<rparr>"

lemma sample_encrypt:
  "\<exists>entry. encrypt_entry (sample_lib []) sample_crypto (replicate 24 3) ''K'' ''secret'' sample_schedule 1 True
     = Inr entry"
  by (simp add: encrypt_entry_def kv_derive_cek_def binding_defs crypto_wrapper_defs XChaChaKey_from_slice_def
      sample_crypto_def Let_def)

lemma kv_entry_roundtrip_witness:
  "\<exists>entry. decrypt_entry (sample_lib []) sample_crypto entry ''K'' AEAD_XCHACHA20_POLY1305 sample_schedule 1 =
     Inr (as_bytes ''secret'')"
proof -
  obtain entry where
    "encrypt_entry (sample_lib []) sample_crypto (replicate 24 3) ''K'' ''secret'' sample_schedule 1 True = Inr entry"
    using sample_encrypt by blast
  from kv_entry_roundtrip [OF _ _ _ this] show ?thesis by (auto simp: limit_defs)
qed

section \<open>The contract of a wrap format\<close>

definition labels_valid :: "public_key \<Rightarrow> bool" where
  "labels_valid m \<longleftrightarrow> validate_member_handle (pk_subject_handle (pk_protected m)) = Inr () \<and>
     canonical_kid (pk_kid (pk_protected m))"

definition kem_pair :: "crypto_lib \<Rightarrow> public_key \<Rightarrow> u8 list \<Rightarrow> bool" where
  "kem_pair C m sk \<longleftrightarrow>
     (\<exists>pk. decode_base64url_nopad_array 32 (jwk_x (ik_kem (pk_keys (pk_protected m)))) = Inr pk \<and>
        x25519_pair C sk pk)"

lemma RecipientWrap_parse_labels:
  "RecipientWrap_parse w = Inr r \<Longrightarrow>
     rw_recipient_handle r = MemberHandle (wi_recipient_handle w) \<and> rw_kid r = Kid (wi_kid w)"
  by (auto simp: RecipientWrap_parse_def MemberHandle_new_iff Kid_from_canonical_iff)

text \<open>
  A wrap carries its recipient's labels and the algorithm of the format; what it seals, the
  recipient's secret key opens.
\<close>

locale wrap_scheme =
  fixes wrap :: "u8 list \<Rightarrow> public_key \<Rightarrow> uuid \<Rightarrow> u8 list \<Rightarrow> wrap_item res"
    and unwrap :: "uuid \<Rightarrow> recipient_wrap \<Rightarrow> u8 list \<Rightarrow> u8 list res"
    and pair :: "public_key \<Rightarrow> u8 list \<Rightarrow> bool"
  assumes wrap_labels: "wrap rnd m sid mk = Inr w \<Longrightarrow>
      wi_recipient_handle w = pk_subject_handle (pk_protected m) \<and> wi_kid w = pk_kid (pk_protected m)"
    and wrap_item_valid: "wrap rnd m sid mk = Inr w \<Longrightarrow> length mk = 32 \<Longrightarrow> labels_valid m \<Longrightarrow>
      pair m sk \<Longrightarrow> wrap_item_ok w"
    and unwrap_wrap: "wrap rnd m sid mk = Inr w \<Longrightarrow> length mk = 32 \<Longrightarrow> pair m sk \<Longrightarrow>
      RecipientWrap_parse w = Inr r \<Longrightarrow> unwrap sid r sk = Inr mk"
begin

definition wraps_all :: "entropy \<Rightarrow> public_key list \<Rightarrow> uuid \<Rightarrow> u8 list \<Rightarrow> wrap_item list res" where
  "wraps_all rnd ms sid mk = collect_res (\<lambda>(i, m). wrap (rnd i) m sid mk) (zip [0..<length ms] ms)"

lemma wraps_all_nth:
  "wraps_all rnd ms sid mk = Inr ws \<longleftrightarrow> length ws = length ms \<and>
     (\<forall>i<length ms. wrap (rnd i) (ms ! i) sid mk = Inr (ws ! i))"
  by (auto simp: wraps_all_def collect_res_Inr list_all2_conv_all_nth)

lemma wraps_all_labels:
  "wraps_all rnd ms sid mk = Inr ws \<Longrightarrow>
   map wi_recipient_handle ws = map (\<lambda>m. pk_subject_handle (pk_protected m)) ms \<and>
   map wi_kid ws = map (\<lambda>m. pk_kid (pk_protected m)) ms"
  by (auto simp: wraps_all_nth list_eq_iff_nth_eq dest!: wrap_labels)

lemma wraps_all_valid:
  assumes "wraps_all rnd ms sid mk = Inr ws" and "length mk = 32"
    and "\<forall>m\<in>set ms. labels_valid m \<and> (\<exists>sk. pair m sk)"
    and "distinct (map (\<lambda>m. pk_subject_handle (pk_protected m)) ms)" and "length ms \<le> MAX_WRAP_ITEMS"
  shows "validate_wrap_items ws = Inr ()"
proof -
  have "wrap_item_ok w" if w: "w \<in> set ws" for w
  proof -
    obtain i where "i < length ms" "w = ws ! i"
      using w assms(1) by (auto simp: wraps_all_nth in_set_conv_nth)
    with assms show ?thesis by (meson nth_mem wrap_item_valid wraps_all_nth)
  qed
  then show ?thesis
    using assms wraps_all_labels [OF assms(1)]
    by (simp add: validate_wrap_items_iff wraps_all_nth list_all_iff)
qed

lemma every_member_opens:
  assumes ws: "wraps_all rnd ms sid mk = Inr ws" and mk: "length mk = 32"
    and ok: "\<forall>m\<in>set ms. labels_valid m \<and> (\<exists>sk. pair m sk)"
    and dist: "distinct (map (\<lambda>m. pk_subject_handle (pk_protected m)) ms)" "length ms \<le> MAX_WRAP_ITEMS"
    and m: "m \<in> set ms" "pair m sk"
  shows "\<exists>rs r. WrapSet_parse ws = Inr rs \<and>
    self_wrap_kid rs (MemberHandle (pk_subject_handle (pk_protected m))) = Some (Kid (pk_kid (pk_protected m))) \<and>
    find_by_kid_for_member rs (Kid (pk_kid (pk_protected m)))
      (MemberHandle (pk_subject_handle (pk_protected m))) = Inr r \<and>
    unwrap sid r sk = Inr mk"
proof -
  let ?h = "\<lambda>m. pk_subject_handle (pk_protected m)" and ?k = "\<lambda>m. pk_kid (pk_protected m)"
  have valid: "validate_wrap_items ws = Inr ()" using wraps_all_valid [OF ws mk ok dist] .
  then have "list_all wrap_item_ok ws" by (simp add: validate_wrap_items_iff)
  then have "\<forall>w\<in>set ws. \<exists>r. RecipientWrap_parse w = Inr r"
    by (auto simp: list_all_iff wrap_item_ok_def validate_wrap_item_def RecipientWrap_parse_def)
  then obtain f where f: "\<forall>w\<in>set ws. RecipientWrap_parse w = Inr (f w)" by metis
  then have parsed: "WrapSet_parse ws = Inr (map f ws)"
    using valid by (simp add: WrapSet_parse_def collect_res_map [where g = f])
  obtain i where i: "i < length ms" "m = ms ! i" using m(1) by (auto simp: in_set_conv_nth)
  with ws have wi: "wrap (rnd i) m sid mk = Inr (ws ! i)" and len: "length ws = length ms"
    by (auto simp: wraps_all_nth)
  have labels: "rw_recipient_handle (f (ws ! j)) = MemberHandle (?h (ms ! j)) \<and> rw_kid (f (ws ! j)) = Kid (?k (ms ! j))"
    if "j < length ms" for j
  proof -
    have "wi_recipient_handle (ws ! j) = ?h (ms ! j) \<and> wi_kid (ws ! j) = ?k (ms ! j)"
      using that ws by (intro wrap_labels) (auto simp: wraps_all_nth)
    moreover have "RecipientWrap_parse (ws ! j) = Inr (f (ws ! j))" using that len f by simp
    ultimately show ?thesis using RecipientWrap_parse_labels by metis
  qed
  have only: "?h (ms ! j) \<noteq> ?h m" if "j < i" for j
    using dist(1) that i by (auto simp: distinct_conv_nth)
  have self: "find (\<lambda>r. rw_recipient_handle r = MemberHandle (?h m)) (map f ws) = Some (f (ws ! i))"
    using labels only i len by (auto simp: find_Some_iff intro!: exI [of _ i])
  have both: "find (\<lambda>r. rw_kid r = Kid (?k m) \<and> rw_recipient_handle r = MemberHandle (?h m)) (map f ws) =
      Some (f (ws ! i))"
    using labels only i len by (auto simp: find_Some_iff intro!: exI [of _ i])
  have "unwrap sid (f (ws ! i)) sk = Inr mk"
    using unwrap_wrap [OF wi mk m(2)] f i(1) len by simp
  then show ?thesis
    using parsed self both labels [OF i(1)] i
    by (auto simp: self_wrap_kid_def find_by_kid_for_member_def)
qed

end

section \<open>The two wrap formats\<close>

lemma build_wrap_item_Inr:
  assumes "build_wrap_item C rnd m sid mk info_builder = Inr w"
  obtains info pk enc ct where "info_builder sid (pk_kid (pk_protected m)) = Inr info"
    "decode_base64url_nopad_array 32 (jwk_x (ik_kem (pk_keys (pk_protected m)))) = Inr pk"
    "cl_hpke_seal C rnd pk info info mk = Some (enc, ct)"
    "w = \<lparr>wi_recipient_handle = pk_subject_handle (pk_protected m), wi_kid = pk_kid (pk_protected m),
           wi_alg = HPKE_X25519_HKDF_SHA256_CHACHA20_POLY1305,
           wi_enc = encode_base64url_nopad enc, wi_ct = encode_base64url_nopad ct\<rparr>"
  using assms by (auto simp: build_wrap_item_def Let_def seal_base_def)

lemma build_wrap_item_scheme:
  "wrap_scheme (\<lambda>rnd m sid mk. build_wrap_item C rnd m sid mk info_builder)
     (\<lambda>sid r sk. unwrap_master_key C r sid sk info_builder) (kem_pair C)"
proof
  fix rnd m sid mk w
  assume w: "build_wrap_item C rnd m sid mk info_builder = Inr w"
  show "wi_recipient_handle w = pk_subject_handle (pk_protected m) \<and> wi_kid w = pk_kid (pk_protected m)"
    using w by (rule build_wrap_item_Inr) simp
  fix sk
  assume mk: "length mk = 32" and pair: "kem_pair C m sk"
  from w obtain info pk enc ct where b: "info_builder sid (pk_kid (pk_protected m)) = Inr info"
    "decode_base64url_nopad_array 32 (jwk_x (ik_kem (pk_keys (pk_protected m)))) = Inr pk"
    "cl_hpke_seal C rnd pk info info mk = Some (enc, ct)"
    and wd: "w = \<lparr>wi_recipient_handle = pk_subject_handle (pk_protected m), wi_kid = pk_kid (pk_protected m),
           wi_alg = HPKE_X25519_HKDF_SHA256_CHACHA20_POLY1305,
           wi_enc = encode_base64url_nopad enc, wi_ct = encode_base64url_nopad ct\<rparr>"
    by (rule build_wrap_item_Inr)
  from pair b have opens: "length enc = 32" "length ct = 48" "cl_hpke_open C sk enc info info ct = Some mk"
    using mk by (auto simp: kem_pair_def x25519_pair_def AEAD_TAG_LENGTH_def)
  show "labels_valid m \<Longrightarrow> wrap_item_ok w"
    using opens by (auto simp: wd wrap_item_ok_iff labels_valid_def)
  show "RecipientWrap_parse w = Inr r \<Longrightarrow> unwrap_master_key C r sid sk info_builder = Inr mk" for r
    using opens(3) b mk arr.dec_enc [OF opens(1)] arr.dec_enc [OF opens(2)]
    by (auto simp: wd RecipientWrap_parse_def MemberHandle_new_iff Kid_from_canonical_iff
        unwrap_master_key_def open_base_def parse_master_key_from_plaintext_def)
qed

interpretation file_wrap: wrap_scheme "build_wrap_item_for_file J C"
  "\<lambda>sid r sk. unwrap_master_key C r sid sk (build_file_wrap_info J)" "kem_pair C" for J C
  unfolding build_wrap_item_for_file_def [abs_def] by (rule build_wrap_item_scheme)

interpretation kv_wrap: wrap_scheme "build_wrap_item_for_kv J C"
  "unwrap_master_key_from_item J C" "kem_pair C" for J C
  unfolding build_wrap_item_for_kv_def [abs_def] unwrap_master_key_from_item_def [abs_def]
  by (rule build_wrap_item_scheme)

lemma build_wraps_eq:
  "build_wraps_for_recipients J C rnd ms sid mk FileWrap = Inr ws \<longleftrightarrow>
     length ms \<le> MAX_WRAP_ITEMS \<and> file_wrap.wraps_all J C rnd ms sid mk = Inr ws"
  "build_wraps_for_recipients J C rnd ms sid mk KvWrap = Inr ws \<longleftrightarrow>
     length ms \<le> MAX_WRAP_ITEMS \<and> kv_wrap.wraps_all J C rnd ms sid mk = Inr ws"
  by (simp_all add: build_wraps_for_recipients_def file_wrap.wraps_all_def kv_wrap.wraps_all_def)

section \<open>Wrapped keys reach their recipients\<close>

lemma select_active:
  assumes "self_wrap_kid ws (MemberHandle h) = Some (cc_kid cc)" and "cc_selected_kid_override cc = None"
    and "validate_member_handle h = Inr ()"
  shows "select_local_decryption_key cc ws h = Inr (active_decryption_key cc (cc_kid cc))"
  using assms by (simp add: select_local_decryption_key_def MemberHandle_new_def select_candidate_kid_def)

definition holds_key :: "crypto_lib \<Rightarrow> crypto_context \<Rightarrow> public_key \<Rightarrow> bool" where
  "holds_key C cc m \<longleftrightarrow>
     cc_kid cc = Kid (pk_kid (pk_protected m)) \<and> cc_selected_kid_override cc = None \<and>
     (\<exists>sk. decode_kem_secret_key (cc_private_key cc) = Inr sk \<and> kem_pair C m sk)"

lemma kv_recipient_unwraps:
  assumes ws: "kv_wrap.wraps_all J C rnd ms sid mk = Inr ws" and mk: "length mk = 32"
    and ok: "\<forall>m\<in>set ms. labels_valid m \<and> (\<exists>sk. kem_pair C m sk)"
    and dist: "distinct (map (\<lambda>m. pk_subject_handle (pk_protected m)) ms)" "length ms \<le> MAX_WRAP_ITEMS"
    and m: "m \<in> set ms" and cc: "holds_key C cc m"
  shows "unwrap_master_key_for_kv_with_context J C sid ws (pk_subject_handle (pk_protected m)) cc =
    Inr (mk, resolution_info (active_decryption_key cc (cc_kid cc)))"
proof -
  from cc obtain sk where sk: "decode_kem_secret_key (cc_private_key cc) = Inr sk" "kem_pair C m sk"
    by (auto simp: holds_key_def)
  have handle: "validate_member_handle (pk_subject_handle (pk_protected m)) = Inr ()"
    using ok m by (auto simp: labels_valid_def)
  from kv_wrap.every_member_opens [OF ws mk ok dist m sk(2)] show ?thesis
    using sk(1) cc handle
    by (auto simp: unwrap_master_key_for_kv_with_context_def MemberHandle_new_def select_active
        active_decryption_key_def holds_key_def)
qed

lemma file_recipient_unwraps:
  assumes ws: "file_wrap.wraps_all J C rnd ms sid mk = Inr ws" and mk: "length mk = 32"
    and ok: "\<forall>m\<in>set ms. labels_valid m \<and> (\<exists>sk. kem_pair C m sk)"
    and dist: "distinct (map (\<lambda>m. pk_subject_handle (pk_protected m)) ms)" "length ms \<le> MAX_WRAP_ITEMS"
    and m: "m \<in> set ms" and cc: "holds_key C cc m"
    and doc: "fe_wrap (fed_protected (vd_document doc)) = ws" "fe_sid (fed_protected (vd_document doc)) = sid"
  shows "unwrap_master_key_for_file_with_context J C doc (pk_subject_handle (pk_protected m)) cc =
    Inr (mk, resolution_info (active_decryption_key cc (cc_kid cc)))"
proof -
  from cc obtain sk where sk: "decode_kem_secret_key (cc_private_key cc) = Inr sk" "kem_pair C m sk"
    by (auto simp: holds_key_def)
  have handle: "validate_member_handle (pk_subject_handle (pk_protected m)) = Inr ()"
    using ok m by (auto simp: labels_valid_def)
  from file_wrap.every_member_opens [OF ws mk ok dist m sk(2)] show ?thesis
    using sk(1) cc handle
    by (auto simp: unwrap_master_key_for_file_with_context_def MemberHandle_new_def select_active
        active_decryption_key_def holds_key_def Let_def doc)
qed

text \<open>
  C9. A wrapped master key reaches every recipient: when the wraps of a set of recipients with
  valid, distinct handles are built, the wrap set is valid, names exactly these recipients in this
  order, and every recipient whose context holds the matching private key unwraps the master key
  from it with its active key, in both the kv and the file format.
\<close>

theorem wrapped_key_reaches_every_recipient:
  assumes "build_wraps_for_recipients J C rnd ms sid mk format = Inr ws" and "length mk = 32"
    and "\<forall>m\<in>set ms. labels_valid m \<and> (\<exists>sk. kem_pair C m sk)"
    and "distinct (map (\<lambda>m. pk_subject_handle (pk_protected m)) ms)"
    and "m \<in> set ms" and "holds_key C cc m"
  shows "validate_wrap_items ws = Inr () \<and>
    map wi_recipient_handle ws = map (\<lambda>m. pk_subject_handle (pk_protected m)) ms \<and>
    (format = KvWrap \<longrightarrow>
       unwrap_master_key_for_kv_with_context J C sid ws (pk_subject_handle (pk_protected m)) cc =
         Inr (mk, resolution_info (active_decryption_key cc (cc_kid cc)))) \<and>
    (format = FileWrap \<longrightarrow> fe_wrap (fed_protected (vd_document doc)) = ws \<longrightarrow>
       fe_sid (fed_protected (vd_document doc)) = sid \<longrightarrow>
       unwrap_master_key_for_file_with_context J C doc (pk_subject_handle (pk_protected m)) cc =
         Inr (mk, resolution_info (active_decryption_key cc (cc_kid cc))))"
proof (cases format)
  case KvWrap
  with assms(1) have len: "length ms \<le> MAX_WRAP_ITEMS" and ws: "kv_wrap.wraps_all J C rnd ms sid mk = Inr ws"
    by (simp_all add: build_wraps_eq)
  show ?thesis
    using kv_wrap.wraps_all_valid [OF ws assms(2-4) len] kv_wrap.wraps_all_labels [OF ws]
      kv_recipient_unwraps [OF ws assms(2-4) len assms(5,6)] KvWrap
    by simp
next
  case FileWrap
  with assms(1) have len: "length ms \<le> MAX_WRAP_ITEMS" and ws: "file_wrap.wraps_all J C rnd ms sid mk = Inr ws"
    by (simp_all add: build_wraps_eq)
  show ?thesis
    using file_wrap.wraps_all_valid [OF ws assms(2-4) len] file_wrap.wraps_all_labels [OF ws]
      file_recipient_unwraps [OF ws assms(2-4) len assms(5,6)] FileWrap
    by simp
qed

definition sample_kem_key :: "u8 list" where "sample_kem_key = replicate 32 4"

definition sample_member :: public_key where
  "sample_member = sample_public_key\<lparr>pk_protected := (pk_protected sample_public_key)\<lparr>pk_keys :=
     \<lparr>ik_kem = \<lparr>jwk_kty = ''OKP'', jwk_crv = ''X25519'', jwk_x = encode_base64url_nopad sample_kem_key\<rparr>,
      ik_sig = sample_jwk\<rparr>\<rparr>\<rparr>"

definition sample_identity :: local_key_identity where
  "sample_identity = \<lparr>lki_member_handle = MemberHandle ''alice'',
     lki_kid = Kid ''7M2Q9D4R1H8VW6PKT3XNC5JY2F9AR8GD'', lki_sig_x = replicate 32 4\<rparr>"

definition sample_private_key :: verified_private_key where
  "sample_private_key =
     \<lparr>vpk_document = \<lparr>pkp_keys =
        \<lparr>ikp_kem = \<lparr>jpk_kty = ''OKP'', jpk_crv = ''X25519'', jpk_x = ''AA'',
                    jpk_d = encode_base64url_nopad sample_kem_key\<rparr>,
         ikp_sig = \<lparr>jpk_kty = ''OKP'', jpk_crv = ''Ed25519'', jpk_x = ''AA'', jpk_d = ''AA''\<rparr>\<rparr>\<rparr>,
      vpk_proof = \<lparr>dp_member_handle = ''alice'', dp_kid = ''K'', dp_ssh_fpr = None\<rparr>\<rparr>"

definition sample_context :: crypto_context where
  "sample_context = \<lparr>cc_member_handle = MemberHandle ''alice'',
     cc_kid = Kid ''7M2Q9D4R1H8VW6PKT3XNC5JY2F9AR8GD'',
     cc_private_key = sample_private_key, cc_signing_key = [1],
     cc_local_key_identity = sample_identity,
     cc_local_key_expiry = \<lparr>lke_private_expires_at = ''2027-01-01T00:00:00Z'', lke_public_expires_at = None\<rparr>,
     cc_selected_kid_override = None, cc_local_key_access = None\<rparr>"

lemma sample_member_ok:
  "labels_valid sample_member" "kem_pair sample_crypto sample_member sample_kem_key"
  "holds_key sample_crypto sample_context sample_member"
proof -
  have "decode_base64url_nopad_array 32 (encode_base64url_nopad sample_kem_key) = Inr sample_kem_key"
    by (simp add: arr.dec_iff sample_kem_key_def)
  then show pair: "kem_pair sample_crypto sample_member sample_kem_key"
    by (auto simp: kem_pair_def sample_member_def)
  show "labels_valid sample_member"
    by (simp add: labels_valid_def sample_member_def sample_public_key_def PublicKey_new_def
        validate_member_handle_def ensure_member_handle_length_def
        ensure_member_handle_starts_alphanumeric_def ensure_member_handle_characters_def limit_defs member_handle_char_def
        ascii_class_defs canonical_kid_def is_crockford_base32_byte_def KID_LENGTH_def code_in_def)
  show "holds_key sample_crypto sample_context sample_member"
    using pair \<open>decode_base64url_nopad_array 32 _ = _\<close>
    by (auto simp: holds_key_def sample_context_def sample_private_key_def decode_kem_secret_key_def sample_member_def
        sample_public_key_def PublicKey_new_def)
qed

lemma sample_wraps:
  "\<exists>ws. build_wraps_for_recipients (sample_lib []) sample_crypto (\<lambda>_. [0]) [sample_member] 1
     (replicate 32 6) KvWrap = Inr ws"
proof -
  obtain pk where "decode_base64url_nopad_array 32 (jwk_x (ik_kem (pk_keys (pk_protected sample_member)))) = Inr pk"
    using sample_member_ok(2) by (auto simp: kem_pair_def)
  moreover obtain info where "build_kv_wrap_info (sample_lib []) 1 (pk_kid (pk_protected sample_member)) = Inr info"
    by (simp add: binding_total)
  moreover have "\<exists>p. cl_hpke_seal sample_crypto rnd pk info aad m = Some p" for rnd pk info aad m
    by (simp add: sample_crypto_def)
  ultimately show ?thesis
    by (auto simp: build_wraps_for_recipients_def build_wrap_item_for_kv_def build_wrap_item_def seal_base_def
        limit_defs Let_def)
qed

lemma wrapped_key_reaches_every_recipient_witness:
  "\<exists>ws info. unwrap_master_key_for_kv_with_context (sample_lib []) sample_crypto 1 ws ''alice'' sample_context =
     Inr (replicate 32 6, info)"
proof -
  obtain ws where "build_wraps_for_recipients (sample_lib []) sample_crypto (\<lambda>_. [0]) [sample_member] 1
     (replicate 32 6) KvWrap = Inr ws"
    using sample_wraps by blast
  from wrapped_key_reaches_every_recipient [OF this, of sample_member sample_context] sample_member_ok
  have "unwrap_master_key_for_kv_with_context (sample_lib []) sample_crypto 1 ws
      (pk_subject_handle (pk_protected sample_member)) sample_context =
      Inr (replicate 32 6, resolution_info (active_decryption_key sample_context (cc_kid sample_context)))"
    by auto
  moreover have "pk_subject_handle (pk_protected sample_member) = ''alice''"
    by (simp add: sample_member_def sample_public_key_def PublicKey_new_def)
  ultimately show ?thesis by auto
qed

lemma fallback_reported:
  "load_fallback_key cc handle k = Inr (Some sel) \<Longrightarrow>
     dki_kid (resolution_info sel) = k \<and> dki_used_fallback (resolution_info sel)"
  by (cases "cc_local_key_access cc")
     (auto simp: load_fallback_key_def build_fallback_resolution_def split: sum.splits if_splits)

lemma select_reported:
  assumes "select_local_decryption_key cc rs h = Inr sel"
  shows "(case cc_selected_kid_override cc of Some k \<Rightarrow> dki_kid (resolution_info sel) = k | None \<Rightarrow> True) \<and>
    (dki_used_fallback (resolution_info sel) \<longleftrightarrow> dki_kid (resolution_info sel) \<noteq> cc_kid cc)"
proof -
  from assms obtain k where k: "select_candidate_kid (self_wrap_kid rs (MemberHandle h)) (cc_selected_kid_override cc) = Some k"
    by (auto simp: select_local_decryption_key_def MemberHandle_new_iff split: option.splits)
  have "dki_kid (resolution_info sel) = k \<and> (dki_used_fallback (resolution_info sel) \<longleftrightarrow> k \<noteq> cc_kid cc)"
  proof (cases "k = cc_kid cc")
    case True
    with assms k show ?thesis
      by (auto simp: select_local_decryption_key_def MemberHandle_new_iff active_decryption_key_def)
  next
    case False
    with assms k have "load_fallback_key cc (MemberHandle h) k = Inr (Some sel)"
      by (auto simp: select_local_decryption_key_def MemberHandle_new_iff split: option.splits)
    with False show ?thesis using fallback_reported by auto
  qed
  with k show ?thesis by (auto simp: select_candidate_kid_def split: option.splits)
qed

text \<open>The key a context uses under a key id, and the key a wrap yields to a private key.\<close>

definition context_key :: "crypto_context \<Rightarrow> string \<Rightarrow> kid \<Rightarrow> verified_private_key \<Rightarrow> bool" where
  "context_key cc h k key \<longleftrightarrow>
     (if k = cc_kid cc then key = cc_private_key cc
      else \<exists>load loaded. cc_local_key_access cc = Some load \<and> load (MemberHandle h) k = Inr loaded \<and>
        key = pkl_private_key loaded)"

definition wrap_yields ::
  "crypto_lib \<Rightarrow> (uuid \<Rightarrow> string \<Rightarrow> u8 list res) \<Rightarrow> uuid \<Rightarrow> verified_private_key \<Rightarrow> wrap_item \<Rightarrow> u8 list \<Rightarrow> bool" where
  "wrap_yields C info_builder sid key w mk \<longleftrightarrow>
     (\<exists>sk enc ct inf. decode_kem_secret_key key = Inr sk \<and>
        decode_base64url_nopad_array 32 (wi_enc w) = Inr enc \<and>
        decode_base64url_nopad_array 48 (wi_ct w) = Inr ct \<and>
        info_builder sid (wi_kid w) = Inr inf \<and> cl_hpke_open C sk enc inf inf ct = Some mk)"

lemma select_context_key:
  assumes "select_local_decryption_key cc rs h = Inr sel"
  shows "context_key cc h (dki_kid (resolution_info sel)) (resolution_private_key sel)"
proof -
  from assms obtain k where k: "select_candidate_kid (self_wrap_kid rs (MemberHandle h)) (cc_selected_kid_override cc) = Some k"
    by (auto simp: select_local_decryption_key_def MemberHandle_new_iff split: option.splits)
  show ?thesis
  proof (cases "k = cc_kid cc")
    case True
    with assms k show ?thesis
      by (auto simp: select_local_decryption_key_def MemberHandle_new_iff active_decryption_key_def context_key_def)
  next
    case False
    with assms k have "load_fallback_key cc (MemberHandle h) k = Inr (Some sel)"
      by (auto simp: select_local_decryption_key_def MemberHandle_new_iff split: option.splits)
    then obtain load loaded where "cc_local_key_access cc = Some load" "load (MemberHandle h) k = Inr loaded"
      "sel = build_fallback_resolution loaded k"
      by (auto simp: load_fallback_key_def split: option.splits sum.splits if_splits)
    with False show ?thesis by (auto simp: context_key_def build_fallback_resolution_def)
  qed
qed

lemma WrapSet_parse_member:
  assumes "WrapSet_parse ws = Inr rs" and "r \<in> set rs"
  shows "\<exists>w\<in>set ws. RecipientWrap_parse w = Inr r"
proof -
  from assms(2) obtain i where i: "i < length rs" "r = rs ! i" by (auto simp: in_set_conv_nth)
  with assms(1) have "i < length ws" "RecipientWrap_parse (ws ! i) = Inr r"
    by (auto simp: WrapSet_parse_def collect_res_Inr list_all2_conv_all_nth)
  then show ?thesis using nth_mem by blast
qed

lemma WrapSet_parse_handles:
  assumes "WrapSet_parse ws = Inr rs" and "w \<in> set ws" and "w' \<in> set ws"
    and "wi_recipient_handle w' = wi_recipient_handle w"
  shows "w' = w"
proof -
  have "distinct (map wi_recipient_handle ws)"
    using assms(1) by (auto simp: WrapSet_parse_def validate_wrap_items_iff)
  with assms(2-4) show ?thesis by (auto simp: distinct_map inj_on_def)
qed

lemma unwrap_yields:
  assumes "unwrap_master_key C r sid sk info_builder = Inr mk" and "RecipientWrap_parse w = Inr r"
    and "decode_kem_secret_key key = Inr sk"
  shows "wrap_yields C info_builder sid key w mk \<and> length mk = 32"
  using assms
  by (auto simp: unwrap_master_key_def RecipientWrap_parse_def Kid_from_canonical_iff open_base_def
      parse_master_key_from_plaintext_def wrap_yields_def split: if_splits option.splits)

text \<open>What selection, lookup and opening give together, for either format.\<close>

lemma selected_wrap_opened:
  assumes rs: "WrapSet_parse ws = Inr rs" and h: "validate_member_handle h = Inr ()"
    and sel: "select_local_decryption_key cc rs h = Inr sel"
    and r: "find_by_kid_for_member rs (dki_kid (resolution_info sel)) (MemberHandle h) = Inr r"
    and sk: "decode_kem_secret_key (resolution_private_key sel) = Inr sk"
    and mk: "unwrap_master_key C r sid sk info_builder = Inr mk"
  shows "\<exists>w\<in>set ws. wi_recipient_handle w = h \<and> wi_kid w = kid_str (dki_kid (resolution_info sel)) \<and>
    (\<forall>w'\<in>set ws. wi_recipient_handle w' = h \<longrightarrow> w' = w) \<and>
    (\<exists>key. context_key cc h (dki_kid (resolution_info sel)) key \<and> wrap_yields C info_builder sid key w mk) \<and>
    length mk = 32"
proof -
  from r have r': "r \<in> set rs" "rw_kid r = dki_kid (resolution_info sel)" "rw_recipient_handle r = MemberHandle h"
    by (auto simp: find_by_kid_for_member_def find_Some_iff split: option.splits)
  obtain w where w: "w \<in> set ws" "RecipientWrap_parse w = Inr r"
    using WrapSet_parse_member [OF rs r'(1)] by blast
  have labels: "wi_recipient_handle w = h" "wi_kid w = kid_str (dki_kid (resolution_info sel))"
    using RecipientWrap_parse_labels [OF w(2)] r'(2,3) by (metis kid.sel member_handle.sel)+
  moreover have "\<forall>w'\<in>set ws. wi_recipient_handle w' = h \<longrightarrow> w' = w"
    using WrapSet_parse_handles [OF rs w(1)] unfolding labels(1) by blast
  ultimately show ?thesis
    using unwrap_yields [OF mk w(2) sk] select_context_key [OF sel] w(1) by blast
qed

text \<open>
  C10. A member's key is only ever used on the member's own wrap: when unwrapping a kv or a file
  document succeeds, there is exactly one wrap in the document with the member's handle, it carries
  the key id reported, and the master key returned is what opening that wrap's own encapsulation
  and ciphertext yields under the document's session id, with the context's private key when the
  key id is the context's own and with the key the keystore loads under that handle and key id
  otherwise; an explicitly selected key id is respected, the fallback flag is set exactly when the
  key is not the context's own, and the master key has 32 bytes.
\<close>

theorem unwrap_opens_own_wrap:
  assumes "(case format of
      KvWrap \<Rightarrow> unwrap_master_key_for_kv_with_context J C sid ws h cc
    | FileWrap \<Rightarrow> unwrap_master_key_for_file_with_context J C doc h cc) = Inr (mk, info)"
    and "format = FileWrap \<Longrightarrow>
      fe_wrap (fed_protected (vd_document doc)) = ws \<and> fe_sid (fed_protected (vd_document doc)) = sid"
  shows "\<exists>w\<in>set ws. wi_recipient_handle w = h \<and> wi_kid w = kid_str (dki_kid info) \<and>
    (\<forall>w'\<in>set ws. wi_recipient_handle w' = h \<longrightarrow> w' = w) \<and>
    (\<exists>key. context_key cc h (dki_kid info) key \<and>
       wrap_yields C (case format of KvWrap \<Rightarrow> build_kv_wrap_info J | FileWrap \<Rightarrow> build_file_wrap_info J)
         sid key w mk) \<and>
    (case cc_selected_kid_override cc of Some k \<Rightarrow> dki_kid info = k | None \<Rightarrow> True) \<and>
    (dki_used_fallback info \<longleftrightarrow> dki_kid info \<noteq> cc_kid cc) \<and> length mk = 32"
proof -
  let ?info = "case format of KvWrap \<Rightarrow> build_kv_wrap_info J | FileWrap \<Rightarrow> build_file_wrap_info J"
  obtain rs sel r sk where opened: "WrapSet_parse ws = Inr rs" "validate_member_handle h = Inr ()"
      "select_local_decryption_key cc rs h = Inr sel"
      "find_by_kid_for_member rs (dki_kid (resolution_info sel)) (MemberHandle h) = Inr r"
      "decode_kem_secret_key (resolution_private_key sel) = Inr sk"
      "unwrap_master_key C r sid sk ?info = Inr mk"
    and info: "info = resolution_info sel"
    using assms by (cases format)
      (auto simp: unwrap_master_key_for_kv_with_context_def unwrap_master_key_for_file_with_context_def
        unwrap_master_key_from_item_def MemberHandle_new_iff Let_def)
  show ?thesis
    using selected_wrap_opened [OF opened] select_reported [OF opened(3)] unfolding info by blast
qed

text \<open>Two recipients, the second of whom unwraps.\<close>

definition sample_first_member :: public_key where
  "sample_first_member = sample_member\<lparr>pk_protected := (pk_protected sample_member)\<lparr>pk_subject_handle := ''bob''\<rparr>\<rparr>"

lemma sample_handles:
  "pk_subject_handle (pk_protected sample_member) = ''alice''"
  "pk_subject_handle (pk_protected sample_first_member) = ''bob''"
  by (simp_all add: sample_first_member_def sample_member_def sample_public_key_def PublicKey_new_def)

lemma sample_first_member_ok:
  "labels_valid sample_first_member" "kem_pair sample_crypto sample_first_member sample_kem_key"
  using sample_member_ok(1,2)
  by (simp_all add: labels_valid_def kem_pair_def sample_first_member_def validate_member_handle_def
      ensure_member_handle_length_def ensure_member_handle_starts_alphanumeric_def
      ensure_member_handle_characters_def limit_defs member_handle_char_def ascii_class_defs)

lemma sample_unwrap:
  "\<exists>ws info. length ws = 2 \<and> wi_recipient_handle (hd ws) = ''bob'' \<and>
     unwrap_master_key_for_kv_with_context (sample_lib []) sample_crypto 1 ws ''alice'' sample_context =
       Inr (replicate 32 6, info)"
proof -
  let ?ms = "[sample_first_member, sample_member]"
  obtain info pk where "build_kv_wrap_info (sample_lib []) 1 (pk_kid (pk_protected sample_member)) = Inr info"
    and "decode_base64url_nopad_array 32 (jwk_x (ik_kem (pk_keys (pk_protected sample_member)))) = Inr pk"
    using sample_member_ok(2) by (auto simp: kem_pair_def binding_total)
  moreover have "\<exists>p. cl_hpke_seal sample_crypto rnd pk info aad m = Some p" for rnd pk info aad m
    by (simp add: sample_crypto_def)
  ultimately have "\<exists>w. build_wrap_item_for_kv (sample_lib []) sample_crypto [0] m 1 (replicate 32 6) = Inr w"
    if "m \<in> set ?ms" for m
    using that
    by (auto simp: build_wrap_item_for_kv_def build_wrap_item_def seal_base_def sample_first_member_def Let_def)
  then obtain w1 w2 where
    "build_wrap_item_for_kv (sample_lib []) sample_crypto [0] sample_first_member 1 (replicate 32 6) = Inr w1"
    "build_wrap_item_for_kv (sample_lib []) sample_crypto [0] sample_member 1 (replicate 32 6) = Inr w2"
    by (metis list.set_intros)
  then have ws: "kv_wrap.wraps_all (sample_lib []) sample_crypto (\<lambda>_. [0]) ?ms 1 (replicate 32 6) = Inr [w1, w2]"
    by (simp add: kv_wrap.wraps_all_def)
  from kv_wrap.wraps_all_labels [OF ws] have "wi_recipient_handle w1 = ''bob''"
    by (simp add: sample_handles)
  moreover have "unwrap_master_key_for_kv_with_context (sample_lib []) sample_crypto 1 [w1, w2]
      (pk_subject_handle (pk_protected sample_member)) sample_context =
      Inr (replicate 32 6, resolution_info (active_decryption_key sample_context (cc_kid sample_context)))"
    using sample_member_ok sample_first_member_ok
    by (intro kv_recipient_unwraps [OF ws]) (auto simp: sample_handles limit_defs)
  ultimately show ?thesis
    by (intro exI [of _ "[w1, w2]"]) (auto simp: sample_handles)
qed

lemma unwrap_opens_own_wrap_witness:
  "\<exists>ws w (info :: decryption_key_info). w \<in> set ws \<and> w \<noteq> hd ws \<and> wi_recipient_handle w = ''alice'' \<and>
     wi_kid w = kid_str (dki_kid info) \<and>
     (\<exists>key. context_key sample_context ''alice'' (dki_kid info) key \<and>
        wrap_yields sample_crypto (build_kv_wrap_info (sample_lib [])) 1 key w (replicate 32 6))"
proof -
  obtain ws info where first: "wi_recipient_handle (hd ws) = ''bob''"
    and unwrapped: "unwrap_master_key_for_kv_with_context (sample_lib []) sample_crypto 1 ws ''alice''
      sample_context = Inr (replicate 32 6, info)"
    using sample_unwrap by blast
  from unwrapped have "\<exists>w\<in>set ws. wi_recipient_handle w = ''alice'' \<and> wi_kid w = kid_str (dki_kid info) \<and>
     (\<exists>key. context_key sample_context ''alice'' (dki_kid info) key \<and>
        wrap_yields sample_crypto (build_kv_wrap_info (sample_lib [])) 1 key w (replicate 32 6))"
    using unwrap_opens_own_wrap [where format = KvWrap and J = "sample_lib []" and C = sample_crypto
        and sid = 1 and ws = ws and h = "''alice''" and cc = sample_context] by fastforce
  then obtain w where "w \<in> set ws" "wi_recipient_handle w = ''alice''" "wi_kid w = kid_str (dki_kid info)"
    "\<exists>key. context_key sample_context ''alice'' (dki_kid info) key \<and>
        wrap_yields sample_crypto (build_kv_wrap_info (sample_lib [])) 1 key w (replicate 32 6)"
    by force
  moreover have "w \<noteq> hd ws" using first \<open>wi_recipient_handle w = ''alice''\<close> by auto
  ultimately show ?thesis by blast
qed

end
