(* ===== verification/Ssh_Wire.thy ===== *)
theory Ssh_Wire
  imports Crypto_Model
begin

text \<open>
  The SSH side: the string framing of \<open>io/ssh/protocol/wire.rs\<close>, public key lines
  (\<open>parse.rs\<close>, \<open>fingerprint.rs\<close>), SSHSIG blobs (\<open>sshsig.rs\<close>, \<open>base64.rs\<close>), signature blobs
  (\<open>types/blob.rs\<close>, \<open>types/signature.rs\<close>), the agent's packets (\<open>io/ssh/agent/protocol.rs\<close>,
  \<open>validation.rs\<close>), the determinism check of \<open>io/ssh/backend/signature_backend.rs\<close> and the
  attestation of a public key (\<open>format/public_key.rs\<close>, \<open>io/ssh/verify.rs\<close>). The locale
  \<open>stream_codec\<close> is the contract of a self-delimiting encoding; the parsers are characterised by
  the bytes they accept through its interpretation on SSH strings.
\<close>

unbundle bit_operations_syntax

section \<open>Self-delimiting encodings\<close>

locale stream_codec =
  fixes put :: "'a \<Rightarrow> u8 list res"
    and get :: "u8 list \<Rightarrow> ('a \<times> u8 list) res"
  assumes get_put: "put x = Inr bs \<Longrightarrow> get (bs @ rest) = Inr (x, rest)"
    and put_get: "get s = Inr (x, rest) \<Longrightarrow> \<exists>bs. put x = Inr bs \<and> s = bs @ rest"
begin

lemma get_iff: "get s = Inr (x, rest) \<longleftrightarrow> (\<exists>bs. put x = Inr bs \<and> s = bs @ rest)"
  using get_put put_get by blast

lemma put_inject: "put x = Inr bs \<Longrightarrow> put y = Inr cs \<Longrightarrow> bs @ r = cs @ s \<Longrightarrow> x = y \<and> r = s"
  using get_put by (metis Inr_inject prod.inject)

end

section \<open>Big-endian words\<close>

definition u32_to_be_bytes :: "32 word \<Rightarrow> u8 list" where
  "u32_to_be_bytes w = [ucast (drop_bit 24 w), ucast (drop_bit 16 w), ucast (drop_bit 8 w), ucast w]"

definition u32_from_be_bytes :: "u8 \<Rightarrow> u8 \<Rightarrow> u8 \<Rightarrow> u8 \<Rightarrow> 32 word" where
  "u32_from_be_bytes a b c d =
     push_bit 24 (ucast a) OR push_bit 16 (ucast b) OR push_bit 8 (ucast c) OR ucast d"

lemma length_u32_to_be_bytes [simp]: "length (u32_to_be_bytes w) = 4"
  by (simp add: u32_to_be_bytes_def)

lemma u8_bit: "\<not> n < 8 \<Longrightarrow> \<not> bit (b :: u8) n"
  using bit_imp_le_length by force

lemma bit_u32_from_be_bytes:
  "n < 32 \<Longrightarrow> bit (u32_from_be_bytes a b c d) n \<longleftrightarrow>
    (24 \<le> n \<and> bit a (n - 24)) \<or> (16 \<le> n \<and> bit b (n - 16)) \<or> (8 \<le> n \<and> bit c (n - 8)) \<or> bit d n"
  by (simp add: u32_from_be_bytes_def bit_or_iff bit_push_bit_iff bit_unsigned_iff u8_bit) auto

lemma u32_from_to:
  "u32_from_be_bytes (ucast (drop_bit 24 w)) (ucast (drop_bit 16 w)) (ucast (drop_bit 8 w)) (ucast w) = w"
proof (rule bit_word_eqI)
  fix n assume "n < LENGTH(32)" then have n: "n < 32" by simp
  have *: "bit (ucast (x :: 32 word) :: u8) m \<longleftrightarrow> m < 8 \<and> bit x m" for x m
    by (simp add: bit_unsigned_iff)
  show "bit (u32_from_be_bytes (ucast (drop_bit 24 w)) (ucast (drop_bit 16 w)) (ucast (drop_bit 8 w)) (ucast w)) n = bit w n"
    unfolding bit_u32_from_be_bytes [OF n] * bit_drop_bit_eq comp_def
    using n by (cases "n < 8"; cases "n < 16"; cases "n < 24") auto
qed

lemma u32_to_from: "u32_to_be_bytes (u32_from_be_bytes a b c d) = [a, b, c, d]"
proof -
  have *: "m + k < 32 \<Longrightarrow> m < 8 \<Longrightarrow> bit (ucast (drop_bit k (x :: 32 word)) :: u8) m \<longleftrightarrow> bit x (m + k)" for x m k
    by (simp add: bit_unsigned_iff bit_drop_bit_eq add.commute)
  have "ucast (drop_bit 24 (u32_from_be_bytes a b c d)) = a"
    by (rule bit_word_eqI) (simp add: * bit_u32_from_be_bytes u8_bit)
  moreover have "ucast (drop_bit 16 (u32_from_be_bytes a b c d)) = b"
    by (rule bit_word_eqI) (simp add: * bit_u32_from_be_bytes u8_bit)
  moreover have "ucast (drop_bit 8 (u32_from_be_bytes a b c d)) = c"
    by (rule bit_word_eqI) (simp add: * bit_u32_from_be_bytes u8_bit)
  moreover have "ucast (u32_from_be_bytes a b c d) = d"
    using *[where k=0] by (intro bit_word_eqI) (simp add: bit_u32_from_be_bytes u8_bit)
  ultimately show ?thesis by (simp add: u32_to_be_bytes_def)
qed
definition U32_MAX :: nat where "U32_MAX = 2 ^ 32 - 1"

text \<open>\<open>usize\<close> as on the 64-bit platforms the crate is built for.\<close>

definition checked_add_usize :: "nat \<Rightarrow> nat \<Rightarrow> nat option" where
  "checked_add_usize a b = (if a + b < 2 ^ 64 then Some (a + b) else None)"

section \<open>SSH strings\<close>

definition LENGTH_PREFIX_SIZE :: nat where "LENGTH_PREFIX_SIZE = 4"

definition encode_ssh_string :: "u8 list \<Rightarrow> u8 list res" where
  "encode_ssh_string data =
     (if length data > U32_MAX then Inl (plain_error Ssh)
      else Inr (u32_to_be_bytes (of_nat (length data)) @ data))"

definition decode_ssh_string :: "u8 list \<Rightarrow> (u8 list \<times> u8 list) res" where
  "decode_ssh_string data =
     (if length data < LENGTH_PREFIX_SIZE then Inl (plain_error Ssh)
      else
        let len = unat (u32_from_be_bytes (data ! 0) (data ! 1) (data ! 2) (data ! 3)) in
        res_bind (ok_or (plain_error Ssh) (checked_add_usize len LENGTH_PREFIX_SIZE)) (\<lambda>stop.
        if length data < stop then Inl (plain_error Ssh)
        else Inr (take (stop - LENGTH_PREFIX_SIZE) (drop LENGTH_PREFIX_SIZE data), drop stop data)))"

lemma checked_add_len: "checked_add_usize (unat (w :: 32 word)) 4 = Some (unat w + 4)"
  using unsigned_less [of w, where ?'a = nat] by (simp add: checked_add_usize_def)

lemma decode_ssh_string_Cons:
  "decode_ssh_string (a # b # c # d # t) =
     (if length t < unat (u32_from_be_bytes a b c d) then Inl (plain_error Ssh)
      else Inr (take (unat (u32_from_be_bytes a b c d)) t, drop (unat (u32_from_be_bytes a b c d)) t))"
  by (simp add: decode_ssh_string_def LENGTH_PREFIX_SIZE_def checked_add_len Let_def
      drop_drop [of _ 4, symmetric] del: drop_drop)

lemma ssh_string_length: "encode_ssh_string data = Inr bs \<Longrightarrow> length bs = length data + 4"
  by (auto simp: encode_ssh_string_def split: if_splits)

lemma decode_encode_ssh_string:
  assumes "encode_ssh_string data = Inr bs"
  shows "decode_ssh_string (bs @ rest) = Inr (data, rest)"
proof -
  let ?w = "of_nat (length data) :: 32 word"
  have fits: "length data < 2 ^ 32" and bs: "bs = u32_to_be_bytes ?w @ data"
    using assms by (auto simp: encode_ssh_string_def U32_MAX_def split: if_splits)
  have len: "unat ?w = length data"
    using fits by (simp add: unsigned_of_nat take_bit_nat_eq_self)
  show ?thesis
    unfolding bs u32_to_be_bytes_def by (simp only: append_Cons append_Nil decode_ssh_string_Cons
        u32_from_to len) simp
qed

lemma encode_decode_ssh_string:
  assumes "decode_ssh_string s = Inr (data, rest)"
  shows "\<exists>bs. encode_ssh_string data = Inr bs \<and> s = bs @ rest"
proof -
  obtain a b c d t where s: "s = a # b # c # d # t"
  proof -
    have "\<not> length s < 4" using assms by (auto simp: decode_ssh_string_def LENGTH_PREFIX_SIZE_def)
    then show ?thesis using that
      by (cases s; cases "tl s"; cases "tl (tl s)"; cases "tl (tl (tl s))") auto
  qed
  let ?w = "u32_from_be_bytes a b c d"
  have len: "unat ?w \<le> length t" and data: "data = take (unat ?w) t" "rest = drop (unat ?w) t"
    using assms by (auto simp: s decode_ssh_string_Cons split: if_splits)
  have "length data = unat ?w" using len data by simp
  moreover have "unat ?w < 2 ^ 32" using unsigned_less [of ?w, where ?'a = nat] by simp
  ultimately have "encode_ssh_string data = Inr ([a, b, c, d] @ data)"
    by (simp add: encode_ssh_string_def U32_MAX_def u32_to_from)
  then show ?thesis using data by (auto simp: s)
qed

interpretation ssh_string: stream_codec encode_ssh_string decode_ssh_string
  by unfold_locales (simp_all add: decode_encode_ssh_string encode_decode_ssh_string)

lemma encode_ssh_string_error: "encode_ssh_string data = Inl e \<Longrightarrow> e = plain_error Ssh"
  by (auto simp: encode_ssh_string_def split: if_splits)

lemma decode_ssh_string_error: "decode_ssh_string s = Inl e \<Longrightarrow> e = plain_error Ssh"
  by (auto simp: decode_ssh_string_def res_bind_Inl split: if_splits)

text \<open>The bytes of an SSH string that fits its length field.\<close>

definition framed_ssh :: "u8 list \<Rightarrow> u8 list" where
  "framed_ssh data = u32_to_be_bytes (of_nat (length data)) @ data"

lemma decode_framed_iff:
  "decode_ssh_string s = Inr (data, rest) \<longleftrightarrow> length data \<le> U32_MAX \<and> s = framed_ssh data @ rest"
  by (auto simp: ssh_string.get_iff encode_ssh_string_def framed_ssh_def split: if_splits)

section \<open>Public key lines\<close>

definition KEY_TYPE_ED25519 :: string where "KEY_TYPE_ED25519 = ''ssh-ed25519''"
definition ATTESTATION_NAMESPACE :: string where "ATTESTATION_NAMESPACE = ''kapsaro-attestation''"
definition KEY_PROTECTION_NAMESPACE :: string where
  "KEY_PROTECTION_NAMESPACE = ''kapsaro-key-protection''"
definition ATTESTATION_METHOD_SSH_SIGN :: string where "ATTESTATION_METHOD_SSH_SIGN = ''ssh-sign''"

definition decode_ssh_public_key_blob :: "string \<Rightarrow> u8 list res" where
  "decode_ssh_public_key_blob ssh_pubkey =
     (let line = str_trim ssh_pubkey in
      if line = [] then Inl (plain_error Ssh)
      else (case split_whitespace line of
          key_type # blob # _ \<Rightarrow>
            if key_type \<noteq> KEY_TYPE_ED25519 then Inl (plain_error Ssh)
            else map_err (\<lambda>_. plain_error Ssh) (decode_base64_standard blob)
        | _ \<Rightarrow> Inl (plain_error Ssh)))"

definition build_sha256_fingerprint :: "crypto_lib \<Rightarrow> string \<Rightarrow> string res" where
  "build_sha256_fingerprint C ssh_pubkey =
     res_bind (decode_ssh_public_key_blob ssh_pubkey) (\<lambda>key_blob.
     Inr (''SHA256:'' @ encode_base64_standard_nopad (cl_sha256 C key_blob)))"

section \<open>SSHSIG\<close>

definition SSHSIG_MAGIC :: "u8 list" where "SSHSIG_MAGIC = as_bytes ''SSHSIG''"
definition SSHSIG_HASHALG :: string where "SSHSIG_HASHALG = ''sha256''"

definition build_sshsig_signed_data :: "crypto_lib \<Rightarrow> u8 list \<Rightarrow> string \<Rightarrow> u8 list res" where
  "build_sshsig_signed_data C message namespace =
     (let hash = cl_sha256 C message in
      res_bind (encode_ssh_string (as_bytes namespace)) (\<lambda>ns.
      res_bind (encode_ssh_string []) (\<lambda>reserved.
      res_bind (encode_ssh_string (as_bytes SSHSIG_HASHALG)) (\<lambda>alg.
      res_bind (encode_ssh_string hash) (\<lambda>h.
      Inr (SSHSIG_MAGIC @ ns @ reserved @ alg @ h))))))"

definition validate_sshsig_header :: "u8 list \<Rightarrow> u8 list res" where
  "validate_sshsig_header blob =
     (if length blob < 6 then Inl (plain_error Ssh)
      else if take 6 blob \<noteq> SSHSIG_MAGIC then Inl (plain_error Ssh)
      else if length blob < 10 then Inl (plain_error Ssh)
      else if u32_from_be_bytes (blob ! 6) (blob ! 7) (blob ! 8) (blob ! 9) \<noteq> 1
        then Inl (plain_error Ssh)
      else Inr (drop 10 blob))"

definition validate_namespace :: "u8 list \<Rightarrow> string \<Rightarrow> unit res" where
  "validate_namespace namespace expected =
     (if namespace \<noteq> as_bytes expected then Inl (plain_error Ssh) else Inr ())"

definition validate_reserved :: "u8 list \<Rightarrow> unit res" where
  "validate_reserved reserved = (if reserved \<noteq> [] then Inl (plain_error Ssh) else Inr ())"

definition validate_hashalg :: "u8 list \<Rightarrow> unit res" where
  "validate_hashalg hashalg = (if hashalg \<noteq> as_bytes ''sha256'' then Inl (plain_error Ssh) else Inr ())"

definition validate_publickey :: "u8 list \<Rightarrow> string \<Rightarrow> unit res" where
  "validate_publickey publickey expected_ssh_pubkey =
     res_bind (decode_ssh_public_key_blob expected_ssh_pubkey) (\<lambda>expected.
     if publickey = expected then Inr () else Inl (plain_error Ssh))"

definition parse_sshsig_blob :: "u8 list \<Rightarrow> string \<Rightarrow> string \<Rightarrow> u8 list res" where
  "parse_sshsig_blob blob expected_namespace expected_ssh_pubkey =
     res_bind (validate_sshsig_header blob) (\<lambda>cursor.
     res_bind (decode_ssh_string cursor) (\<lambda>(publickey, cursor).
     res_bind (validate_publickey publickey expected_ssh_pubkey) (\<lambda>_.
     res_bind (decode_ssh_string cursor) (\<lambda>(namespace, cursor).
     res_bind (validate_namespace namespace expected_namespace) (\<lambda>_.
     res_bind (decode_ssh_string cursor) (\<lambda>(reserved, cursor).
     res_bind (validate_reserved reserved) (\<lambda>_.
     res_bind (decode_ssh_string cursor) (\<lambda>(hashalg, cursor).
     res_bind (validate_hashalg hashalg) (\<lambda>_.
     res_bind (decode_ssh_string cursor) (\<lambda>(signature_blob, rest).
     if rest \<noteq> [] then Inl (plain_error Ssh) else Inr signature_blob))))))))))"

definition decode_base64_armored :: "string \<Rightarrow> u8 list res" where
  "decode_base64_armored armored =
     (let lines = filter (\<lambda>l. \<not> starts_with ''-----'' l) (str_lines armored) in
      if lines = [] then Inl (plain_error Ssh)
      else map_err (\<lambda>_. plain_error Ssh) (decode_base64_standard (concat lines)))"

definition parse_sshsig_armored :: "string \<Rightarrow> string \<Rightarrow> string \<Rightarrow> u8 list res" where
  "parse_sshsig_armored armored expected_namespace expected_ssh_pubkey =
     res_bind (decode_base64_armored armored) (\<lambda>blob.
     parse_sshsig_blob blob expected_namespace expected_ssh_pubkey)"

section \<open>Ed25519 signatures\<close>

definition ED25519_SIGNATURE_LENGTH :: nat where "ED25519_SIGNATURE_LENGTH = 64"

definition Ed25519RawSignature_from_slice :: "u8 list \<Rightarrow> u8 list res" where
  "Ed25519RawSignature_from_slice bytes =
     (if length bytes \<noteq> 64 then Inl (plain_error Ssh) else Inr bytes)"

definition decode_ed25519_wire_signature :: "u8 list \<Rightarrow> u8 list res" where
  "decode_ed25519_wire_signature blob =
     res_bind (decode_ssh_string blob) (\<lambda>(algo, rest).
     if algo \<noteq> as_bytes KEY_TYPE_ED25519 then Inl (plain_error Ssh)
     else res_bind (decode_ssh_string rest) (\<lambda>(signature, rest).
       if rest \<noteq> [] then Inl (plain_error Ssh)
       else if length signature \<noteq> ED25519_SIGNATURE_LENGTH then Inl (plain_error Ssh)
       else Inr signature))"

definition extract_ed25519_raw :: "u8 list \<Rightarrow> u8 list res" where
  "extract_ed25519_raw blob = decode_ed25519_wire_signature blob"

section \<open>Deterministic signing\<close>

text \<open>
  A backend signs through an agent or a program whose answers may change from call to call: it is
  a state transformer over the backend's own state.
\<close>

type_synonym 's backend = "string \<Rightarrow> string \<Rightarrow> u8 list \<Rightarrow> 's \<Rightarrow> u8 list res \<times> 's"

definition sign_sshsig_deterministic ::
  "'s backend \<Rightarrow> string \<Rightarrow> string \<Rightarrow> u8 list \<Rightarrow> 's \<Rightarrow> u8 list res \<times> 's" where
  "sign_sshsig_deterministic sign_sshsig namespace ssh_pubkey message st =
     (case sign_sshsig namespace ssh_pubkey message st of
        (Inl e, st1) \<Rightarrow> (Inl e, st1)
      | (Inr sig1, st1) \<Rightarrow> (case sign_sshsig namespace ssh_pubkey message st1 of
          (Inl e, st2) \<Rightarrow> (Inl e, st2)
        | (Inr sig2, st2) \<Rightarrow>
            (if sig1 \<noteq> sig2 then Inl (plain_error Ssh) else Inr sig1, st2)))"

definition enforce_sshsig_determinism ::
  "'s backend \<Rightarrow> string \<Rightarrow> string \<Rightarrow> u8 list \<Rightarrow> 's \<Rightarrow> unit res \<times> 's" where
  "enforce_sshsig_determinism sign_sshsig namespace ssh_pubkey message st =
     (case sign_sshsig_deterministic sign_sshsig namespace ssh_pubkey message st of
        (r, st') \<Rightarrow> (res_map (\<lambda>_. ()) r, st'))"

section \<open>Attestations\<close>

definition SSHSIG_MESSAGE_PUBLIC_KEY_ATTESTATION_V1 :: string where
  "SSHSIG_MESSAGE_PUBLIC_KEY_ATTESTATION_V1 = ''kapsaro:sshsig:public-key:attestation@1''"

record attestation_body_input =
  abi_subject_handle :: string
  abi_keys :: identity_keys
  abi_binding_claims :: "binding_claims option"
  abi_created_at :: "string option"
  abi_expires_at :: string

definition se_attestation_body :: "attestation_body_input \<Rightarrow> json" where
  "se_attestation_body i = JObj
     (opt_member ''binding_claims'' se_binding_claims (abi_binding_claims i) @
      opt_member ''created_at'' JStr (abi_created_at i) @
      [(''expires_at'', JStr (abi_expires_at i)), (''keys'', se_identity_keys (abi_keys i)),
       (''p'', JStr SSHSIG_MESSAGE_PUBLIC_KEY_ATTESTATION_V1),
       (''subject_handle'', JStr (abi_subject_handle i))])"

definition build_attestation_body_bytes :: "json_lib \<Rightarrow> attestation_body_input \<Rightarrow> u8 list res" where
  "build_attestation_body_bytes J i = jcs_normalize J (se_attestation_body i)"

definition build_attestation_signed_data ::
  "json_lib \<Rightarrow> crypto_lib \<Rightarrow> attestation_body_input \<Rightarrow> u8 list res" where
  "build_attestation_signed_data J C i =
     res_bind (map_err (\<lambda>_. plain_error Ssh) (build_attestation_body_bytes J i)) (\<lambda>body.
     build_sshsig_signed_data C body ATTESTATION_NAMESPACE)"

definition decode_attestation_signature :: "string \<Rightarrow> u8 list res" where
  "decode_attestation_signature sig_b64url =
     map_err (\<lambda>_. plain_error Ssh) (decode_base64url_nopad_array 64 sig_b64url)"

definition extract_ed25519_pubkey_from_ssh :: "crypto_lib \<Rightarrow> string \<Rightarrow> u8 list res" where
  "extract_ed25519_pubkey_from_ssh C ssh_pubkey =
     res_bind (decode_ssh_public_key_blob ssh_pubkey) (\<lambda>pubkey_blob.
     res_bind (decode_ssh_string pubkey_blob) (\<lambda>(key_type, rest).
     if key_type \<noteq> as_bytes KEY_TYPE_ED25519 then Inl (plain_error Ssh)
     else res_bind (decode_ssh_string rest) (\<lambda>(pubkey_bytes, rest).
       if rest \<noteq> [] then Inl (plain_error Ssh)
       else if length pubkey_bytes \<noteq> 32 then Inl (plain_error Ssh)
       else if cl_ed_point C pubkey_bytes then Inr pubkey_bytes
       else Inl (plain_error Ssh))))"

definition verify_attestation ::
  "json_lib \<Rightarrow> crypto_lib \<Rightarrow> attestation_body_input \<Rightarrow> string \<Rightarrow> string \<Rightarrow> string \<Rightarrow> unit res" where
  "verify_attestation J C i method ssh_pubkey sig_b64url =
     (if method \<noteq> ATTESTATION_METHOD_SSH_SIGN then Inl (plain_error Ssh)
      else
        res_bind (build_attestation_signed_data J C i) (\<lambda>signed_data.
        res_bind (decode_attestation_signature sig_b64url) (\<lambda>sig.
        res_bind (extract_ed25519_pubkey_from_ssh C ssh_pubkey) (\<lambda>verifying_key.
        if cl_ed_verify C verifying_key signed_data sig then Inr () else Inl (plain_error Ssh)))))"

section \<open>What the parsers accept\<close>

lemma u32_from_be_bytes_iff:
  "u32_from_be_bytes a b c d = w \<longleftrightarrow> [a, b, c, d] = u32_to_be_bytes w"
proof
  assume "[a, b, c, d] = u32_to_be_bytes w"
  then have "a = ucast (drop_bit 24 w)" "b = ucast (drop_bit 16 w)" "c = ucast (drop_bit 8 w)" "d = ucast w"
    by (simp_all add: u32_to_be_bytes_def)
  then show "u32_from_be_bytes a b c d = w" by (simp only: u32_from_to)
qed (simp only: u32_to_from [symmetric])

lemma take_four:
  assumes "10 \<le> length xs"
  shows "take 4 (drop 6 xs) = [xs ! 6, xs ! 7, xs ! 8, xs ! 9]"
proof (rule nth_equalityI)
  fix i assume "i < length (take 4 (drop 6 xs))"
  then consider "i = 0" | "i = 1" | "i = 2" | "i = 3" by fastforce
  then show "take 4 (drop 6 xs) ! i = [xs ! 6, xs ! 7, xs ! 8, xs ! 9] ! i"
    using assms by cases simp_all
qed (use assms in simp)

lemma split_header: "xs = take 6 xs @ take 4 (drop 6 xs) @ drop 10 xs"
  using append_take_drop_id [of 6 xs] append_take_drop_id [of 4 "drop 6 xs"] by simp

lemma validate_sshsig_header_iff:
  "validate_sshsig_header blob = Inr rest \<longleftrightarrow> blob = SSHSIG_MAGIC @ u32_to_be_bytes 1 @ rest"
proof
  assume h: "validate_sshsig_header blob = Inr rest"
  then have len: "10 \<le> length blob" and magic: "take 6 blob = SSHSIG_MAGIC"
    and v: "u32_from_be_bytes (blob ! 6) (blob ! 7) (blob ! 8) (blob ! 9) = 1"
    and rest: "rest = drop 10 blob"
    by (auto simp: validate_sshsig_header_def split: if_splits)
  have "take 4 (drop 6 blob) = u32_to_be_bytes 1"
    using v by (simp only: take_four [OF len] u32_from_be_bytes_iff)
  then show "blob = SSHSIG_MAGIC @ u32_to_be_bytes 1 @ rest"
    using split_header [of blob] magic rest by simp
next
  assume "blob = SSHSIG_MAGIC @ u32_to_be_bytes 1 @ rest"
  then show "validate_sshsig_header blob = Inr rest"
    by (simp add: validate_sshsig_header_def SSHSIG_MAGIC_def as_bytes_def u32_to_be_bytes_def
        u32_from_be_bytes_iff)
qed

text \<open>The one framing of a signature blob an SSHSIG document can have.\<close>

definition sshsig_document :: "u8 list \<Rightarrow> string \<Rightarrow> u8 list \<Rightarrow> u8 list" where
  "sshsig_document publickey namespace signature =
     SSHSIG_MAGIC @ u32_to_be_bytes 1 @ framed_ssh publickey @ framed_ssh (as_bytes namespace) @
     framed_ssh [] @ framed_ssh (as_bytes SSHSIG_HASHALG) @ framed_ssh signature"

text \<open>
  C25. An SSHSIG blob is accepted exactly when it is the framing of the expected public key, the
  expected namespace, an empty reserved field, the hash algorithm sha256 and a signature, with
  nothing before, between or after; the signature returned is the one framed. A signature made in
  another namespace or for another key is not accepted.
\<close>

theorem parse_sshsig_blob_iff:
  "parse_sshsig_blob blob namespace pubkey = Inr signature \<longleftrightarrow>
     (\<exists>key. decode_ssh_public_key_blob pubkey = Inr key \<and> length key \<le> U32_MAX \<and>
        length namespace \<le> U32_MAX \<and> length signature \<le> U32_MAX \<and>
        blob = sshsig_document key namespace signature)"
  by (auto simp: parse_sshsig_blob_def validate_sshsig_header_iff decode_framed_iff
      validate_publickey_def validate_namespace_def validate_reserved_def validate_hashalg_def
      sshsig_document_def SSHSIG_HASHALG_def U32_MAX_def split: if_splits)

text \<open>The Ed25519 signature a signature blob frames.\<close>

definition ed25519_blob :: "u8 list \<Rightarrow> u8 list" where
  "ed25519_blob signature = framed_ssh (as_bytes KEY_TYPE_ED25519) @ framed_ssh signature"

lemma extract_ed25519_raw_iff:
  "extract_ed25519_raw blob = Inr signature \<longleftrightarrow>
     length signature = 64 \<and> blob = ed25519_blob signature"
  by (auto simp: extract_ed25519_raw_def decode_ed25519_wire_signature_def decode_framed_iff
      ed25519_blob_def KEY_TYPE_ED25519_def ED25519_SIGNATURE_LENGTH_def U32_MAX_def split: if_splits)

section \<open>Signed data\<close>

lemma framed_ssh_append_inject:
  assumes "length a \<le> U32_MAX" and "length b \<le> U32_MAX"
  shows "framed_ssh a @ r = framed_ssh b @ t \<longleftrightarrow> a = b \<and> r = t"
proof
  assume eq: "framed_ssh a @ r = framed_ssh b @ t"
  have "decode_ssh_string (framed_ssh a @ r) = Inr (a, r)"
    using assms by (subst decode_framed_iff) simp
  moreover have "decode_ssh_string (framed_ssh b @ t) = Inr (b, t)"
    using assms by (subst decode_framed_iff) simp
  ultimately show "a = b \<and> r = t" unfolding eq by simp
qed simp

lemma framed_ssh_inject:
  "length a \<le> U32_MAX \<Longrightarrow> length b \<le> U32_MAX \<Longrightarrow> framed_ssh a = framed_ssh b \<longleftrightarrow> a = b"
  using framed_ssh_append_inject [of a b "[]" "[]"] by simp

lemma signed_data_Inr:
  "build_sshsig_signed_data C m ns = Inr d \<longleftrightarrow>
     length ns \<le> U32_MAX \<and> length (cl_sha256 C m) \<le> U32_MAX \<and>
     d = SSHSIG_MAGIC @ framed_ssh (as_bytes ns) @ framed_ssh [] @
       framed_ssh (as_bytes SSHSIG_HASHALG) @ framed_ssh (cl_sha256 C m)"
  by (auto simp: build_sshsig_signed_data_def encode_ssh_string_def framed_ssh_def Let_def
      SSHSIG_HASHALG_def U32_MAX_def split: if_splits)

text \<open>
  C26. What an SSH key signs determines its purpose: two SSHSIG messages are the same bytes only for
  the same namespace and the same digest of the message. A signature over an attestation is
  therefore never one made to protect a private key.
\<close>

theorem sshsig_signed_data_separates_namespaces:
  assumes "build_sshsig_signed_data C m ns = Inr d" and "build_sshsig_signed_data C m' ns' = Inr d"
  shows "ns = ns' \<and> cl_sha256 C m = cl_sha256 C m' \<and>
    (ns = ATTESTATION_NAMESPACE \<longrightarrow> ns' \<noteq> KEY_PROTECTION_NAMESPACE)"
proof -
  from assms have "framed_ssh (as_bytes ns) @ framed_ssh [] @ framed_ssh (as_bytes SSHSIG_HASHALG) @
      framed_ssh (cl_sha256 C m) = framed_ssh (as_bytes ns') @ framed_ssh [] @
      framed_ssh (as_bytes SSHSIG_HASHALG) @ framed_ssh (cl_sha256 C m') @ []"
    and "length ns \<le> U32_MAX" "length ns' \<le> U32_MAX"
    and "length (cl_sha256 C m) \<le> U32_MAX" "length (cl_sha256 C m') \<le> U32_MAX"
    by (auto simp: signed_data_Inr)
  then show ?thesis
    by (simp add: framed_ssh_append_inject framed_ssh_inject ATTESTATION_NAMESPACE_def
        KEY_PROTECTION_NAMESPACE_def)
qed

lemma sshsig_signed_data_separates_namespaces_witness:
  "\<exists>d. build_sshsig_signed_data sample_crypto [1] ATTESTATION_NAMESPACE = Inr d \<and>
     build_sshsig_signed_data sample_crypto [1] KEY_PROTECTION_NAMESPACE \<noteq> Inr d"
proof -
  have "\<exists>d. build_sshsig_signed_data sample_crypto [1] ATTESTATION_NAMESPACE = Inr d"
    by (simp add: signed_data_Inr ATTESTATION_NAMESPACE_def U32_MAX_def sample_crypto_def)
  then obtain d where d: "build_sshsig_signed_data sample_crypto [1] ATTESTATION_NAMESPACE = Inr d" ..
  show ?thesis
    using sshsig_signed_data_separates_namespaces [OF d, of "[1]" KEY_PROTECTION_NAMESPACE] d by blast
qed

section \<open>OpenSSH key lines\<close>

text \<open>An Ed25519 key as \<open>ssh-keygen\<close> prints it, without a comment.\<close>

definition ed25519_line :: "u8 list \<Rightarrow> string" where
  "ed25519_line key =
     KEY_TYPE_ED25519 @ '' '' @ encode_base64_standard_nopad (ed25519_blob key) @
     standard_padding (length (ed25519_blob key))"

lemma standard_text_graphic:
  "list_all graphic (encode_base64_standard_nopad bs @ standard_padding n)"
  using encode_standard_chars by (auto simp: list_all_iff graphic_def code_in_def standard_padding_def)

lemma decode_ed25519_line: "decode_ssh_public_key_blob (ed25519_line key) = Inr (ed25519_blob key)"
proof -
  let ?b = "encode_base64_standard_nopad (ed25519_blob key) @ standard_padding (length (ed25519_blob key))"
  have g: "list_all graphic ?b" by (rule standard_text_graphic)
  have dec: "decode_base64_standard ?b = Inr (ed25519_blob key)"
    by (simp add: decode_standard_iff)
  have ne: "?b \<noteq> []"
  proof
    assume "?b = []"
    then have "decode_base64_standard ?b = Inr []"
      by (simp add: decode_standard_iff encode_base64_standard_nopad_def)
    with dec show False by (simp add: ed25519_blob_def framed_ssh_def u32_to_be_bytes_def)
  qed
  have "str_trim (ed25519_line key) = ed25519_line key"
    using g ne by (intro str_trim_graphic)
      (auto simp: ed25519_line_def KEY_TYPE_ED25519_def graphic_def code_in_def list_all_iff
        last_append dest: last_in_set split: if_splits)
  moreover have "split_whitespace (ed25519_line key) = [KEY_TYPE_ED25519, ?b]"
  proof -
    have t: "list_all graphic KEY_TYPE_ED25519" by (simp add: KEY_TYPE_ED25519_def graphic_def code_in_def)
    have line: "ed25519_line key = KEY_TYPE_ED25519 @ CHR '' '' # ?b" by (simp add: ed25519_line_def)
    have "push_word (rev ?b @ []) [] = [?b]" using ne by (auto simp: push_word_def)
    moreover have "push_word (rev KEY_TYPE_ED25519 @ []) ws = KEY_TYPE_ED25519 # ws" for ws
      by (simp add: push_word_def KEY_TYPE_ED25519_def)
    ultimately show ?thesis
      unfolding split_whitespace_def line split_words_graphic [OF t] split_words_graphic_end [OF g]
      by simp
  qed
  ultimately show ?thesis
    using dec by (simp add: decode_ssh_public_key_blob_def Let_def ed25519_line_def [symmetric])
       (simp add: ed25519_line_def KEY_TYPE_ED25519_def)
qed

lemma extract_from_line:
  assumes "length key = 32" and "cl_ed_point C key"
  shows "extract_ed25519_pubkey_from_ssh C (ed25519_line key) = Inr key"
proof -
  have "decode_ssh_string (ed25519_blob key) = Inr (as_bytes KEY_TYPE_ED25519, framed_ssh key)"
    and "decode_ssh_string (framed_ssh key) = Inr (key, [])"
    using assms by (auto simp: decode_framed_iff ed25519_blob_def KEY_TYPE_ED25519_def U32_MAX_def)
  with assms show ?thesis by (simp add: extract_ed25519_pubkey_from_ssh_def decode_ed25519_line)
qed

end
