(* ===== verification/Ssh_Agent.thy ===== *)
theory Ssh_Agent
  imports Ssh_Wire
begin

text \<open>
  Signing through ssh-agent: the packets of \<open>io/ssh/agent/protocol.rs\<close>, the key checks of
  \<open>io/ssh/agent/validation.rs\<close>, the deadline-bounded exchange of \<open>io/ssh/agent/client.rs\<close>, and the
  reading of \<open>IdentityAgent\<close> from an OpenSSH configuration (\<open>io/ssh/openssh_config.rs\<close>). The socket
  is what the agent will send, with one event per system call: the clock when it is armed and its
  outcome. A run of the events that ends inside the exchange is the value \<open>None\<close>.
\<close>

section \<open>Packets\<close>

definition SSH_AGENT_FAILURE :: u8 where "SSH_AGENT_FAILURE = 5"
definition SSH_AGENT_IDENTITIES_ANSWER :: u8 where "SSH_AGENT_IDENTITIES_ANSWER = 12"
definition SSH_AGENT_SIGN_RESPONSE :: u8 where "SSH_AGENT_SIGN_RESPONSE = 14"
definition SSH_AGENTC_REQUEST_IDENTITIES :: u8 where "SSH_AGENTC_REQUEST_IDENTITIES = 11"
definition SSH_AGENTC_SIGN_REQUEST :: u8 where "SSH_AGENTC_SIGN_REQUEST = 13"
definition MAX_AGENT_PACKET_SIZE :: nat where "MAX_AGENT_PACKET_SIZE = 1024 * 1024"
definition MIN_AGENT_IDENTITY_WIRE_SIZE :: nat where "MIN_AGENT_IDENTITY_WIRE_SIZE = 2 * 4"

lemmas agent_constant_defs =
  SSH_AGENT_FAILURE_def SSH_AGENT_IDENTITIES_ANSWER_def SSH_AGENT_SIGN_RESPONSE_def
  SSH_AGENTC_REQUEST_IDENTITIES_def SSH_AGENTC_SIGN_REQUEST_def

record agent_identity =
  ai_key_blob :: "u8 list"

definition build_request_identities :: "u8 list" where
  "build_request_identities = [SSH_AGENTC_REQUEST_IDENTITIES]"

definition build_sign_request :: "u8 list \<Rightarrow> u8 list \<Rightarrow> u8 list res" where
  "build_sign_request public_key_blob message =
     res_bind (encode_ssh_string public_key_blob) (\<lambda>k.
     res_bind (encode_ssh_string message) (\<lambda>m.
     Inr (SSH_AGENTC_SIGN_REQUEST # k @ m @ u32_to_be_bytes 0)))"

definition split_packet :: "u8 list \<Rightarrow> (u8 \<times> u8 list) res" where
  "split_packet packet = (case packet of [] \<Rightarrow> Inl (plain_error Ssh) | t # payload \<Rightarrow> Inr (t, payload))"

definition decode_u32 :: "u8 list \<Rightarrow> (nat \<times> u8 list) res" where
  "decode_u32 payload =
     (if length payload < 4 then Inl (plain_error Ssh)
      else Inr (unat (u32_from_be_bytes (payload ! 0) (payload ! 1) (payload ! 2) (payload ! 3)),
                drop 4 payload))"

definition validate_utf8_string :: "u8 list \<Rightarrow> u8 list res" where
  "validate_utf8_string payload =
     res_bind (decode_ssh_string payload) (\<lambda>(bytes, rest).
     if utf8_valid bytes then Inr rest else Inl (plain_error Ssh))"

fun parse_identity_entries :: "nat \<Rightarrow> u8 list \<Rightarrow> (agent_identity list \<times> u8 list) res" where
  "parse_identity_entries 0 payload = Inr ([], payload)"
| "parse_identity_entries (Suc n) payload =
     res_bind (decode_ssh_string payload) (\<lambda>(key_blob, rest).
     res_bind (validate_utf8_string rest) (\<lambda>rest.
     res_bind (parse_identity_entries n rest) (\<lambda>(identities, rest).
     Inr (\<lparr>ai_key_blob = key_blob\<rparr> # identities, rest))))"

definition parse_identities :: "u8 list \<Rightarrow> agent_identity list res" where
  "parse_identities payload =
     res_bind (decode_u32 payload) (\<lambda>(count, payload).
     if count > length payload div MIN_AGENT_IDENTITY_WIRE_SIZE then Inl (plain_error Ssh)
     else res_bind (parse_identity_entries count payload) (\<lambda>(identities, rest).
       if rest \<noteq> [] then Inl (plain_error Ssh) else Inr identities))"

definition parse_identities_response :: "u8 list \<Rightarrow> agent_identity list res" where
  "parse_identities_response packet =
     res_bind (split_packet packet) (\<lambda>(message_type, payload).
     if message_type = SSH_AGENT_IDENTITIES_ANSWER then parse_identities payload
     else if message_type = SSH_AGENT_FAILURE then Inl (plain_error Ssh)
     else Inl (plain_error Ssh))"

definition parse_signature :: "u8 list \<Rightarrow> u8 list res" where
  "parse_signature payload =
     res_bind (decode_ssh_string payload) (\<lambda>(signature_blob, rest).
     if rest \<noteq> [] then Inl (plain_error Ssh)
     else res_bind (decode_ssh_string signature_blob) (\<lambda>(algorithm, rest).
       if algorithm \<noteq> as_bytes KEY_TYPE_ED25519 then Inl (plain_error Ssh)
       else res_bind (decode_ssh_string rest) (\<lambda>(raw_signature, rest).
         if rest \<noteq> [] then Inl (plain_error Ssh)
         else Ed25519RawSignature_from_slice raw_signature)))"

definition parse_sign_response :: "u8 list \<Rightarrow> u8 list res" where
  "parse_sign_response packet =
     res_bind (split_packet packet) (\<lambda>(message_type, payload).
     if message_type = SSH_AGENT_SIGN_RESPONSE then parse_signature payload
     else if message_type = SSH_AGENT_FAILURE then Inl (plain_error Ssh)
     else Inl (plain_error Ssh))"

section \<open>Which keys the agent holds\<close>

definition validate_agent_has_keys :: "agent_identity list \<Rightarrow> unit res" where
  "validate_agent_has_keys identities = (if identities = [] then Inl (plain_error Ssh) else Inr ())"

definition find_key_in_agent :: "agent_identity list \<Rightarrow> u8 list \<Rightarrow> bool" where
  "find_key_in_agent identities public_key_blob =
     list_ex (\<lambda>identity. ai_key_blob identity = public_key_blob) identities"

definition validate_key_present :: "bool \<Rightarrow> unit res" where
  "validate_key_present present = (if \<not> present then Inl (plain_error Ssh) else Inr ())"

section \<open>The exchange\<close>

datatype io_failure = Interrupted | WouldBlock | TimedOut | OtherIo

text \<open>
  One system call: the clock when the socket is armed, whether setting the timeout works, and
  how many bytes the call can move or how it fails.
\<close>

record syscall =
  sy_now :: nat
  sy_arm_ok :: bool
  sy_outcome :: "io_failure + nat"

record agent_socket =
  so_incoming :: "u8 list"
  so_calls :: "syscall list"

definition arm_socket :: "syscall \<Rightarrow> nat \<Rightarrow> unit res" where
  "arm_socket call deadline =
     (if deadline - sy_now call = 0 then Inl (plain_error Ssh)
      else if sy_arm_ok call then Inr () else Inl (plain_error Ssh))"

fun save_bytes_loop :: "nat \<Rightarrow> nat \<Rightarrow> syscall list \<Rightarrow> (unit res \<times> syscall list) option" where
  "save_bytes_loop deadline 0 calls = Some (Inr (), calls)"
| "save_bytes_loop deadline remaining [] = None"
| "save_bytes_loop deadline remaining (call # calls) =
     (case arm_socket call deadline of
        Inl e \<Rightarrow> Some (Inl e, calls)
      | Inr _ \<Rightarrow> (case sy_outcome call of
          Inr 0 \<Rightarrow> Some (Inl (plain_error Ssh), calls)
        | Inr count \<Rightarrow> save_bytes_loop deadline (remaining - count) calls
        | Inl Interrupted \<Rightarrow> save_bytes_loop deadline remaining calls
        | Inl _ \<Rightarrow> Some (Inl (plain_error Ssh), calls)))"

definition save_bytes :: "u8 list \<Rightarrow> nat \<Rightarrow> syscall list \<Rightarrow> (unit res \<times> syscall list) option" where
  "save_bytes bytes deadline calls = save_bytes_loop deadline (length bytes) calls"

fun load_exact_loop ::
  "nat \<Rightarrow> nat \<Rightarrow> u8 list \<Rightarrow> u8 list \<Rightarrow> syscall list \<Rightarrow> (u8 list res \<times> agent_socket) option" where
  "load_exact_loop deadline 0 filled incoming calls =
     Some (Inr filled, \<lparr>so_incoming = incoming, so_calls = calls\<rparr>)"
| "load_exact_loop deadline remaining filled incoming [] = None"
| "load_exact_loop deadline remaining filled incoming (call # calls) =
     (case arm_socket call deadline of
        Inl e \<Rightarrow> Some (Inl e, \<lparr>so_incoming = incoming, so_calls = calls\<rparr>)
      | Inr _ \<Rightarrow> (case sy_outcome call of
          Inr available \<Rightarrow>
            (let count = min (min available remaining) (length incoming) in
             if count = 0 then Some (Inl (plain_error Ssh), \<lparr>so_incoming = incoming, so_calls = calls\<rparr>)
             else load_exact_loop deadline (remaining - count) (filled @ take count incoming)
                    (drop count incoming) calls)
        | Inl Interrupted \<Rightarrow> load_exact_loop deadline remaining filled incoming calls
        | Inl _ \<Rightarrow> Some (Inl (plain_error Ssh), \<lparr>so_incoming = incoming, so_calls = calls\<rparr>)))"

definition load_exact_bytes ::
  "nat \<Rightarrow> nat \<Rightarrow> agent_socket \<Rightarrow> (u8 list res \<times> agent_socket) option" where
  "load_exact_bytes n deadline socket =
     load_exact_loop deadline n [] (so_incoming socket) (so_calls socket)"

definition save_packet :: "u8 list \<Rightarrow> nat \<Rightarrow> agent_socket \<Rightarrow> (unit res \<times> agent_socket) option" where
  "save_packet body deadline socket =
     (if length body > U32_MAX then Some (Inl (plain_error Ssh), socket)
      else case save_bytes (u32_to_be_bytes (of_nat (length body))) deadline (so_calls socket) of
        None \<Rightarrow> None
      | Some (Inl e, calls) \<Rightarrow> Some (Inl e, socket\<lparr>so_calls := calls\<rparr>)
      | Some (Inr _, calls) \<Rightarrow> (case save_bytes body deadline calls of
          None \<Rightarrow> None
        | Some (r, calls) \<Rightarrow> Some (r, socket\<lparr>so_calls := calls\<rparr>)))"

definition load_packet :: "nat \<Rightarrow> agent_socket \<Rightarrow> (u8 list res \<times> agent_socket) option" where
  "load_packet deadline socket =
     (case load_exact_bytes 4 deadline socket of
        None \<Rightarrow> None
      | Some (Inl e, socket) \<Rightarrow> Some (Inl e, socket)
      | Some (Inr len_buf, socket) \<Rightarrow>
          (let len = unat (u32_from_be_bytes (len_buf ! 0) (len_buf ! 1) (len_buf ! 2) (len_buf ! 3)) in
           if len > MAX_AGENT_PACKET_SIZE then Some (Inl (plain_error Ssh), socket)
           else load_exact_bytes len deadline socket))"

definition request :: "u8 list res \<Rightarrow> (u8 list \<Rightarrow> 'a res) \<Rightarrow> nat \<Rightarrow> agent_socket \<Rightarrow>
  ('a res \<times> agent_socket) option" where
  "request body parse deadline socket =
     (case body of
        Inl e \<Rightarrow> Some (Inl e, socket)
      | Inr b \<Rightarrow> (case save_packet b deadline socket of
          None \<Rightarrow> None
        | Some (Inl e, socket) \<Rightarrow> Some (Inl e, socket)
        | Some (Inr _, socket) \<Rightarrow> (case load_packet deadline socket of
            None \<Rightarrow> None
          | Some (r, socket) \<Rightarrow> Some (res_bind r parse, socket))))"

definition list_identities :: "nat \<Rightarrow> agent_socket \<Rightarrow> (agent_identity list res \<times> agent_socket) option" where
  "list_identities deadline socket =
     request (Inr build_request_identities) parse_identities_response deadline socket"

definition client_sign ::
  "u8 list \<Rightarrow> u8 list \<Rightarrow> nat \<Rightarrow> agent_socket \<Rightarrow> (u8 list res \<times> agent_socket) option" where
  "client_sign public_key_blob message deadline socket =
     request (build_sign_request public_key_blob message) parse_sign_response deadline socket"

definition validate_target_key ::
  "u8 list \<Rightarrow> nat \<Rightarrow> agent_socket \<Rightarrow> (unit res \<times> agent_socket) option" where
  "validate_target_key public_key_blob deadline socket =
     (case list_identities deadline socket of
        None \<Rightarrow> None
      | Some (r, socket) \<Rightarrow> Some (res_bind r (\<lambda>identities.
          res_bind (validate_agent_has_keys identities) (\<lambda>_.
          validate_key_present (find_key_in_agent identities public_key_blob))), socket))"

text \<open>Each request has a deadline of its own: \<open>d1\<close> for the identities and \<open>d2\<close> for the signature.\<close>

definition agent_sign ::
  "string \<Rightarrow> u8 list \<Rightarrow> nat \<Rightarrow> nat \<Rightarrow> agent_socket res \<Rightarrow> u8 list res option" where
  "agent_sign ssh_pubkey message d1 d2 connected =
     (case decode_ssh_public_key_blob ssh_pubkey of
        Inl e \<Rightarrow> Some (Inl e)
      | Inr blob \<Rightarrow> (case connected of
          Inl e \<Rightarrow> Some (Inl e)
        | Inr socket \<Rightarrow> (case validate_target_key blob d1 socket of
            None \<Rightarrow> None
          | Some (Inl e, _) \<Rightarrow> Some (Inl e)
          | Some (Inr _, socket) \<Rightarrow> map_option fst (client_sign blob message d2 socket))))"

section \<open>What the packet parsers accept\<close>

definition put_u32 :: "nat \<Rightarrow> u8 list res" where
  "put_u32 n = (if n > U32_MAX then Inl (plain_error Ssh) else Inr (u32_to_be_bytes (of_nat n)))"

lemma unat_u32: "n \<le> U32_MAX \<Longrightarrow> unat (of_nat n :: 32 word) = n"
  by (simp add: U32_MAX_def unsigned_of_nat take_bit_nat_eq_self)

lemma u32_of_unat: "unat (w :: 32 word) \<le> U32_MAX"
  using unsigned_less [of w, where ?'a = nat] by (simp add: U32_MAX_def)

lemma decode_u32_Cons:
  "decode_u32 (a # b # c # d # t) = Inr (unat (u32_from_be_bytes a b c d), t)"
  by (simp add: decode_u32_def)

lemma long_cases:
  assumes "4 \<le> length s"
  obtains a b c d t where "s = a # b # c # d # t"
  using assms by (cases s; cases "tl s"; cases "tl (tl s)"; cases "tl (tl (tl s))") auto

interpretation u32_count: stream_codec put_u32 decode_u32
proof
  fix n bs rest
  assume "put_u32 n = Inr bs"
  then have n: "n \<le> U32_MAX" and bs: "bs = u32_to_be_bytes (of_nat n)"
    by (auto simp: put_u32_def split: if_splits)
  show "decode_u32 (bs @ rest) = Inr (n, rest)"
    unfolding bs u32_to_be_bytes_def append_Cons append_Nil decode_u32_Cons u32_from_to unat_u32 [OF n] ..
next
  fix s n rest
  assume dec: "decode_u32 s = Inr (n, rest)"
  then have "4 \<le> length s" by (auto simp: decode_u32_def split: if_splits)
  then obtain a b c d t where s: "s = a # b # c # d # t" by (rule long_cases)
  with dec have "n = unat (u32_from_be_bytes a b c d)" "rest = t" by (simp_all add: decode_u32_Cons)
  then have "put_u32 n = Inr [a, b, c, d] \<and> s = [a, b, c, d] @ rest"
    using u32_of_unat [of "u32_from_be_bytes a b c d"] by (simp add: put_u32_def u32_to_from s)
  then show "\<exists>bs. put_u32 n = Inr bs \<and> s = bs @ rest" by blast
qed

definition identity_bytes :: "u8 list \<times> u8 list \<Rightarrow> u8 list" where
  "identity_bytes entry = framed_ssh (fst entry) @ framed_ssh (snd entry)"

definition identity_ok :: "u8 list \<times> u8 list \<Rightarrow> bool" where
  "identity_ok entry \<longleftrightarrow>
     length (fst entry) \<le> U32_MAX \<and> length (snd entry) \<le> U32_MAX \<and> utf8_valid (snd entry)"

lemma parse_identity_entries_iff:
  "parse_identity_entries n payload = Inr (ids, rest) \<longleftrightarrow>
     (\<exists>entries. length entries = n \<and> list_all identity_ok entries \<and>
        ids = map (\<lambda>e. \<lparr>ai_key_blob = fst e\<rparr>) entries \<and>
        payload = concat (map identity_bytes entries) @ rest)"
proof (induction n arbitrary: payload ids)
  case (Suc n)
  have step: "parse_identity_entries (Suc n) payload = Inr (ids, rest) \<longleftrightarrow>
      (\<exists>k m ids' r. identity_ok (k, m) \<and> ids = \<lparr>ai_key_blob = k\<rparr> # ids' \<and>
         payload = framed_ssh k @ framed_ssh m @ r \<and> parse_identity_entries n r = Inr (ids', rest))"
    by (auto simp: validate_utf8_string_def decode_framed_iff identity_ok_def split: if_splits)
  have Suc_ex: "(\<exists>entries. length entries = Suc n \<and> P entries) \<longleftrightarrow>
      (\<exists>k m es. length es = n \<and> P ((k, m) # es))" for P :: "(u8 list \<times> u8 list) list \<Rightarrow> bool"
    by (auto simp: length_Suc_conv)
  show ?case
    unfolding step Suc.IH Suc_ex by (simp add: identity_bytes_def) blast
qed auto

lemma identity_bytes_length: "8 \<le> length (identity_bytes e)"
  by (simp add: identity_bytes_def framed_ssh_def)

lemma entries_length: "8 * length entries \<le> length (concat (map identity_bytes entries))"
proof (induction entries)
  case (Cons e es)
  then show ?case using identity_bytes_length [of e] by simp
qed simp

text \<open>
  C28. An agent's answer to the identities request is accepted exactly when it is the answer code,
  a count, and that many pairs of a key and a UTF-8 comment, with nothing behind them; the keys
  returned are those of the pairs in their order. The capacity test in front of the loop therefore
  refuses no well-formed answer, and a count the payload cannot hold is refused before anything
  is read.
\<close>

theorem parse_identities_response_iff:
  "parse_identities_response packet = Inr ids \<longleftrightarrow>
     (\<exists>entries. length entries \<le> U32_MAX \<and> list_all identity_ok entries \<and>
        ids = map (\<lambda>e. \<lparr>ai_key_blob = fst e\<rparr>) entries \<and>
        packet = SSH_AGENT_IDENTITIES_ANSWER # u32_to_be_bytes (of_nat (length entries)) @
          concat (map identity_bytes entries))"
proof
  assume "parse_identities_response packet = Inr ids"
  then obtain t payload n p where "packet = SSH_AGENT_IDENTITIES_ANSWER # payload"
    and n: "decode_u32 payload = Inr (n, p)" and e: "parse_identity_entries n p = Inr (ids, [])"
    by (auto simp: parse_identities_response_def split_packet_def parse_identities_def
        split: list.splits if_splits)
  moreover from n have "n \<le> U32_MAX" "payload = u32_to_be_bytes (of_nat n) @ p"
    by (auto simp: u32_count.get_iff put_u32_def split: if_splits)
  moreover from e obtain entries where "length entries = n" "list_all identity_ok entries"
    "ids = map (\<lambda>e. \<lparr>ai_key_blob = fst e\<rparr>) entries" "p = concat (map identity_bytes entries)"
    by (auto simp: parse_identity_entries_iff)
  ultimately show "\<exists>entries. length entries \<le> U32_MAX \<and> list_all identity_ok entries \<and>
      ids = map (\<lambda>e. \<lparr>ai_key_blob = fst e\<rparr>) entries \<and>
      packet = SSH_AGENT_IDENTITIES_ANSWER # u32_to_be_bytes (of_nat (length entries)) @
        concat (map identity_bytes entries)" by auto
next
  assume "\<exists>entries. length entries \<le> U32_MAX \<and> list_all identity_ok entries \<and>
      ids = map (\<lambda>e. \<lparr>ai_key_blob = fst e\<rparr>) entries \<and>
      packet = SSH_AGENT_IDENTITIES_ANSWER # u32_to_be_bytes (of_nat (length entries)) @
        concat (map identity_bytes entries)"
  then obtain entries where len: "length entries \<le> U32_MAX" and ok: "list_all identity_ok entries"
    and ids: "ids = map (\<lambda>e. \<lparr>ai_key_blob = fst e\<rparr>) entries"
    and packet: "packet = SSH_AGENT_IDENTITIES_ANSWER # u32_to_be_bytes (of_nat (length entries)) @
      concat (map identity_bytes entries)" by blast
  let ?p = "concat (map identity_bytes entries)"
  have "decode_u32 (u32_to_be_bytes (of_nat (length entries)) @ ?p) = Inr (length entries, ?p)"
    using len by (intro u32_count.get_put) (simp add: put_u32_def)
  moreover have "\<not> length entries > length ?p div MIN_AGENT_IDENTITY_WIRE_SIZE"
    using entries_length [of entries] by (simp add: MIN_AGENT_IDENTITY_WIRE_SIZE_def)
  moreover have "parse_identity_entries (length entries) ?p = Inr (ids, [])"
    using ok ids by (auto simp: parse_identity_entries_iff)
  ultimately show "parse_identities_response packet = Inr ids"
    by (simp add: packet parse_identities_response_def split_packet_def parse_identities_def)
qed

text \<open>
  C29. The agent path and the SSHSIG path read signatures alike: the signature taken from an
  agent's answer is exactly what the signature-blob decoder returns for the blob the answer frames,
  and the answer is accepted only as the answer code and that one blob. Either way 64 bytes
  framed under the algorithm \<open>ssh-ed25519\<close>.
\<close>

theorem agent_signature_equals_blob_signature:
  "(parse_sign_response packet = Inr signature \<longleftrightarrow>
      (\<exists>blob. length blob \<le> U32_MAX \<and> packet = SSH_AGENT_SIGN_RESPONSE # framed_ssh blob \<and>
         extract_ed25519_raw blob = Inr signature)) \<and>
   (extract_ed25519_raw blob' = Inr signature \<longleftrightarrow>
      length signature = 64 \<and> blob' = ed25519_blob signature)"
proof -
  have "parse_signature payload = res_bind (decode_ssh_string payload) (\<lambda>(blob, rest).
      if rest \<noteq> [] then Inl (plain_error Ssh) else extract_ed25519_raw blob)" for payload
    unfolding parse_signature_def extract_ed25519_raw_def decode_ed25519_wire_signature_def
      Ed25519RawSignature_from_slice_def ED25519_SIGNATURE_LENGTH_def by (rule refl)
  then have "parse_signature payload = Inr signature \<longleftrightarrow>
      (\<exists>blob. length blob \<le> U32_MAX \<and> payload = framed_ssh blob \<and>
         extract_ed25519_raw blob = Inr signature)" for payload
    by (auto simp: decode_framed_iff split: if_splits)
  moreover have "parse_sign_response packet = Inr signature \<longleftrightarrow>
      (\<exists>payload. packet = SSH_AGENT_SIGN_RESPONSE # payload \<and> parse_signature payload = Inr signature)"
    by (cases packet) (auto simp: parse_sign_response_def split_packet_def split: if_splits)
  ultimately show ?thesis by (auto simp: extract_ed25519_raw_iff)
qed

section \<open>What the exchange guarantees\<close>

lemma load_exact_loop_Inr:
  "load_exact_loop deadline n filled incoming calls = Some (Inr bytes, socket) \<Longrightarrow>
     n \<le> length incoming \<and> bytes = filled @ take n incoming \<and> so_incoming socket = drop n incoming"
proof (induction deadline n filled incoming calls rule: load_exact_loop.induct)
  case (3 deadline m filled incoming call calls)
  let ?n = "Suc m"
  show ?case
  proof (cases "sy_outcome call")
    case (Inl f)
    with 3 show ?thesis
      by (cases f) (auto split: sum.splits)
  next
    case (Inr available)
    let ?count = "min (min available ?n) (length incoming)"
    from "3.prems" Inr have count: "?count \<noteq> 0" and arm: "\<exists>u. arm_socket call deadline = Inr u"
      and rest: "load_exact_loop deadline (?n - ?count) (filled @ take ?count incoming)
        (drop ?count incoming) calls = Some (Inr bytes, socket)"
      by (auto simp: Let_def split: sum.splits if_splits)
    from arm obtain u where u: "arm_socket call deadline = Inr u" ..
    have IH: "?n - ?count \<le> length (drop ?count incoming) \<and>
        bytes = (filled @ take ?count incoming) @ take (?n - ?count) (drop ?count incoming) \<and>
        so_incoming socket = drop (?n - ?count) (drop ?count incoming)"
      using "3.IH"(2) [OF u Inr refl count rest] .
    have le: "?count \<le> ?n" "?count \<le> length incoming" by simp_all
    have "take ?count incoming @ take (?n - ?count) (drop ?count incoming) = take ?n incoming"
      using take_add [of ?count "?n - ?count" incoming] le(1) by simp
    moreover have "drop (?n - ?count) (drop ?count incoming) = drop ?n incoming"
      using le(1) by simp
    moreover have "?n \<le> length incoming"
    proof -
      have "?n - ?count \<le> length incoming - ?count" using IH by (simp only: length_drop)
      with le show ?thesis by linarith
    qed
    ultimately show ?thesis using IH by simp
  qed
qed auto

lemma armed_before: "arm_socket call deadline = Inr u \<Longrightarrow> sy_now call < deadline"
  by (auto simp: arm_socket_def split: if_splits)

lemma load_exact_loop_None:
  "load_exact_loop deadline n filled incoming calls = None \<Longrightarrow>
     \<forall>call\<in>set calls. sy_now call < deadline"
  by (induction deadline n filled incoming calls rule: load_exact_loop.induct)
     (auto simp: Let_def split: sum.splits io_failure.splits if_splits dest: armed_before)

lemma load_exact_loop_calls:
  "load_exact_loop deadline n filled incoming calls = Some (r, socket) \<Longrightarrow>
     \<exists>used. calls = used @ so_calls socket"
proof (induction deadline n filled incoming calls rule: load_exact_loop.induct)
  case (3 deadline m filled incoming call calls)
  then have "so_calls socket = calls \<or> (\<exists>d. calls = d @ so_calls socket)"
    by (auto simp: Let_def split: sum.splits io_failure.splits if_splits)
  then show ?case
  proof
    assume "\<exists>d. calls = d @ so_calls socket"
    then obtain d where "call # calls = (call # d) @ so_calls socket" by auto
    then show ?thesis by blast
  qed auto
qed auto

text \<open>
  However the agent cuts its answer into pieces, the packet the client returns is the answer's
  own framing: when \<open>load_packet\<close> returns a body, the bytes the agent sent start with the body's
  length in big-endian and the body, the rest is still unread, and the body is at most one
  mebibyte, so an agent cannot make the client allocate more.
\<close>

theorem load_packet_returns_frame:
  assumes "load_packet deadline socket = Some (Inr body, socket')"
  shows "so_incoming socket = u32_to_be_bytes (of_nat (length body)) @ body @ so_incoming socket' \<and>
    length body \<le> MAX_AGENT_PACKET_SIZE"
proof -
  from assms obtain len_buf s1 where
    1: "load_exact_bytes 4 deadline socket = Some (Inr len_buf, s1)"
    and size: "\<not> MAX_AGENT_PACKET_SIZE < unat (u32_from_be_bytes (len_buf ! 0) (len_buf ! 1) (len_buf ! 2) (len_buf ! 3))"
    and 2: "load_exact_bytes (unat (u32_from_be_bytes (len_buf ! 0) (len_buf ! 1) (len_buf ! 2) (len_buf ! 3)))
      deadline s1 = Some (Inr body, socket')"
    by (auto simp: load_packet_def Let_def split: option.splits sum.splits if_splits)
  from 1 have buf: "4 \<le> length (so_incoming socket)" "len_buf = take 4 (so_incoming socket)"
    "so_incoming s1 = drop 4 (so_incoming socket)"
    by (auto simp: load_exact_bytes_def dest!: load_exact_loop_Inr)
  obtain a b c d t where s: "so_incoming socket = a # b # c # d # t"
    using buf(1) by (rule long_cases)
  let ?w = "u32_from_be_bytes a b c d"
  have len: "unat (u32_from_be_bytes (len_buf ! 0) (len_buf ! 1) (len_buf ! 2) (len_buf ! 3)) = unat ?w"
    by (simp add: buf(2) s)
  have "unat ?w \<le> length t" "body = take (unat ?w) t" "so_incoming socket' = drop (unat ?w) t"
    using 2 unfolding len load_exact_bytes_def by (auto simp: buf(3) s dest!: load_exact_loop_Inr)
  moreover from this have "of_nat (length body) = ?w" by simp
  ultimately show ?thesis using size unfolding len by (simp add: s u32_to_from)
qed

lemma save_bytes_loop_None:
  "save_bytes_loop deadline n calls = None \<Longrightarrow> \<forall>call\<in>set calls. sy_now call < deadline"
  by (induction deadline n calls rule: save_bytes_loop.induct)
     (auto split: sum.splits io_failure.splits nat.splits dest: armed_before)

lemma save_bytes_loop_calls:
  "save_bytes_loop deadline n calls = Some (r, calls') \<Longrightarrow>
     \<exists>used. calls = used @ calls' \<and> (r = Inr () \<longrightarrow> (\<forall>call\<in>set used. sy_now call < deadline))"
proof (induction deadline n calls rule: save_bytes_loop.induct)
  case (3 deadline m call calls)
  show ?case
  proof (cases "arm_socket call deadline")
    case (Inl e)
    with "3.prems" show ?thesis by (auto intro!: exI [of _ "[call]"])
  next
    case (Inr u)
    then have before: "sy_now call < deadline" by (rule armed_before)
    have "(r \<noteq> Inr () \<and> calls' = calls) \<or>
        (\<exists>d. calls = d @ calls' \<and> (r = Inr () \<longrightarrow> (\<forall>call\<in>set d. sy_now call < deadline)))"
      using 3 Inr by (auto split: sum.splits io_failure.splits nat.splits)
    then show ?thesis
    proof
      assume "r \<noteq> Inr () \<and> calls' = calls"
      then show ?thesis by (intro exI [of _ "[call]"]) simp
    next
      assume "\<exists>d. calls = d @ calls' \<and> (r = Inr () \<longrightarrow> (\<forall>call\<in>set d. sy_now call < deadline))"
      then obtain d where "calls = d @ calls'" "r = Inr () \<longrightarrow> (\<forall>call\<in>set d. sy_now call < deadline)"
        by blast
      then show ?thesis using before by (intro exI [of _ "call # d"]) simp
    qed
  qed
qed auto

lemma load_exact_loop_before:
  "load_exact_loop deadline n filled incoming calls = Some (Inr bytes, socket) \<Longrightarrow>
     \<exists>used. calls = used @ so_calls socket \<and> (\<forall>call\<in>set used. sy_now call < deadline)"
proof (induction deadline n filled incoming calls rule: load_exact_loop.induct)
  case (3 deadline m filled incoming call calls)
  then obtain u where u: "arm_socket call deadline = Inr u" by (auto split: sum.splits)
  then have before: "sy_now call < deadline" by (rule armed_before)
  from 3 u have "\<exists>d. calls = d @ so_calls socket \<and> (\<forall>call\<in>set d. sy_now call < deadline)"
    by (auto simp: Let_def split: sum.splits io_failure.splits if_splits)
  then obtain d where "calls = d @ so_calls socket" "\<forall>call\<in>set d. sy_now call < deadline" by blast
  then show ?case using before by (intro exI [of _ "call # d"]) simp
qed auto

lemma save_packet_None:
  assumes "save_packet body deadline socket = None"
  shows "\<forall>call\<in>set (so_calls socket). sy_now call < deadline"
proof (cases "save_bytes (u32_to_be_bytes (of_nat (length body))) deadline (so_calls socket)")
  case None
  then show ?thesis unfolding save_bytes_def by (rule save_bytes_loop_None)
next
  case (Some p)
  with assms obtain calls where p: "p = (Inr (), calls)" and rest: "save_bytes body deadline calls = None"
    by (cases p; cases "fst p") (auto simp: save_packet_def split: if_splits option.splits)
  from rest have "\<forall>call\<in>set calls. sy_now call < deadline"
    unfolding save_bytes_def by (rule save_bytes_loop_None)
  moreover from Some p obtain used where "so_calls socket = used @ calls"
    "\<forall>call\<in>set used. sy_now call < deadline"
    unfolding save_bytes_def by (auto dest!: save_bytes_loop_calls)
  ultimately show ?thesis by auto
qed

lemma save_packet_before:
  assumes "save_packet body deadline socket = Some (Inr (), s1)"
  shows "so_incoming s1 = so_incoming socket \<and> (\<exists>used. so_calls socket = used @ so_calls s1 \<and>
    (\<forall>call\<in>set used. sy_now call < deadline))"
proof -
  from assms obtain calls calls' where
    1: "save_bytes_loop deadline 4 (so_calls socket) = Some (Inr (), calls)"
    and 2: "save_bytes_loop deadline (length body) calls = Some (Inr (), calls')"
    and s1: "s1 = socket\<lparr>so_calls := calls'\<rparr>"
    by (auto simp: save_packet_def save_bytes_def split: if_splits option.splits sum.splits)
  obtain d1 d2 where "so_calls socket = d1 @ calls" "\<forall>call\<in>set d1. sy_now call < deadline"
    "calls = d2 @ calls'" "\<forall>call\<in>set d2. sy_now call < deadline"
    using save_bytes_loop_calls [OF 1] save_bytes_loop_calls [OF 2] by auto
  then show ?thesis by (auto simp: s1 intro!: exI [of _ "d1 @ d2"])
qed

lemma load_packet_None:
  assumes "load_packet deadline socket = None"
  shows "\<forall>call\<in>set (so_calls socket). sy_now call < deadline"
proof (cases "load_exact_bytes 4 deadline socket")
  case None
  then show ?thesis unfolding load_exact_bytes_def by (rule load_exact_loop_None)
next
  case (Some p)
  with assms obtain len_buf s1 n where p: "p = (Inr len_buf, s1)"
    and rest: "load_exact_bytes n deadline s1 = None"
    by (cases p; cases "fst p") (auto simp: load_packet_def Let_def split: if_splits)
  from rest have "\<forall>call\<in>set (so_calls s1). sy_now call < deadline"
    unfolding load_exact_bytes_def by (rule load_exact_loop_None)
  moreover obtain used where "so_calls socket = used @ so_calls s1" "\<forall>call\<in>set used. sy_now call < deadline"
    using Some p load_exact_loop_before unfolding load_exact_bytes_def by blast
  ultimately show ?thesis by auto
qed

lemma request_ends:
  assumes "call \<in> set (so_calls socket)" and "deadline \<le> sy_now call"
  shows "request body parse deadline socket \<noteq> None"
proof
  assume none: "request body parse deadline socket = None"
  then obtain b where b: "body = Inr b" by (cases body) (auto simp: request_def)
  show False
  proof (cases "save_packet b deadline socket")
    case None
    then show False using assms save_packet_None [OF None] by auto
  next
    case (Some p)
    with none b obtain s1 where p: "p = (Inr (), s1)" and load: "load_packet deadline s1 = None"
      by (cases p; cases "fst p") (auto simp: request_def split: option.splits)
    from save_packet_before [of b deadline socket s1] Some p
    obtain d where d: "so_calls socket = d @ so_calls s1" "\<forall>call\<in>set d. sy_now call < deadline" by auto
    have "\<forall>call\<in>set (so_calls socket). sy_now call < deadline"
      using load_packet_None [OF load] d by auto
    with assms show False by auto
  qed
qed

text \<open>
  C27. A request to the agent ends by its deadline: as soon as one of the system calls it makes is
  armed at or after the deadline, the request has returned, however the agent answers, one byte
  at a time or not at all. Both requests of a signature have this bound, so an agent that stalls
  cannot hold the command open.
\<close>

theorem agent_request_ends_by_deadline:
  assumes "call \<in> set (so_calls socket)" and "deadline \<le> sy_now call"
  shows "list_identities deadline socket \<noteq> None \<and> client_sign blob message deadline socket \<noteq> None"
  unfolding list_identities_def client_sign_def by (intro conjI request_ends [OF assms])

lemma agent_request_ends_by_deadline_witness:
  "client_sign [1] [2] 5 \<lparr>so_incoming = [], so_calls = [\<lparr>sy_now = 7, sy_arm_ok = True, sy_outcome = Inr 1\<rparr>]\<rparr>
     \<noteq> None"
  using agent_request_ends_by_deadline
    [of "\<lparr>sy_now = 7, sy_arm_ok = True, sy_outcome = Inr 1\<rparr>"
      "\<lparr>so_incoming = [], so_calls = [\<lparr>sy_now = 7, sy_arm_ok = True, sy_outcome = Inr 1\<rparr>]\<rparr>" 5 "[1]" "[2]"]
  by simp

definition patient_call :: syscall where
  "patient_call = \<lparr>sy_now = 0, sy_arm_ok = True, sy_outcome = Inr 3\<rparr>"

lemma patient_load:
  "load_packet 9 \<lparr>so_incoming = [0, 0, 0, 2, 7, 8, 9], so_calls = replicate 3 patient_call\<rparr> =
     Some (Inr [7, 8], \<lparr>so_incoming = [9], so_calls = []\<rparr>)"
proof -
  have call: "arm_socket patient_call (Suc d) = Inr ()" "sy_outcome patient_call = Inr (Suc (Suc (Suc 0)))" for d
    by (simp_all add: patient_call_def arm_socket_def)
  have len: "unat (u32_from_be_bytes 0 0 0 2) = 2"
    by (simp add: u32_from_be_bytes_def)
  have 1: "load_exact_bytes 4 9 \<lparr>so_incoming = [0, 0, 0, 2, 7, 8, 9], so_calls = replicate 3 patient_call\<rparr> =
      Some (Inr [0, 0, 0, 2], \<lparr>so_incoming = [7, 8, 9], so_calls = [patient_call]\<rparr>)"
    by (simp add: load_exact_bytes_def numeral_eq_Suc call Let_def)
  have 2: "load_exact_bytes 2 9 \<lparr>so_incoming = [7, 8, 9], so_calls = [patient_call]\<rparr> =
      Some (Inr [7, 8], \<lparr>so_incoming = [9], so_calls = []\<rparr>)"
    by (simp add: load_exact_bytes_def numeral_eq_Suc call Let_def)
  show ?thesis by (simp add: load_packet_def 1 2 len MAX_AGENT_PACKET_SIZE_def)
qed

lemma load_packet_returns_frame_witness:
  "length ([7, 8] :: u8 list) \<le> MAX_AGENT_PACKET_SIZE \<and>
   ([0, 0, 0, 2, 7, 8, 9] :: u8 list) = u32_to_be_bytes 2 @ [7, 8] @ [9]"
  using load_packet_returns_frame [OF patient_load] by simp

section \<open>IdentityAgent in an OpenSSH configuration\<close>

datatype host_scope = Global | HostStar | OtherHost

definition from_host_patterns :: "string \<Rightarrow> host_scope" where
  "from_host_patterns patterns =
     (if list_ex (\<lambda>pattern. pattern = ''*'') (split_whitespace patterns) then HostStar else OtherHost)"

fun config_line_scan :: "bool \<Rightarrow> bool \<Rightarrow> string \<Rightarrow> string" where
  "config_line_scan in_single in_double [] = []"
| "config_line_scan in_single in_double (c # s) =
     (if c = CHR ''#'' \<and> \<not> in_single \<and> \<not> in_double then []
      else if c = SQUOTE \<and> \<not> in_double then c # config_line_scan (\<not> in_single) in_double s
      else if c = DQUOTE \<and> \<not> in_single then c # config_line_scan in_single (\<not> in_double) s
      else c # config_line_scan in_single in_double s)"

definition extract_config_line_before_comment :: "string \<Rightarrow> string" where
  "extract_config_line_before_comment line = config_line_scan False False line"

definition parse_quoted_value :: "string \<Rightarrow> string" where
  "parse_quoted_value value =
     (let trimmed = str_trim value in
      if (starts_with [DQUOTE] trimmed \<and> ends_with [DQUOTE] trimmed) \<or>
         (starts_with [SQUOTE] trimmed \<and> ends_with [SQUOTE] trimmed)
      then (if 2 \<le> length trimmed then butlast (tl trimmed) else trimmed)
      else trimmed)"

fun keyword_end :: "string \<Rightarrow> nat" where
  "keyword_end [] = 0"
| "keyword_end (c # s) = (if ws_len (c # s) > 0 \<or> c = CHR ''='' then 0 else Suc (keyword_end s))"

definition split_config_keyword :: "string \<Rightarrow> string \<times> string" where
  "split_config_keyword line =
     (let keyword = take (keyword_end line) line; rest = trim_start (drop (keyword_end line) line) in
      (keyword, str_trim (case strip_prefix ''='' rest of None \<Rightarrow> rest | Some r \<Rightarrow> r)))"

record agent_scan =
  as_scope :: host_scope
  as_global :: "string option"
  as_host_star :: "string option"

definition scan_config_line :: "agent_scan \<Rightarrow> string \<Rightarrow> agent_scan" where
  "scan_config_line st raw =
     (let line = str_trim (extract_config_line_before_comment raw) in
      if line = [] then st
      else case split_config_keyword line of (keyword, value) \<Rightarrow>
        if eq_ignore_ascii_case keyword ''host'' then st\<lparr>as_scope := from_host_patterns value\<rparr>
        else if eq_ignore_ascii_case keyword ''match'' then st\<lparr>as_scope := OtherHost\<rparr>
        else if \<not> eq_ignore_ascii_case keyword ''identityagent'' then st
        else (case as_scope st of
            HostStar \<Rightarrow> st\<lparr>as_host_star := Some (parse_quoted_value value)\<rparr>
          | Global \<Rightarrow> if as_global st = None then st\<lparr>as_global := Some (parse_quoted_value value)\<rparr> else st
          | OtherHost \<Rightarrow> st))"

definition extract_identity_agent_values :: "string \<Rightarrow> string option \<times> string option" where
  "extract_identity_agent_values content =
     (let st = foldl scan_config_line \<lparr>as_scope = Global, as_global = None, as_host_star = None\<rparr>
                 (str_lines content)
      in (as_global st, as_host_star st))"

text \<open>\<open>expand\<close> is \<open>shellexpand::full_with_context\<close> over the home directory and the given variables.\<close>

definition resolve_identity_agent_path ::
  "(string \<Rightarrow> string \<Rightarrow> string option) \<Rightarrow> string \<Rightarrow> string \<Rightarrow> string option res" where
  "resolve_identity_agent_path expand val home =
     (if eq_ignore_ascii_case val ''none'' then Inr None
      else if \<not> utf8_valid (as_bytes home) then Inl (plain_error Config)
      else res_map Some (ok_or (plain_error Config) (expand home val)))"

definition parse_identity_agent ::
  "(string \<Rightarrow> string \<Rightarrow> string option) \<Rightarrow> string \<Rightarrow> string \<Rightarrow> string option res" where
  "parse_identity_agent expand content home =
     (case extract_identity_agent_values content of (global, host_star) \<Rightarrow>
        (case (case host_star of Some v \<Rightarrow> Some v | None \<Rightarrow> global) of
           Some val \<Rightarrow> resolve_identity_agent_path expand val home
         | None \<Rightarrow> Inr None))"

text \<open>The configuration file as found on disk: absent, unreadable or its text.\<close>

definition find_identity_agent ::
  "(string \<Rightarrow> string \<Rightarrow> string option) \<Rightarrow> string res option \<Rightarrow> string \<Rightarrow> string option res" where
  "find_identity_agent expand file home =
     (case file of
        None \<Rightarrow> Inr None
      | Some loaded \<Rightarrow> res_bind (map_err (\<lambda>_. plain_error Io) loaded) (\<lambda>content.
          parse_identity_agent expand content home))"

definition resolve_agent_socket_path ::
  "(string \<Rightarrow> string \<Rightarrow> string option) \<Rightarrow> (string \<times> string res option) option \<Rightarrow> string option \<Rightarrow>
   string option res" where
  "resolve_agent_socket_path expand home ssh_auth_sock =
     (case home of
        None \<Rightarrow> Inr ssh_auth_sock
      | Some (h, file) \<Rightarrow> res_bind (find_identity_agent expand file h) (\<lambda>found.
          case found of Some path \<Rightarrow> Inr (Some path) | None \<Rightarrow> Inr ssh_auth_sock))"

text \<open>
  The \<open>IdentityAgent\<close> directives of a file with the scope each stands in, and how the two results
  are read off them.
\<close>

definition line_scope :: "host_scope \<Rightarrow> string \<Rightarrow> host_scope" where
  "line_scope sc raw = as_scope (scan_config_line \<lparr>as_scope = sc, as_global = None, as_host_star = None\<rparr> raw)"

definition line_agent :: "string \<Rightarrow> string option" where
  "line_agent raw =
     (let line = str_trim (extract_config_line_before_comment raw); (keyword, value) = split_config_keyword line in
      if line \<noteq> [] \<and> eq_ignore_ascii_case keyword ''identityagent'' then Some (parse_quoted_value value) else None)"

fun agent_directives :: "host_scope \<Rightarrow> string list \<Rightarrow> (host_scope \<times> string) list" where
  "agent_directives sc [] = []"
| "agent_directives sc (l # ls) =
     (case line_agent l of None \<Rightarrow> [] | Some v \<Rightarrow> [(sc, v)]) @ agent_directives (line_scope sc l) ls"

definition in_scope :: "host_scope \<Rightarrow> (host_scope \<times> string) list \<Rightarrow> string list" where
  "in_scope sc ds = map snd (filter (\<lambda>d. fst d = sc) ds)"

definition first_of :: "'a list \<Rightarrow> 'a option" where
  "first_of xs = (case xs of [] \<Rightarrow> None | x # _ \<Rightarrow> Some x)"

lemma first_of_simps [simp]: "first_of [] = None" "first_of (x # xs) = Some x"
  by (simp_all add: first_of_def)

lemma in_scope_simps [simp]:
  "in_scope sc [] = []"
  "in_scope sc ((sc', v) # ds) = (if sc' = sc then v # in_scope sc ds else in_scope sc ds)"
  by (simp_all add: in_scope_def)

lemma keywords_apart:
  "eq_ignore_ascii_case k ''host'' \<Longrightarrow> \<not> eq_ignore_ascii_case k ''identityagent''"
  "eq_ignore_ascii_case k ''match'' \<Longrightarrow> \<not> eq_ignore_ascii_case k ''identityagent''"
  by (auto simp: eq_ignore_ascii_case_def to_ascii_uppercase_def code_in_def)

lemma scan_config_line_eq:
  "scan_config_line st l =
     \<lparr>as_scope = line_scope (as_scope st) l,
      as_global = (case as_global st of Some v \<Rightarrow> Some v
        | None \<Rightarrow> if as_scope st = Global then line_agent l else None),
      as_host_star = (case (if as_scope st = HostStar then line_agent l else None) of
          Some v \<Rightarrow> Some v | None \<Rightarrow> as_host_star st)\<rparr>"
  using keywords_apart
  by (cases st; cases "as_scope st"; cases "as_global st")
     (auto simp: scan_config_line_def line_scope_def line_agent_def Let_def split: prod.splits if_splits)

lemma scan_config_fold:
  "(let st' = foldl scan_config_line st ls in (as_global st', as_host_star st')) =
     (case as_global st of Some v \<Rightarrow> Some v
        | None \<Rightarrow> first_of (in_scope Global (agent_directives (as_scope st) ls)),
      case first_of (rev (in_scope HostStar (agent_directives (as_scope st) ls))) of
        Some v \<Rightarrow> Some v | None \<Rightarrow> as_host_star st)"
proof (induction ls arbitrary: st)
  case Nil
  then show ?case by (simp add: Let_def split: option.split)
next
  case (Cons l ls)
  have first_app: "first_of (xs @ [x]) = (case first_of xs of Some y \<Rightarrow> Some y | None \<Rightarrow> Some x)"
    for xs :: "string list" and x by (cases xs) (simp_all add: first_of_def)
  show ?case
    using Cons.IH [of "scan_config_line st l"]
    by (cases "as_scope st"; cases "line_agent l"; cases "as_global st")
       (simp_all add: scan_config_line_eq [of st l] Let_def first_app split: option.splits)
qed

text \<open>
  Which agent a configuration selects: the last \<open>IdentityAgent\<close> inside a block whose patterns
  include a lone \<open>*\<close>, otherwise the first one outside every block, and the value \<open>none\<close> in either
  place means no agent; a directive in a block for particular hosts or in a \<open>Match\<close> block is never
  used, whatever its value.
\<close>

theorem identity_agent_selection:
  "parse_identity_agent expand content home =
     (let ds = agent_directives Global (str_lines content) in
      case rev (in_scope HostStar ds) of
        v # _ \<Rightarrow> resolve_identity_agent_path expand v home
      | [] \<Rightarrow> (case in_scope Global ds of
          v # _ \<Rightarrow> resolve_identity_agent_path expand v home
        | [] \<Rightarrow> Inr None))"
  using scan_config_fold [of "\<lparr>as_scope = Global, as_global = None, as_host_star = None\<rparr>" "str_lines content"]
  by (auto simp: parse_identity_agent_def extract_identity_agent_values_def Let_def first_of_def
      split: list.splits option.splits)

end
