(* ===== verification/Public_Keys.thy ===== *)
theory Public_Keys
  imports Ssh_Wire Key_Context Artifact_Signature
begin

text \<open>
  The life of a public key document: its construction (\<open>feature/key/material.rs\<close>,
  \<open>feature/key/public_key_document.rs\<close>, \<open>feature/key/generate.rs\<close>) with its key id, SSH attestation
  and self-signature, the validity period it is given (\<open>feature/key/validity.rs\<close>), and its
  verification (\<open>feature/verify/public_key.rs\<close>, \<open>verifying_key.rs\<close>, \<open>recipients.rs\<close>,
  \<open>private_key.rs\<close>). The properties show that what is generated verifies and what verification
  establishes.
\<close>

section \<open>Key material\<close>

definition CURVE_X25519 :: string where "CURVE_X25519 = ''X25519''"
definition CURVE_ED25519 :: string where "CURVE_ED25519 = ''Ed25519''"

record keypair_material =
  km_kem_sk :: "u8 list"
  km_kem_pk :: "u8 list"
  km_sig_sk :: "u8 list"
  km_sig_pk :: "u8 list"

text \<open>The seeds are the two fresh secrets \<open>generate_keypairs\<close> draws.\<close>

definition generate_keypairs :: "crypto_lib \<Rightarrow> u8 list \<Rightarrow> u8 list \<Rightarrow> keypair_material res" where
  "generate_keypairs C kem_seed sig_seed =
     res_bind (derive_public_key_from_secret C kem_seed) (\<lambda>kem_pk.
     Inr \<lparr>km_kem_sk = kem_seed, km_kem_pk = kem_pk, km_sig_sk = sig_seed,
          km_sig_pk = cl_ed_public C sig_seed\<rparr>)"

definition build_identity_keys :: "u8 list \<Rightarrow> u8 list \<Rightarrow> identity_keys" where
  "build_identity_keys kem_pk sig_pk =
     \<lparr>ik_kem = \<lparr>jwk_kty = ''OKP'', jwk_crv = CURVE_X25519, jwk_x = encode_base64url_nopad kem_pk\<rparr>,
      ik_sig = \<lparr>jwk_kty = ''OKP'', jwk_crv = CURVE_ED25519, jwk_x = encode_base64url_nopad sig_pk\<rparr>\<rparr>"

definition build_private_key_plaintext ::
  "u8 list \<Rightarrow> u8 list \<Rightarrow> u8 list \<Rightarrow> u8 list \<Rightarrow> private_key_plaintext" where
  "build_private_key_plaintext kem_sk kem_pk sig_sk sig_pk =
     \<lparr>pkp_keys =
        \<lparr>ikp_kem = \<lparr>jpk_kty = ''OKP'', jpk_crv = CURVE_X25519, jpk_x = encode_base64url_nopad kem_pk,
                    jpk_d = encode_base64url_nopad kem_sk\<rparr>,
         ikp_sig = \<lparr>jpk_kty = ''OKP'', jpk_crv = CURVE_ED25519, jpk_x = encode_base64url_nopad sig_pk,
                    jpk_d = encode_base64url_nopad sig_sk\<rparr>\<rparr>\<rparr>"

definition parse_okp_key ::
  "string \<Rightarrow> string \<Rightarrow> string \<Rightarrow> string \<Rightarrow> string \<Rightarrow> (u8 list \<times> u8 list) res" where
  "parse_okp_key kty crv expected_crv d x =
     (if kty \<noteq> ''OKP'' then Inl (plain_error Crypto)
      else if crv \<noteq> expected_crv then Inl (plain_error Crypto)
      else res_bind (decode_base64url_nopad_array 32 d) (\<lambda>d_bytes.
           res_bind (decode_base64url_nopad_array 32 x) (\<lambda>x_bytes. Inr (d_bytes, x_bytes))))"

definition verify_ed25519_consistency :: "crypto_lib \<Rightarrow> u8 list \<Rightarrow> u8 list \<Rightarrow> unit res" where
  "verify_ed25519_consistency C sig_d sig_x =
     (if cl_ed_public C sig_d \<noteq> sig_x then Inl (plain_error Crypto) else Inr ())"

definition verify_x25519_consistency :: "crypto_lib \<Rightarrow> u8 list \<Rightarrow> u8 list \<Rightarrow> unit res" where
  "verify_x25519_consistency C kem_d kem_x =
     res_bind (derive_public_key_from_secret C kem_d) (\<lambda>derived.
     if derived \<noteq> kem_x then Inl (plain_error Crypto) else Inr ())"

definition verify_private_key_material :: "crypto_lib \<Rightarrow> private_key_plaintext \<Rightarrow> unit res" where
  "verify_private_key_material C plaintext =
     (let kem = ikp_kem (pkp_keys plaintext); sig = ikp_sig (pkp_keys plaintext) in
      res_bind (parse_okp_key (jpk_kty kem) (jpk_crv kem) CURVE_X25519 (jpk_d kem) (jpk_x kem)) (\<lambda>(kem_d, kem_x).
      res_bind (verify_x25519_consistency C kem_d kem_x) (\<lambda>_.
      res_bind (parse_okp_key (jpk_kty sig) (jpk_crv sig) CURVE_ED25519 (jpk_d sig) (jpk_x sig)) (\<lambda>(sig_d, sig_x).
      verify_ed25519_consistency C sig_d sig_x))))"

section \<open>Building the document\<close>

datatype ssh_determinism_status = DeterminismVerified | DeterminismSkipped | DeterminismFailed

record 's ssh_binding =
  sb_public_key :: string
  sb_fingerprint :: string
  sb_backend :: "'s backend"
  sb_determinism :: ssh_determinism_status

record key_document_params =
  kdp_member_handle :: string
  kdp_created_at :: string
  kdp_expires_at :: string
  kdp_github_account :: "github_account option"

definition build_binding_claims :: "github_account option \<Rightarrow> binding_claims option" where
  "build_binding_claims account = map_option (\<lambda>g. \<lparr>bc_github_account = Some g\<rparr>) account"

definition build_attestation ::
  "json_lib \<Rightarrow> 's ssh_binding \<Rightarrow> attestation_body_input \<Rightarrow> 's \<Rightarrow> attestation res \<times> 's" where
  "build_attestation J binding input st =
     (case build_attestation_body_bytes J input of
        Inl e \<Rightarrow> (Inl e, st)
      | Inr body \<Rightarrow>
          (case sb_backend binding ATTESTATION_NAMESPACE (sb_public_key binding) body st of
             (Inl _, st) \<Rightarrow> (Inl (plain_error Ssh), st)
           | (Inr raw_sig, st) \<Rightarrow>
               (Inr \<lparr>att_method = ATTESTATION_METHOD_SSH_SIGN, att_pub = sb_public_key binding,
                     att_sig = encode_base64url_nopad raw_sig\<rparr>, st)))"

text \<open>\<open>PublicKeyProtectedWithoutKid\<close>: the protected part of a document without its \<open>kid\<close> member.\<close>

definition se_pk_without_kid :: "public_key_protected \<Rightarrow> json" where
  "se_pk_without_kid p = JObj
     ([(''attestation'', se_attestation (pk_attestation p))] @
      opt_member ''binding_claims'' se_binding_claims (pk_binding_claims p) @
      opt_member ''created_at'' JStr (pk_created_at p) @
      [(''expires_at'', JStr (pk_expires_at p)), (''format'', JStr (pk_format p)),
       (''keys'', se_identity_keys (pk_keys p)),
       (''subject_handle'', JStr (pk_subject_handle p))])"

definition build_public_key ::
  "json_lib \<Rightarrow> crypto_lib \<Rightarrow> public_key_parts \<Rightarrow> u8 list \<Rightarrow> public_key res" where
  "build_public_key J C parts sig_sk =
     res_bind (derive_public_key_kid (jcs_normalize J) (cl_sha256 C)
                 (se_pk_without_kid (pk_protected (PublicKey_new (parts\<lparr>pp_kid := []\<rparr>))))) (\<lambda>derived_kid.
     (let protected = pk_protected (PublicKey_new (parts\<lparr>pp_kid := derived_kid\<rparr>)) in
      res_bind (jcs_normalize J (se_pk_protected protected)) (\<lambda>protected_jcs.
      Inr \<lparr>pk_protected = protected,
           pk_signature = encode_ed25519_signature (sign_detached_bytes C protected_jcs sig_sk)\<rparr>)))"

definition build_public_key_document ::
  "json_lib \<Rightarrow> crypto_lib \<Rightarrow> key_document_params \<Rightarrow> keypair_material \<Rightarrow> 's ssh_binding \<Rightarrow> 's \<Rightarrow>
   public_key res \<times> 's" where
  "build_public_key_document J C rq km binding st =
     (let keys = build_identity_keys (km_kem_pk km) (km_sig_pk km);
          claims = build_binding_claims (kdp_github_account rq) in
      case build_attestation J binding
             \<lparr>abi_subject_handle = kdp_member_handle rq, abi_keys = keys, abi_binding_claims = claims,
              abi_created_at = Some (kdp_created_at rq), abi_expires_at = kdp_expires_at rq\<rparr> st of
        (Inl e, st) \<Rightarrow> (Inl e, st)
      | (Inr att, st) \<Rightarrow>
          (build_public_key J C
             \<lparr>pp_subject_handle = kdp_member_handle rq, pp_kid = [], pp_keys = keys,
              pp_binding_claims = claims, pp_attestation = att, pp_expires_at = kdp_expires_at rq,
              pp_created_at = Some (kdp_created_at rq), pp_signature = []\<rparr> (km_sig_sk km), st))"

definition ensure_determinism :: "ssh_determinism_status \<Rightarrow> unit res" where
  "ensure_determinism status =
     (if status = DeterminismVerified then Inr () else Inl (plain_error Crypto))"

section \<open>Validity periods\<close>

definition DEFAULT_VALIDITY_DAYS :: int where "DEFAULT_VALIDITY_DAYS = 365"

text \<open>
  Instants are nanoseconds; \<open>checked_add_time\<close> is the range of the \<open>time\<close> crate, given by its last
  instant \<open>limit\<close>.
\<close>

definition checked_add_time :: "int \<Rightarrow> int \<Rightarrow> int \<Rightarrow> int option" where
  "checked_add_time limit t seconds =
     (if t + seconds * 10 ^ 9 \<le> limit then Some (t + seconds * 10 ^ 9) else None)"

definition parse_expiration ::
  "rfc3339 \<Rightarrow> int \<Rightarrow> string option \<Rightarrow> string option \<Rightarrow> int \<Rightarrow> int res" where
  "parse_expiration T limit expires_at valid_for created_at =
     (if expires_at \<noteq> None \<and> valid_for \<noteq> None then Inl (plain_error Config)
      else case expires_at of
        Some s \<Rightarrow> res_bind (ok_or (plain_error Parse) (T s)) (\<lambda>parsed.
          if parsed \<le> created_at then Inl (plain_error Config) else Inr parsed)
      | None \<Rightarrow> (case valid_for of
          Some d \<Rightarrow> res_bind (parse_relative_duration d) (\<lambda>duration.
            ok_or (plain_error Parse) (checked_add_time limit created_at (rd_seconds duration)))
        | None \<Rightarrow> ok_or (plain_error Parse)
            (checked_add_time limit created_at (DEFAULT_VALIDITY_DAYS * 86400))))"

definition enforce_expiry_after :: "rfc3339 \<Rightarrow> string \<Rightarrow> int \<Rightarrow> unit res" where
  "enforce_expiry_after T expires_at now =
     res_bind (ok_or (plain_error Parse) (T expires_at)) (\<lambda>t.
     if t > now then Inr () else Inl (plain_error Config))"

section \<open>Verification\<close>

definition attestation_input_of :: "public_key_protected \<Rightarrow> attestation_body_input" where
  "attestation_input_of p =
     \<lparr>abi_subject_handle = pk_subject_handle p, abi_keys = pk_keys p,
      abi_binding_claims = pk_binding_claims p, abi_created_at = pk_created_at p,
      abi_expires_at = pk_expires_at p\<rparr>"

definition remove_member :: "string \<Rightarrow> (string \<times> json) list \<Rightarrow> (string \<times> json) list" where
  "remove_member k ms = filter (\<lambda>m. fst m \<noteq> k) ms"

definition verify_derived_kid :: "json_lib \<Rightarrow> crypto_lib \<Rightarrow> public_key \<Rightarrow> unit res" where
  "verify_derived_kid J C pk =
     (case se_pk_protected (pk_protected pk) of
        JObj ms \<Rightarrow>
          res_bind (derive_public_key_kid (jcs_normalize J) (cl_sha256 C) (JObj (remove_member ''kid'' ms)))
            (\<lambda>derived_kid.
             if pk_kid (pk_protected pk) \<noteq> derived_kid then Inl (verification_error ''V-KID-DERIVED'')
             else Inr ())
      | _ \<Rightarrow> Inl (verification_error ''V-KID-DERIVED''))"

definition verify_public_key_self_signature :: "json_lib \<Rightarrow> crypto_lib \<Rightarrow> public_key \<Rightarrow> u8 list res" where
  "verify_public_key_self_signature J C pk =
     res_bind (verify_derived_kid J C pk) (\<lambda>_.
     res_bind (map_err (\<lambda>_. plain_error Crypto)
                 (jcs_normalize J (se_pk_protected (pk_protected pk)))) (\<lambda>protected_jcs.
     res_bind (decode_base64url_nopad_array 32 (jwk_x (ik_sig (pk_keys (pk_protected pk))))) (\<lambda>key_bytes.
     if \<not> cl_ed_point C key_bytes then Inl (plain_error Crypto)
     else
       res_bind (map_err (\<lambda>_. plain_error Crypto) (decode_base64url_nopad (pk_signature pk))) (\<lambda>sig_bytes.
       if length sig_bytes \<noteq> 64 then Inl (plain_error Crypto)
       else if cl_ed_verify C key_bytes protected_jcs sig_bytes then Inr key_bytes
       else Inl (plain_error Crypto)))))"

record verified_signing_public_key =
  vsk_document :: public_key
  vsk_verifying_key :: "u8 list"

definition verify_signing_public_key ::
  "json_lib \<Rightarrow> crypto_lib \<Rightarrow> public_key \<Rightarrow> verified_signing_public_key res" where
  "verify_signing_public_key J C pk =
     res_bind (verify_public_key_self_signature J C pk) (\<lambda>verifying_key.
     res_bind (verify_attestation J C (attestation_input_of (pk_protected pk))
                 (att_method (pk_attestation (pk_protected pk)))
                 (att_pub (pk_attestation (pk_protected pk)))
                 (att_sig (pk_attestation (pk_protected pk)))) (\<lambda>_.
     Inr \<lparr>vsk_document = pk, vsk_verifying_key = verifying_key\<rparr>))"

definition verify_public_key_with_attestation ::
  "json_lib \<Rightarrow> crypto_lib \<Rightarrow> public_key \<Rightarrow> public_key res" where
  "verify_public_key_with_attestation J C pk =
     res_map vsk_document (verify_signing_public_key J C pk)"

definition build_public_key_expiry_warning ::
  "rfc3339 \<Rightarrow> int \<Rightarrow> public_key \<Rightarrow> key_warning option res" where
  "build_public_key_expiry_warning T now doc =
     (let p = pk_protected doc;
          label = ''PublicKey for '' @ [SQUOTE] @ pk_subject_handle p @ [SQUOTE] in
      if pk_expires_at p = [] then Inr None
      else res_bind (check_key_expiry T (pk_expires_at p) now) (\<lambda>status.
        case status of
          Valid \<Rightarrow> Inr None
        | ExpiringSoon expires_at days \<Rightarrow> Inr (Some (KeyExpiring label days expires_at))
        | Expired expires_at \<Rightarrow> Inr (Some (KeyExpired label expires_at))))"

record verified_public_key_for_verification =
  vpv_key :: verified_signing_public_key
  vpv_warnings :: "key_warning list"

definition verify_public_key_for_verification ::
  "json_lib \<Rightarrow> crypto_lib \<Rightarrow> rfc3339 \<Rightarrow> int \<Rightarrow> public_key \<Rightarrow> verified_public_key_for_verification res" where
  "verify_public_key_for_verification J C T now pk =
     res_bind (verify_signing_public_key J C pk) (\<lambda>verified.
     res_bind (build_public_key_expiry_warning T now (vsk_document verified)) (\<lambda>w.
     Inr \<lparr>vpv_key = verified, vpv_warnings = (case w of None \<Rightarrow> [] | Some x \<Rightarrow> [x])\<rparr>))"

definition verify_recipient_public_keys ::
  "json_lib \<Rightarrow> crypto_lib \<Rightarrow> rfc3339 \<Rightarrow> int \<Rightarrow> public_key list \<Rightarrow> public_key list res" where
  "verify_recipient_public_keys J C T now keys =
     collect_res (\<lambda>key.
       res_bind (verify_public_key_with_attestation J C key) (\<lambda>attested.
       res_bind (enforce_recipient_key_not_expired T now attested) (\<lambda>_. Inr attested))) keys"

definition verify_recipient_public_keys_from_source ::
  "json_lib \<Rightarrow> crypto_lib \<Rightarrow> rfc3339 \<Rightarrow> int \<Rightarrow> (member_handle list \<Rightarrow> public_key list res) \<Rightarrow>
   string list \<Rightarrow> public_key list res" where
  "verify_recipient_public_keys_from_source J C T now load handles =
     res_bind (collect_res MemberHandle_new handles) (\<lambda>member_handles.
     res_bind (load member_handles) (verify_recipient_public_keys J C T now))"

record signature_verification_key =
  svk_verifying_key :: "u8 list"
  svk_member_handle :: string
  svk_source :: verifying_key_source
  svk_warnings :: "key_warning list"
  svk_public_key :: public_key

definition build_verifying_key ::
  "json_lib \<Rightarrow> crypto_lib \<Rightarrow> rfc3339 \<Rightarrow> int \<Rightarrow> public_key \<Rightarrow> string \<Rightarrow> verifying_key_source \<Rightarrow>
   signature_verification_key res" where
  "build_verifying_key J C T now pk expected_kid source =
     res_bind (map_err (\<lambda>_. plain_error Crypto) (verify_public_key_for_verification J C T now pk)) (\<lambda>verified.
     let doc = vsk_document (vpv_key verified) in
     if expected_kid \<noteq> pk_kid (pk_protected doc) then Inl (plain_error Crypto)
     else Inr \<lparr>svk_verifying_key = vsk_verifying_key (vpv_key verified),
               svk_member_handle = pk_subject_handle (pk_protected doc), svk_source = source,
               svk_warnings = vpv_warnings verified, svk_public_key = pk\<rparr>)"

definition build_verifying_key_from_signature ::
  "json_lib \<Rightarrow> crypto_lib \<Rightarrow> rfc3339 \<Rightarrow> int \<Rightarrow> artifact_signature \<Rightarrow> signature_verification_key res" where
  "build_verifying_key_from_signature J C T now signature =
     build_verifying_key J C T now (sig_signer_pub signature) (sig_kid signature) SignerPubEmbedded"

section \<open>What verification establishes\<close>

text \<open>The public key document with its \<open>kid\<close> taken out is what the key id is derived from.\<close>

lemma remove_kid:
  "se_pk_protected p = JObj ms \<Longrightarrow> JObj (remove_member ''kid'' ms) = se_pk_without_kid p"
  by (cases "pk_binding_claims p"; cases "pk_created_at p")
     (auto simp: se_pk_protected_def se_pk_without_kid_def remove_member_def)

lemma verify_derived_kid_eq:
  "verify_derived_kid J C pk =
     res_bind (derive_public_key_kid (jcs_normalize J) (cl_sha256 C) (se_pk_without_kid (pk_protected pk)))
       (\<lambda>derived_kid. if pk_kid (pk_protected pk) \<noteq> derived_kid
          then Inl (verification_error ''V-KID-DERIVED'') else Inr ())"
proof -
  obtain ms where ms: "se_pk_protected (pk_protected pk) = JObj ms" by (simp add: se_pk_protected_def)
  show ?thesis unfolding verify_derived_kid_def ms json.case remove_kid [OF ms] ..
qed

definition derived_kid_of :: "json_lib \<Rightarrow> crypto_lib \<Rightarrow> public_key_protected \<Rightarrow> string" where
  "derived_kid_of J C p = encode_crockford_base32 (take 20 (cl_sha256 C (jl_jcs J (se_pk_without_kid p))))"

lemma derive_kid_Inr:
  "derive_public_key_kid (jcs_normalize J) (cl_sha256 C) (se_pk_without_kid p) = Inr k \<longleftrightarrow>
     all_integers_safe (se_pk_without_kid p) \<and> k = derived_kid_of J C p"
  by (auto simp: derive_public_key_kid_def jcs_normalize_def derived_kid_of_def split: if_splits)

lemma integers_safe_without_kid:
  "all_integers_safe (se_pk_protected p) \<longleftrightarrow> all_integers_safe (se_pk_without_kid p)"
  by (auto simp: se_pk_protected_def se_pk_without_kid_def)

lemma verify_self_signature_iff:
  "verify_public_key_self_signature J C pk = Inr key \<longleftrightarrow>
     all_integers_safe (se_pk_protected (pk_protected pk)) \<and>
     pk_kid (pk_protected pk) = derived_kid_of J C (pk_protected pk) \<and>
     jwk_x (ik_sig (pk_keys (pk_protected pk))) = encode_base64url_nopad key \<and> length key = 32 \<and>
     cl_ed_point C key \<and>
     (\<exists>sig. decode_base64url_nopad (pk_signature pk) = Inr sig \<and> length sig = 64 \<and>
        cl_ed_verify C key (jl_jcs J (se_pk_protected (pk_protected pk))) sig)"
  by (auto simp: verify_public_key_self_signature_def verify_derived_kid_eq derive_kid_Inr
      integers_safe_without_kid jcs_normalize_def decode_array_iff split: if_splits)

lemma verify_signing_public_key_Inr:
  "verify_signing_public_key J C pk = Inr v \<longleftrightarrow>
     verify_public_key_self_signature J C pk = Inr (vsk_verifying_key v) \<and> vsk_document v = pk \<and>
     verify_attestation J C (attestation_input_of (pk_protected pk))
       (att_method (pk_attestation (pk_protected pk))) (att_pub (pk_attestation (pk_protected pk)))
       (att_sig (pk_attestation (pk_protected pk))) = Inr ()"
  by (cases v) (auto simp: verify_signing_public_key_def)

text \<open>The documented behaviour of an SSH backend: its signatures verify under the key line.\<close>

definition backend_signs :: "crypto_lib \<Rightarrow> 's ssh_binding \<Rightarrow> bool" where
  "backend_signs C binding \<longleftrightarrow>
     (\<forall>ns body st sig st'. sb_backend binding ns (sb_public_key binding) body st = (Inr sig, st') \<longrightarrow>
        length sig = 64 \<and>
        (\<exists>d key. build_sshsig_signed_data C body ns = Inr d \<and>
           extract_ed25519_pubkey_from_ssh C (sb_public_key binding) = Inr key \<and>
           cl_ed_verify C key d sig))"

lemma url_fits_64: "length bs = 64 \<Longrightarrow> url_fits MAX_BASE64_CIPHERTEXT_LENGTH bs"
  by (simp add: url_fits_def compute_encoded_len_def limit_defs Let_def)

lemma build_attestation_verifies:
  assumes "build_attestation J binding input st = (Inr att, st')" and "backend_signs C binding"
  shows "att_pub att = sb_public_key binding \<and>
    verify_attestation J C input (att_method att) (att_pub att) (att_sig att) = Inr ()"
proof -
  from assms(1) obtain body sig where body: "build_attestation_body_bytes J input = Inr body"
    and sig: "sb_backend binding ATTESTATION_NAMESPACE (sb_public_key binding) body st = (Inr sig, st')"
    and att: "att = \<lparr>att_method = ATTESTATION_METHOD_SSH_SIGN, att_pub = sb_public_key binding,
      att_sig = encode_base64url_nopad sig\<rparr>"
    by (auto simp: build_attestation_def split: sum.splits prod.splits)
  with assms(2) obtain d key where len: "length sig = 64"
    and "build_sshsig_signed_data C body ATTESTATION_NAMESPACE = Inr d"
    and "extract_ed25519_pubkey_from_ssh C (sb_public_key binding) = Inr key" "cl_ed_verify C key d sig"
    unfolding backend_signs_def by blast
  moreover from len have "decode_attestation_signature (encode_base64url_nopad sig) = Inr sig"
    by (simp add: decode_attestation_signature_def decode_array_iff)
  ultimately show ?thesis
    by (simp add: att verify_attestation_def build_attestation_signed_data_def body)
qed

lemma PublicKey_new_fields [simp]:
  "pk_protected (PublicKey_new parts) =
     \<lparr>pk_format = PUBLIC_KEY_V1, pk_subject_handle = pp_subject_handle parts, pk_kid = pp_kid parts,
      pk_keys = pp_keys parts, pk_binding_claims = pp_binding_claims parts,
      pk_attestation = pp_attestation parts, pk_expires_at = pp_expires_at parts,
      pk_created_at = pp_created_at parts\<rparr>"
  by (simp add: PublicKey_new_def)

lemma se_without_kid_update [simp]: "se_pk_without_kid (p\<lparr>pk_kid := k\<rparr>) = se_pk_without_kid p"
  by (simp add: se_pk_without_kid_def)

lemma build_public_key_Inr:
  assumes "build_public_key J C parts sk = Inr pk"
  shows "pk_protected pk = pk_protected (PublicKey_new (parts\<lparr>pp_kid := pk_kid (pk_protected pk)\<rparr>))"
    and "pk_kid (pk_protected pk) = derived_kid_of J C (pk_protected pk)"
    and "all_integers_safe (se_pk_protected (pk_protected pk))"
    and "pk_signature pk = encode_base64url_nopad (cl_ed_sign C sk (jl_jcs J (se_pk_protected (pk_protected pk))))"
proof -
  let ?p = "\<lambda>k. pk_protected (PublicKey_new (parts\<lparr>pp_kid := k\<rparr>))"
  from assms obtain k where k: "derive_public_key_kid (jcs_normalize J) (cl_sha256 C) (se_pk_without_kid (?p [])) = Inr k"
    and safe: "all_integers_safe (se_pk_protected (?p k))"
    and pk: "pk = \<lparr>pk_protected = ?p k, pk_signature = encode_ed25519_signature
      (sign_detached_bytes C (jl_jcs J (se_pk_protected (?p k))) sk)\<rparr>"
    by (auto simp: build_public_key_def Let_def jcs_normalize_def simp del: PublicKey_new_fields
        split: if_splits)
  have "?p k = (?p [])\<lparr>pk_kid := k\<rparr>" by simp
  then have "derived_kid_of J C (?p k) = derived_kid_of J C (?p [])"
    unfolding derived_kid_of_def by (simp only: se_without_kid_update)
  then show "pk_kid (pk_protected pk) = derived_kid_of J C (pk_protected pk)"
    using k unfolding derive_kid_Inr by (simp add: pk)
  show "pk_protected pk = pk_protected (PublicKey_new (parts\<lparr>pp_kid := pk_kid (pk_protected pk)\<rparr>))"
    and "all_integers_safe (se_pk_protected (pk_protected pk))"
    and "pk_signature pk = encode_base64url_nopad (cl_ed_sign C sk (jl_jcs J (se_pk_protected (pk_protected pk))))"
    using safe by (simp_all add: pk encode_ed25519_signature_def sign_detached_bytes_def)
qed

lemma generated_document:
  assumes "build_public_key_document J C rq km binding st = (Inr pk, st')"
    and "ed25519_pair C (km_sig_sk km) (km_sig_pk km)" and "length (km_sig_pk km) = 32"
    and "backend_signs C binding"
  shows "verify_signing_public_key J C pk = Inr \<lparr>vsk_document = pk, vsk_verifying_key = km_sig_pk km\<rparr>"
    and "all_integers_safe (se_pk_without_kid (pk_protected pk))"
    and "pk_kid (pk_protected pk) = derived_kid_of J C (pk_protected pk)"
    and "pk_subject_handle (pk_protected pk) = kdp_member_handle rq"
    and "jwk_x (ik_sig (pk_keys (pk_protected pk))) = encode_base64url_nopad (km_sig_pk km)"
    and "pk_expires_at (pk_protected pk) = kdp_expires_at rq"
    and "pk_protected pk =
      \<lparr>pk_format = PUBLIC_KEY_V1, pk_subject_handle = kdp_member_handle rq, pk_kid = pk_kid (pk_protected pk),
       pk_keys = build_identity_keys (km_kem_pk km) (km_sig_pk km),
       pk_binding_claims = build_binding_claims (kdp_github_account rq),
       pk_attestation = pk_attestation (pk_protected pk),
       pk_expires_at = kdp_expires_at rq, pk_created_at = Some (kdp_created_at rq)\<rparr>"
    and "att_method (pk_attestation (pk_protected pk)) = ATTESTATION_METHOD_SSH_SIGN"
    and "att_pub (pk_attestation (pk_protected pk)) = sb_public_key binding"
proof -
  let ?keys = "build_identity_keys (km_kem_pk km) (km_sig_pk km)"
  let ?input = "\<lparr>abi_subject_handle = kdp_member_handle rq, abi_keys = ?keys,
    abi_binding_claims = build_binding_claims (kdp_github_account rq),
    abi_created_at = Some (kdp_created_at rq), abi_expires_at = kdp_expires_at rq\<rparr>"
  from assms(1) obtain att where att: "build_attestation J binding ?input st = (Inr att, st')"
    and pk: "build_public_key J C
      \<lparr>pp_subject_handle = kdp_member_handle rq, pp_kid = [], pp_keys = ?keys,
       pp_binding_claims = build_binding_claims (kdp_github_account rq), pp_attestation = att,
       pp_expires_at = kdp_expires_at rq, pp_created_at = Some (kdp_created_at rq), pp_signature = []\<rparr>
      (km_sig_sk km) = Inr pk"
    by (auto simp: build_public_key_document_def Let_def split: prod.splits sum.splits)
  note built = build_public_key_Inr [OF pk]
  have protected: "pk_attestation (pk_protected pk) = att" "pk_keys (pk_protected pk) = ?keys"
    "attestation_input_of (pk_protected pk) = ?input" "pk_subject_handle (pk_protected pk) = kdp_member_handle rq"
    "pk_expires_at (pk_protected pk) = kdp_expires_at rq"
    by (subst built(1); simp add: attestation_input_of_def)+
  have x: "jwk_x (ik_sig (pk_keys (pk_protected pk))) = encode_base64url_nopad (km_sig_pk km)"
    by (simp add: protected build_identity_keys_def)
  have "decode_base64url_nopad (pk_signature pk) =
      Inr (cl_ed_sign C (km_sig_sk km) (jl_jcs J (se_pk_protected (pk_protected pk))))"
    using assms(2) by (simp add: built(4) url.dec_enc url_fits_64 ed25519_pair_def)
  then have "verify_public_key_self_signature J C pk = Inr (km_sig_pk km)"
    unfolding verify_self_signature_iff using assms(2,3) built(2,3) x by (simp add: ed25519_pair_def)
  moreover have "verify_attestation J C ?input (att_method att) (att_pub att) (att_sig att) = Inr ()"
    using build_attestation_verifies [OF att assms(4)] by (rule conjunct2)
  ultimately show "verify_signing_public_key J C pk = Inr \<lparr>vsk_document = pk, vsk_verifying_key = km_sig_pk km\<rparr>"
    by (simp add: verify_signing_public_key_Inr protected)
  show "all_integers_safe (se_pk_without_kid (pk_protected pk))"
    and "pk_kid (pk_protected pk) = derived_kid_of J C (pk_protected pk)"
    and "pk_subject_handle (pk_protected pk) = kdp_member_handle rq"
    and "jwk_x (ik_sig (pk_keys (pk_protected pk))) = encode_base64url_nopad (km_sig_pk km)"
    and "pk_expires_at (pk_protected pk) = kdp_expires_at rq"
    using built(2,3) protected x by (simp_all add: integers_safe_without_kid)
  show "pk_protected pk =
      \<lparr>pk_format = PUBLIC_KEY_V1, pk_subject_handle = kdp_member_handle rq, pk_kid = pk_kid (pk_protected pk),
       pk_keys = ?keys, pk_binding_claims = build_binding_claims (kdp_github_account rq),
       pk_attestation = pk_attestation (pk_protected pk),
       pk_expires_at = kdp_expires_at rq, pk_created_at = Some (kdp_created_at rq)\<rparr>"
    unfolding protected(1) by (subst built(1)) (simp add: PublicKey_new_def)
  show "att_method (pk_attestation (pk_protected pk)) = ATTESTATION_METHOD_SSH_SIGN"
    and "att_pub (pk_attestation (pk_protected pk)) = sb_public_key binding"
    using att by (auto simp: protected build_attestation_def split: prod.splits sum.splits)
qed

text \<open>
  C31. A generated public key states what was requested and verifies: the document
  \<open>build_public_key_document\<close> returns has exactly the requested handle, creation and expiry times,
  the two generated public keys under their curves, a binding claim for the GitHub account when one
  was requested and none otherwise, and an attestation by the bound SSH key; with its derived,
  canonical key id and its self-signature it passes the full verification of
  \<open>feature/verify/public_key.rs\<close> under its own Ed25519 key, and it is recognised as the public
  half of the local key it was generated with.
\<close>

theorem generated_public_key_verifies:
  assumes "build_public_key_document J C rq km binding st = (Inr pk, st')"
    and "ed25519_pair C (km_sig_sk km) (km_sig_pk km)" and "length (km_sig_pk km) = 32"
    and "backend_signs C binding" and "\<forall>m. length (cl_sha256 C m) = 32"
  shows "verify_signing_public_key J C pk = Inr \<lparr>vsk_document = pk, vsk_verifying_key = km_sig_pk km\<rparr> \<and>
    canonical_kid (pk_kid (pk_protected pk)) \<and>
    pk_subject_handle (pk_protected pk) = kdp_member_handle rq \<and>
    matches_public_key \<lparr>lki_member_handle = MemberHandle (kdp_member_handle rq),
      lki_kid = Kid (pk_kid (pk_protected pk)), lki_sig_x = km_sig_pk km\<rparr> pk = Inr True \<and>
    (\<exists>att. att_method att = ''ssh-sign'' \<and> att_pub att = sb_public_key binding \<and>
       pk_protected pk =
         \<lparr>pk_format = PUBLIC_KEY_V1, pk_subject_handle = kdp_member_handle rq,
          pk_kid = pk_kid (pk_protected pk),
          pk_keys =
            \<lparr>ik_kem = \<lparr>jwk_kty = ''OKP'', jwk_crv = ''X25519'', jwk_x = encode_base64url_nopad (km_kem_pk km)\<rparr>,
             ik_sig = \<lparr>jwk_kty = ''OKP'', jwk_crv = ''Ed25519'', jwk_x = encode_base64url_nopad (km_sig_pk km)\<rparr>\<rparr>,
          pk_binding_claims =
            (case kdp_github_account rq of None \<Rightarrow> None | Some g \<Rightarrow> Some \<lparr>bc_github_account = Some g\<rparr>),
          pk_attestation = att, pk_expires_at = kdp_expires_at rq,
          pk_created_at = Some (kdp_created_at rq)\<rparr>)"
proof -
  note doc = generated_document [OF assms(1-4)]
  have "canonical_kid (pk_kid (pk_protected pk))"
    using derive_public_key_kid_canonical [of "jcs_normalize J" "cl_sha256 C"
        "se_pk_without_kid (pk_protected pk)" "pk_kid (pk_protected pk)"] assms(5) doc(2,3)
    by (simp add: derive_kid_Inr)
  moreover have "pk_protected pk = \<lparr>pk_format = PUBLIC_KEY_V1, pk_subject_handle = kdp_member_handle rq,
      pk_kid = pk_kid (pk_protected pk),
      pk_keys =
        \<lparr>ik_kem = \<lparr>jwk_kty = ''OKP'', jwk_crv = ''X25519'', jwk_x = encode_base64url_nopad (km_kem_pk km)\<rparr>,
         ik_sig = \<lparr>jwk_kty = ''OKP'', jwk_crv = ''Ed25519'', jwk_x = encode_base64url_nopad (km_sig_pk km)\<rparr>\<rparr>,
      pk_binding_claims =
        (case kdp_github_account rq of None \<Rightarrow> None | Some g \<Rightarrow> Some \<lparr>bc_github_account = Some g\<rparr>),
      pk_attestation = pk_attestation (pk_protected pk), pk_expires_at = kdp_expires_at rq,
      pk_created_at = Some (kdp_created_at rq)\<rparr>"
    by (subst doc(7)) (simp add: build_identity_keys_def build_binding_claims_def CURVE_X25519_def
        CURVE_ED25519_def map_option_case)
  moreover have "att_method (pk_attestation (pk_protected pk)) = ''ssh-sign''"
    using doc(8) by (simp add: ATTESTATION_METHOD_SSH_SIGN_def)
  ultimately show ?thesis
    using assms(3) doc(1,4,5,9) by (auto simp: matches_public_key_iff decode_array_iff)
qed

text \<open>A backend that signs with the key of its own line.\<close>

definition sample_ssh_key :: "u8 list" where
  "sample_ssh_key = replicate 32 3"

definition sample_binding :: "unit ssh_binding" where
  "sample_binding =
     \<lparr>sb_public_key = ed25519_line sample_ssh_key, 
      sb_fingerprint = ''SHA256:'' @ encode_base64_standard_nopad (cl_sha256 sample_crypto (ed25519_blob sample_ssh_key)),
      sb_backend = (\<lambda>ns line body st. case build_sshsig_signed_data sample_crypto body ns of
        Inl e \<Rightarrow> (Inl e, st) | Inr d \<Rightarrow> (Inr (cl_ed_sign sample_crypto sample_ssh_key d), st)),
      sb_determinism = DeterminismVerified\<rparr>"

lemma sample_sha_length [simp]: "length (cl_sha256 sample_crypto m) = 32"
  by (simp add: sample_crypto_def)

lemma sample_binding_signs: "backend_signs sample_crypto sample_binding"
proof -
  have "ed25519_pair sample_crypto sample_ssh_key sample_ssh_key" by simp
  then have key: "length (cl_ed_sign sample_crypto sample_ssh_key d) = 64"
    "cl_ed_verify sample_crypto sample_ssh_key d (cl_ed_sign sample_crypto sample_ssh_key d)"
    "cl_ed_point sample_crypto sample_ssh_key" for d
    by (auto simp: ed25519_pair_def)
  have "extract_ed25519_pubkey_from_ssh sample_crypto (ed25519_line sample_ssh_key) = Inr sample_ssh_key"
    using key(3) by (intro extract_from_line) (simp_all add: sample_ssh_key_def)
  then show ?thesis
    using key by (auto simp: backend_signs_def sample_binding_def split: sum.splits)
qed

definition sample_request :: key_document_params where
  "sample_request = \<lparr>kdp_member_handle = ''alice'', kdp_created_at = ''2026-01-01T00:00:00Z'',
     kdp_expires_at = ''2027-01-01T00:00:00Z'', kdp_github_account = Some \<lparr>gh_id = 7, gh_login = ''alice''\<rparr>\<rparr>"

definition sample_material :: keypair_material where
  "sample_material = \<lparr>km_kem_sk = replicate 32 1, km_kem_pk = replicate 32 1,
     km_sig_sk = replicate 32 2, km_sig_pk = replicate 32 2\<rparr>"

lemma sample_generated:
  "\<exists>pk. build_public_key_document (sample_lib []) sample_crypto sample_request sample_material
     sample_binding () = (Inr pk, ())"
proof -
  have sig: "\<exists>d. build_sshsig_signed_data sample_crypto body ATTESTATION_NAMESPACE = Inr d" for body
    by (simp add: signed_data_Inr ATTESTATION_NAMESPACE_def U32_MAX_def)
  have safe: "all_integers_safe (se_identity_keys k)" "all_integers_safe (se_attestation a)" for k a
    by (simp_all add: se_identity_keys_def se_jwk_def se_attestation_def)
  have claims: "all_integers_safe (se_binding_claims \<lparr>bc_github_account = Some \<lparr>gh_id = 7, gh_login = ''alice''\<rparr>\<rparr>)"
    by (simp add: se_binding_claims_def se_github_account_def validate_integer_def MAX_SAFE_INTEGER_def)
  obtain d where "build_sshsig_signed_data sample_crypto [0] ATTESTATION_NAMESPACE = Inr d"
    using sig by blast
  then show ?thesis
    using safe claims
    by (simp add: build_public_key_document_def build_attestation_def build_attestation_body_bytes_def
        jcs_normalize_def se_attestation_body_def sample_request_def build_binding_claims_def Let_def
        sample_binding_def build_public_key_def derive_public_key_kid_def se_pk_without_kid_def
        se_pk_protected_def sample_lib_def)
qed

lemma generated_public_key_verifies_witness:
  "\<exists>pk. verify_signing_public_key (sample_lib []) sample_crypto pk =
     Inr \<lparr>vsk_document = pk, vsk_verifying_key = replicate 32 2\<rparr> \<and>
     pk_binding_claims (pk_protected pk) = Some \<lparr>bc_github_account = Some \<lparr>gh_id = 7, gh_login = ''alice''\<rparr>\<rparr> \<and>
     pk_created_at (pk_protected pk) = Some ''2026-01-01T00:00:00Z'' \<and>
     jwk_x (ik_kem (pk_keys (pk_protected pk))) = encode_base64url_nopad (replicate 32 1)"
proof -
  obtain pk where "build_public_key_document (sample_lib []) sample_crypto sample_request sample_material
     sample_binding () = (Inr pk, ())" using sample_generated by blast
  from generated_public_key_verifies [OF this _ _ sample_binding_signs]
  obtain att where verified: "verify_signing_public_key (sample_lib []) sample_crypto pk =
      Inr \<lparr>vsk_document = pk, vsk_verifying_key = replicate 32 2\<rparr>"
    and stated: "pk_protected pk =
      \<lparr>pk_format = PUBLIC_KEY_V1, pk_subject_handle = kdp_member_handle sample_request,
       pk_kid = pk_kid (pk_protected pk),
       pk_keys =
         \<lparr>ik_kem = \<lparr>jwk_kty = ''OKP'', jwk_crv = ''X25519'', jwk_x = encode_base64url_nopad (replicate 32 1)\<rparr>,
          ik_sig = \<lparr>jwk_kty = ''OKP'', jwk_crv = ''Ed25519'', jwk_x = encode_base64url_nopad (replicate 32 2)\<rparr>\<rparr>,
       pk_binding_claims = Some \<lparr>bc_github_account = Some \<lparr>gh_id = 7, gh_login = ''alice''\<rparr>\<rparr>,
       pk_attestation = att, pk_expires_at = kdp_expires_at sample_request,
       pk_created_at = Some ''2026-01-01T00:00:00Z''\<rparr>"
    by (auto simp: sample_material_def sample_request_def)
  have "pk_binding_claims (pk_protected pk) = Some \<lparr>bc_github_account = Some \<lparr>gh_id = 7, gh_login = ''alice''\<rparr>\<rparr>"
    and "pk_created_at (pk_protected pk) = Some ''2026-01-01T00:00:00Z''"
    and "jwk_x (ik_kem (pk_keys (pk_protected pk))) = encode_base64url_nopad (replicate 32 1)"
    by (subst stated, simp)+
  with verified show ?thesis by blast
qed

section \<open>A key id names one statement\<close>

lemma se_inject:
  "se_attestation a = se_attestation a' \<longleftrightarrow> a = a'"
  "se_binding_claims b = se_binding_claims b' \<longleftrightarrow> b = b'"
  "se_identity_keys k = se_identity_keys k' \<longleftrightarrow> k = k'"
  by (metis de_se_attestation de_se_binding_claims de_se_identity_keys option.inject)+

lemma se_without_kid_inject:
  assumes "se_pk_without_kid p = se_pk_without_kid p'" and "pk_kid p = pk_kid p'"
  shows "p = p'"
  using assms
  by (cases "pk_binding_claims p"; cases "pk_created_at p"; cases "pk_binding_claims p'";
      cases "pk_created_at p'"; cases p; cases p')
     (auto simp: se_pk_without_kid_def se_inject)

text \<open>
  C32. A key id names one statement: two verified public key documents with the same key id have
  the same protected part, every field of it, attestation and expiry included, provided the
  first 160 bits of SHA-256 do not collide on these two documents and the JSON printer's output
  reads back. A document edited after its key id was assigned no longer verifies under that id.
\<close>

theorem kid_identifies_statement:
  assumes "verify_signing_public_key J C pk = Inr v" and "verify_signing_public_key J C pk' = Inr v'"
    and "pk_kid (pk_protected pk) = pk_kid (pk_protected pk')"
    and "\<forall>m. length (cl_sha256 C m) = 32"
    and "take 20 (cl_sha256 C (jl_jcs J (se_pk_without_kid (pk_protected pk)))) =
        take 20 (cl_sha256 C (jl_jcs J (se_pk_without_kid (pk_protected pk')))) \<Longrightarrow>
      jl_jcs J (se_pk_without_kid (pk_protected pk)) = jl_jcs J (se_pk_without_kid (pk_protected pk'))"
    and "printer_reads_back J (se_pk_without_kid (pk_protected pk))"
    and "printer_reads_back J (se_pk_without_kid (pk_protected pk'))"
  shows "pk_protected pk = pk_protected pk'"
proof -
  have wf: "wf_json (se_pk_without_kid p)" if "all_integers_safe (se_pk_protected p)" for p
    using that
    by (cases "pk_binding_claims p"; cases "pk_created_at p")
       (auto simp: se_pk_protected_def se_pk_without_kid_def se_binding_claims_def se_github_account_def
         opt_member_def less_char_def split: option.splits)
  have "derived_kid_of J C (pk_protected pk) = derived_kid_of J C (pk_protected pk')"
    and safe: "all_integers_safe (se_pk_protected (pk_protected pk))"
      "all_integers_safe (se_pk_protected (pk_protected pk'))"
    using assms(1-3) by (auto simp: verify_signing_public_key_Inr verify_self_signature_iff)
  then have "take 20 (cl_sha256 C (jl_jcs J (se_pk_without_kid (pk_protected pk)))) =
      take 20 (cl_sha256 C (jl_jcs J (se_pk_without_kid (pk_protected pk'))))"
    using assms(4) by (intro encode_crockford_inj) (simp_all add: derived_kid_of_def)
  then have "se_pk_without_kid (pk_protected pk) = se_pk_without_kid (pk_protected pk')"
    using assms(5-7) wf safe jcs_inject by blast
  then show ?thesis using assms(3) by (rule se_without_kid_inject)
qed

text \<open>Two generated statements and a library that carries what their ids are derived from.\<close>

definition sample_attestation :: attestation where
  "sample_attestation =
     \<lparr>att_method = ATTESTATION_METHOD_SSH_SIGN, att_pub = ed25519_line sample_ssh_key,
      att_sig = encode_base64url_nopad (case build_sshsig_signed_data sample_crypto [2] ATTESTATION_NAMESPACE of
        Inr d \<Rightarrow> cl_ed_sign sample_crypto sample_ssh_key d | Inl _ \<Rightarrow> [])\<rparr>"

definition sample_statement :: "string \<Rightarrow> public_key_protected" where
  "sample_statement h =
     \<lparr>pk_format = PUBLIC_KEY_V1, pk_subject_handle = h, pk_kid = [],
      pk_keys = build_identity_keys (replicate 32 1) (replicate 32 2), pk_binding_claims = None,
      pk_attestation = sample_attestation, pk_expires_at = ''2027-01-01T00:00:00Z'',
      pk_created_at = Some ''2026-01-01T00:00:00Z''\<rparr>"

definition sample_statements :: json_lib where
  "sample_statements =
     sample_lib [se_pk_without_kid (sample_statement ''alice''), se_pk_without_kid (sample_statement ''bob'')]"

lemma sample_statement_generated:
  assumes "h = ''alice'' \<or> h = ''bob''"
  shows "\<exists>pk. build_public_key_document sample_statements sample_crypto
      \<lparr>kdp_member_handle = h, kdp_created_at = ''2026-01-01T00:00:00Z'',
       kdp_expires_at = ''2027-01-01T00:00:00Z'', kdp_github_account = None\<rparr>
      sample_material sample_binding () = (Inr pk, ()) \<and>
    se_pk_without_kid (pk_protected pk) = se_pk_without_kid (sample_statement h) \<and>
    pk_subject_handle (pk_protected pk) = h"
proof -
  have body: "jl_jcs sample_statements (JObj [(''created_at'', a), (''expires_at'', b), (''keys'', c), (''p'', d), (''subject_handle'', e)]) = [2]"
    for a b c d e
    by (simp add: sample_statements_def sample_lib_def se_pk_without_kid_def sample_statement_def)
  have safe: "all_integers_safe (se_identity_keys k)" "all_integers_safe (se_attestation a)" for k a
    by (simp_all add: se_identity_keys_def se_jwk_def se_attestation_def)
  obtain d where d: "build_sshsig_signed_data sample_crypto [2] ATTESTATION_NAMESPACE = Inr d"
    by (auto simp: signed_data_Inr ATTESTATION_NAMESPACE_def U32_MAX_def)
  have att: "build_attestation sample_statements sample_binding
      \<lparr>abi_subject_handle = h, abi_keys = build_identity_keys (replicate 32 1) (replicate 32 2),
       abi_binding_claims = None, abi_created_at = Some ''2026-01-01T00:00:00Z'',
       abi_expires_at = ''2027-01-01T00:00:00Z''\<rparr> () = (Inr sample_attestation, ())"
    using d safe
    by (simp add: build_attestation_def build_attestation_body_bytes_def jcs_normalize_def
        se_attestation_body_def body sample_binding_def sample_attestation_def)
  have "\<exists>pk. build_public_key sample_statements sample_crypto
      \<lparr>pp_subject_handle = h, pp_kid = [], pp_keys = build_identity_keys (replicate 32 1) (replicate 32 2),
       pp_binding_claims = None, pp_attestation = sample_attestation,
       pp_expires_at = ''2027-01-01T00:00:00Z'', pp_created_at = Some ''2026-01-01T00:00:00Z'',
       pp_signature = []\<rparr> (replicate 32 2) = Inr pk"
    using safe
    by (simp add: build_public_key_def derive_public_key_kid_def jcs_normalize_def se_pk_without_kid_def
        se_pk_protected_def Let_def)
  then obtain pk where pk: "build_public_key sample_statements sample_crypto
      \<lparr>pp_subject_handle = h, pp_kid = [], pp_keys = build_identity_keys (replicate 32 1) (replicate 32 2),
       pp_binding_claims = None, pp_attestation = sample_attestation,
       pp_expires_at = ''2027-01-01T00:00:00Z'', pp_created_at = Some ''2026-01-01T00:00:00Z'',
       pp_signature = []\<rparr> (replicate 32 2) = Inr pk" ..
  have "se_pk_without_kid (pk_protected pk) = se_pk_without_kid (sample_statement h)"
    "pk_subject_handle (pk_protected pk) = h"
    by (subst build_public_key_Inr(1) [OF pk]; simp add: sample_statement_def se_pk_without_kid_def)+
  with att pk show ?thesis
    by (simp add: build_public_key_document_def sample_material_def build_binding_claims_def Let_def)
qed

lemma sample_statement_verifies:
  assumes "h = ''alice'' \<or> h = ''bob''"
  shows "\<exists>pk. is_ok (verify_signing_public_key sample_statements sample_crypto pk) \<and>
    se_pk_without_kid (pk_protected pk) = se_pk_without_kid (sample_statement h) \<and>
    pk_subject_handle (pk_protected pk) = h"
proof -
  from sample_statement_generated [OF assms] obtain pk where pk:
    "build_public_key_document sample_statements sample_crypto
      \<lparr>kdp_member_handle = h, kdp_created_at = ''2026-01-01T00:00:00Z'',
       kdp_expires_at = ''2027-01-01T00:00:00Z'', kdp_github_account = None\<rparr>
      sample_material sample_binding () = (Inr pk, ())"
    and rest: "se_pk_without_kid (pk_protected pk) = se_pk_without_kid (sample_statement h)"
    "pk_subject_handle (pk_protected pk) = h" by blast
  have "is_ok (verify_signing_public_key sample_statements sample_crypto pk)"
    using generated_document(1) [OF pk _ _ sample_binding_signs]
    by (simp add: sample_material_def is_ok_iff)
  with rest show ?thesis by blast
qed

lemma kid_identifies_statement_witness:
  "\<exists>pk pk'. is_ok (verify_signing_public_key sample_statements sample_crypto pk) \<and>
     is_ok (verify_signing_public_key sample_statements sample_crypto pk') \<and>
     pk_kid (pk_protected pk) \<noteq> pk_kid (pk_protected pk')"
proof -
  let ?J = sample_statements
  let ?w = "\<lambda>h. se_pk_without_kid (sample_statement h)"
  have wf: "wf_json (?w h)" for h
    by (simp add: sample_statement_def se_pk_without_kid_def less_char_def)
  have diff: "?w ''alice'' \<noteq> ?w ''bob''" by (simp add: se_pk_without_kid_def sample_statement_def)
  have reads: "printer_reads_back ?J (?w h)" if "h = ''alice'' \<or> h = ''bob''" for h
  proof -
    have "storable ?J SchemaKvHead (?w h)"
      unfolding sample_statements_def by (rule sample_lib_storable) (use that wf in auto)
    then show ?thesis by (simp add: storable_def printer_reads_back_def)
  qed
  have sha: "take 20 (cl_sha256 sample_crypto (jl_jcs ?J (?w ''alice''))) \<noteq>
      take 20 (cl_sha256 sample_crypto (jl_jcs ?J (?w ''bob'')))"
    using diff by (simp add: sample_crypto_def sample_statements_def sample_lib_def digest_def)
  obtain a b where a: "is_ok (verify_signing_public_key ?J sample_crypto a)" "se_pk_without_kid (pk_protected a) = ?w ''alice''"
      "pk_subject_handle (pk_protected a) = ''alice''"
    and b: "is_ok (verify_signing_public_key ?J sample_crypto b)" "se_pk_without_kid (pk_protected b) = ?w ''bob''"
      "pk_subject_handle (pk_protected b) = ''bob''"
    using sample_statement_verifies [of "''alice''"] sample_statement_verifies [of "''bob''"] by auto
  obtain va vb where v: "verify_signing_public_key ?J sample_crypto a = Inr va"
      "verify_signing_public_key ?J sample_crypto b = Inr vb"
    using a(1) b(1) by (auto simp: is_ok_iff)
  have "pk_protected a = pk_protected b" if "pk_kid (pk_protected a) = pk_kid (pk_protected b)"
    by (rule kid_identifies_statement [OF v that]) (use sha reads in \<open>simp_all add: a(2) b(2)\<close>)
  then have "pk_kid (pk_protected a) \<noteq> pk_kid (pk_protected b)" using a(3) b(3) by auto
  with a b show ?thesis by blast
qed

end
