(* ===== verification/Private_Keys.thy ===== *)
theory Private_Keys
  imports Public_Keys Envelope
begin

text \<open>
  Private keys at rest: the documents of \<open>model/private_key.rs\<close>, their protection by an SSH
  signature or a password (\<open>feature/key/protection/*.rs\<close>), key generation
  (\<open>feature/key/generate.rs\<close>), loading a key pair (\<open>feature/context/crypto/loader.rs\<close>), and the
  portable form of a key (\<open>feature/key/portable_export.rs\<close>, \<open>feature/context/env_key.rs\<close>). Fresh
  salts and nonces are arguments. An SSH backend may answer differently from call to call; its
  state is threaded through every signature.
\<close>

section \<open>JSON of a private key\<close>

fun se_private_key_algorithm :: "private_key_algorithm \<Rightarrow> json" where
  "se_private_key_algorithm (SshSig fpr ikm_salt hkdf_salt aead) = JObj
     [(''aead'', JStr aead), (''fpr'', JStr fpr), (''hkdf_salt'', JStr hkdf_salt),
      (''ikm_salt'', JStr ikm_salt), (''kdf'', JStr ''sshsig-ed25519-hkdf-sha256'')]"
| "se_private_key_algorithm (Argon2id ikm_salt hkdf_salt aead) = JObj
     [(''aead'', JStr aead), (''hkdf_salt'', JStr hkdf_salt), (''ikm_salt'', JStr ikm_salt),
      (''kdf'', JStr ''argon2id-m64t3p4-hkdf-sha256'')]"

definition de_private_key_algorithm :: "json \<Rightarrow> private_key_algorithm option" where
  "de_private_key_algorithm j =
     (case j of
        JObj ms \<Rightarrow> Option.bind (get_field de_str ''kdf'' ms) (\<lambda>kdf.
          if kdf = ''sshsig-ed25519-hkdf-sha256'' then
            with_object [''kdf'', ''fpr'', ''ikm_salt'', ''hkdf_salt'', ''aead''] (\<lambda>ms.
              Option.bind (get_field de_str ''fpr'' ms) (\<lambda>fpr.
              Option.bind (get_field de_str ''ikm_salt'' ms) (\<lambda>ikm_salt.
              Option.bind (get_field de_str ''hkdf_salt'' ms) (\<lambda>hkdf_salt.
              Option.bind (get_field de_str ''aead'' ms) (\<lambda>aead.
              Some (SshSig fpr ikm_salt hkdf_salt aead)))))) j
          else if kdf = ''argon2id-m64t3p4-hkdf-sha256'' then
            with_object [''kdf'', ''ikm_salt'', ''hkdf_salt'', ''aead''] (\<lambda>ms.
              Option.bind (get_field de_str ''ikm_salt'' ms) (\<lambda>ikm_salt.
              Option.bind (get_field de_str ''hkdf_salt'' ms) (\<lambda>hkdf_salt.
              Option.bind (get_field de_str ''aead'' ms) (\<lambda>aead.
              Some (Argon2id ikm_salt hkdf_salt aead))))) j
          else None)
      | _ \<Rightarrow> None)"

definition se_private_key_protected :: "private_key_protected \<Rightarrow> json" where
  "se_private_key_protected p = JObj
     [(''alg'', se_private_key_algorithm (prp_alg p)), (''created_at'', JStr (prp_created_at p)),
      (''expires_at'', JStr (prp_expires_at p)), (''format'', JStr (prp_format p)),
      (''kid'', JStr (prp_kid p)), (''subject_handle'', JStr (prp_subject_handle p))]"

definition de_private_key_protected :: "json \<Rightarrow> private_key_protected option" where
  "de_private_key_protected = with_object [''format'', ''subject_handle'', ''kid'', ''alg'',
       ''created_at'', ''expires_at''] (\<lambda>ms.
     Option.bind (get_field de_str ''format'' ms) (\<lambda>format.
     Option.bind (get_field de_str ''subject_handle'' ms) (\<lambda>subject_handle.
     Option.bind (get_field de_str ''kid'' ms) (\<lambda>kid.
     Option.bind (get_field de_private_key_algorithm ''alg'' ms) (\<lambda>alg.
     Option.bind (get_field de_str ''created_at'' ms) (\<lambda>created_at.
     Option.bind (get_field de_str ''expires_at'' ms) (\<lambda>expires_at.
     Some \<lparr>prp_format = format, prp_subject_handle = subject_handle, prp_kid = kid, prp_alg = alg,
           prp_created_at = created_at, prp_expires_at = expires_at\<rparr>)))))))"

definition se_private_key :: "private_key \<Rightarrow> json" where
  "se_private_key k = JObj
     [(''encrypted'', JObj [(''ct'', JStr (ped_ct (prk_encrypted k))),
                            (''nonce'', JStr (ped_nonce (prk_encrypted k)))]),
      (''protected'', se_private_key_protected (prk_protected k))]"

definition de_private_key :: "json \<Rightarrow> private_key option" where
  "de_private_key = with_object [''protected'', ''encrypted''] (\<lambda>ms.
     Option.bind (get_field de_private_key_protected ''protected'' ms) (\<lambda>protected.
     Option.bind (get_field (with_object [''nonce'', ''ct''] (\<lambda>cs.
       Option.bind (get_field de_str ''nonce'' cs) (\<lambda>nonce.
       Option.bind (get_field de_str ''ct'' cs) (\<lambda>ct.
       Some \<lparr>ped_nonce = nonce, ped_ct = ct\<rparr>)))) ''encrypted'' ms) (\<lambda>encrypted.
     Some \<lparr>prk_protected = protected, prk_encrypted = encrypted\<rparr>)))"

lemma de_se_private_key_algorithm [simp]:
  "de_private_key_algorithm (se_private_key_algorithm a) = Some a"
  by (cases a) (simp_all add: de_private_key_algorithm_def)

lemma de_se_private_key [simp]: "de_private_key (se_private_key k) = Some k"
  by (simp add: de_private_key_def se_private_key_def de_private_key_protected_def
      se_private_key_protected_def)

lemma private_key_integers [simp]:
  "all_integers_safe (se_private_key_protected p)" "all_integers_safe (se_private_key k)"
  by (cases "prp_alg p"; simp add: se_private_key_protected_def)
     (cases "prp_alg (prk_protected k)"; simp add: se_private_key_def se_private_key_protected_def)

definition parse_private_key_bytes :: "json_lib \<Rightarrow> u8 list \<Rightarrow> private_key res" where
  "parse_private_key_bytes J bytes = parse_json_document_bytes J SchemaPrivateKey de_private_key bytes"

text \<open>The secret half is printed and read by \<open>serde_json\<close> directly.\<close>

record plaintext_codec =
  pc_print :: "private_key_plaintext \<Rightarrow> u8 list option"
  pc_parse :: "u8 list \<Rightarrow> private_key_plaintext option"

definition plaintext_codec_ok :: "plaintext_codec \<Rightarrow> bool" where
  "plaintext_codec_ok P \<longleftrightarrow> (\<forall>k bs. pc_print P k = Some bs \<longrightarrow> pc_parse P bs = Some k)"

section \<open>Protection material\<close>

definition PRIVATE_KEY_V1 :: string where "PRIVATE_KEY_V1 = ''kapsaro:format:private-key@1''"
definition HKDF_INFO_PRIVATE_KEY_SSHSIG_V1 :: string where
  "HKDF_INFO_PRIVATE_KEY_SSHSIG_V1 = ''kapsaro:hkdf-info:private-key:sshsig@1''"
definition HKDF_INFO_PRIVATE_KEY_PASSWORD_V1 :: string where
  "HKDF_INFO_PRIVATE_KEY_PASSWORD_V1 = ''kapsaro:hkdf-info:private-key:password@1''"

record fresh_material =
  fm_ikm_salt :: "u8 list"
  fm_hkdf_salt :: "u8 list"
  fm_nonce :: "u8 list"

record protection_metadata =
  pm_member_handle :: string
  pm_kid :: string
  pm_created_at :: string
  pm_expires_at :: string

definition build_private_key_protected ::
  "protection_metadata \<Rightarrow> private_key_algorithm \<Rightarrow> private_key_protected" where
  "build_private_key_protected m alg =
     \<lparr>prp_format = PRIVATE_KEY_V1, prp_subject_handle = pm_member_handle m, prp_kid = pm_kid m,
      prp_alg = alg, prp_created_at = pm_created_at m, prp_expires_at = pm_expires_at m\<rparr>"

definition build_sshsig_algorithm :: "string \<Rightarrow> fresh_material \<Rightarrow> private_key_algorithm" where
  "build_sshsig_algorithm fpr m =
     SshSig fpr (encode_base64url_nopad (fm_ikm_salt m)) (encode_base64url_nopad (fm_hkdf_salt m))
       AEAD_XCHACHA20_POLY1305"

definition build_argon2id_algorithm :: "fresh_material \<Rightarrow> private_key_algorithm" where
  "build_argon2id_algorithm m =
     Argon2id (encode_base64url_nopad (fm_ikm_salt m)) (encode_base64url_nopad (fm_hkdf_salt m))
       AEAD_XCHACHA20_POLY1305"

definition build_private_key_aad :: "json_lib \<Rightarrow> private_key_protected \<Rightarrow> u8 list res" where
  "build_private_key_aad J p = jcs_normalize J (se_private_key_protected p)"

definition validate_aead_algorithm :: "string \<Rightarrow> unit res" where
  "validate_aead_algorithm aead =
     (if aead = AEAD_XCHACHA20_POLY1305 then Inr () else Inl (plain_error Crypto))"

definition decode_hkdf_salt :: "private_key \<Rightarrow> u8 list res" where
  "decode_hkdf_salt k = decode_base64url_nopad_array 32 (alg_hkdf_salt (prp_alg (prk_protected k)))"

definition decode_ikm_salt :: "private_key \<Rightarrow> u8 list res" where
  "decode_ikm_salt k = decode_base64url_nopad_array 32 (alg_ikm_salt (prp_alg (prk_protected k)))"

definition encrypt_private_key_plaintext ::
  "json_lib \<Rightarrow> crypto_lib \<Rightarrow> plaintext_codec \<Rightarrow> u8 list \<Rightarrow> private_key_plaintext \<Rightarrow> u8 list \<Rightarrow>
   private_key_protected \<Rightarrow> private_key_enc_data res" where
  "encrypt_private_key_plaintext J C P fresh_nonce plaintext enc_key protected =
     res_bind (ok_or (plain_error Crypto) (pc_print P plaintext)) (\<lambda>plaintext_json.
     res_bind (build_private_key_aad J protected) (\<lambda>aad.
     res_bind (xchacha_encrypt C enc_key fresh_nonce aad plaintext_json) (\<lambda>(ct, nonce).
     Inr \<lparr>ped_nonce = encode_base64url_nopad nonce, ped_ct = encode_base64url_nopad ct\<rparr>)))"

record ciphertext_params =
  cp_nonce :: "u8 list"
  cp_ct :: "u8 list"
  cp_aad :: "u8 list"

definition decode_ciphertext_params :: "json_lib \<Rightarrow> private_key \<Rightarrow> ciphertext_params res" where
  "decode_ciphertext_params J k =
     res_bind (decode_base64url_nopad_array 24 (ped_nonce (prk_encrypted k))) (\<lambda>nonce.
     res_bind (decode_base64url_nopad (ped_ct (prk_encrypted k))) (\<lambda>ct.
     res_bind (build_private_key_aad J (prk_protected k)) (\<lambda>aad.
     Inr \<lparr>cp_nonce = nonce, cp_ct = ct, cp_aad = aad\<rparr>)))"

definition decrypt_private_key_plaintext ::
  "crypto_lib \<Rightarrow> plaintext_codec \<Rightarrow> u8 list \<Rightarrow> ciphertext_params \<Rightarrow> private_key_plaintext res" where
  "decrypt_private_key_plaintext C P enc_key params =
     res_bind (xchacha_decrypt C enc_key (cp_nonce params) (cp_aad params) (cp_ct params)) (\<lambda>plaintext_json.
     ok_or (plain_error Crypto) (pc_parse P plaintext_json))"

section \<open>Protection by an SSH signature\<close>

definition SSHSIG_MESSAGE_PREFIX_PRIVATE_KEY_PROTECTION_V1 :: string where
  "SSHSIG_MESSAGE_PREFIX_PRIVATE_KEY_PROTECTION_V1 = ''kapsaro:sshsig:private-key:protection@1''"

definition build_sign_message :: "string \<Rightarrow> string" where
  "build_sign_message ikm_salt_b64 =
     SSHSIG_MESSAGE_PREFIX_PRIVATE_KEY_PROTECTION_V1 @ [LF] @ ikm_salt_b64"

text \<open>
  The determinism check of a signature made to protect a key. A disagreement of the two signatures
  is reported as a crypto error, an error of the backend as it is.
\<close>

definition sign_for_private_key_encryption ::
  "'s backend \<Rightarrow> string \<Rightarrow> u8 list \<Rightarrow> 's \<Rightarrow> u8 list res \<times> 's" where
  "sign_for_private_key_encryption sign_sshsig ssh_pubkey message st =
     (case sign_sshsig KEY_PROTECTION_NAMESPACE ssh_pubkey message st of
        (Inl e, st) \<Rightarrow> (Inl e, st)
      | (Inr sig1, st) \<Rightarrow> (case sign_sshsig KEY_PROTECTION_NAMESPACE ssh_pubkey message st of
          (Inl e, st) \<Rightarrow> (Inl e, st)
        | (Inr sig2, st) \<Rightarrow> (if sig1 \<noteq> sig2 then Inl (plain_error Crypto) else Inr sig1, st)))"

definition derive_key_from_raw_signature ::
  "crypto_lib \<Rightarrow> string \<Rightarrow> u8 list \<Rightarrow> u8 list \<Rightarrow> u8 list res" where
  "derive_key_from_raw_signature C kid raw_sig hkdf_salt =
     derive_hkdf_sha256_array C raw_sig hkdf_salt
       (as_bytes (HKDF_INFO_PRIVATE_KEY_SSHSIG_V1 @ '':'' @ kid))"

definition derive_key_from_ssh ::
  "crypto_lib \<Rightarrow> string \<Rightarrow> string \<Rightarrow> u8 list \<Rightarrow> 's backend \<Rightarrow> string \<Rightarrow> 's \<Rightarrow> u8 list res \<times> 's" where
  "derive_key_from_ssh C kid ikm_salt_b64 hkdf_salt sign_sshsig ssh_pubkey st =
     (case sign_for_private_key_encryption sign_sshsig ssh_pubkey
             (as_bytes (build_sign_message ikm_salt_b64)) st of
        (r, st) \<Rightarrow> (res_bind r (\<lambda>raw. derive_key_from_raw_signature C kid raw hkdf_salt), st))"

text \<open>The key and the signature it was derived from.\<close>

definition derive_key_for_private_key_use ::
  "crypto_lib \<Rightarrow> string \<Rightarrow> string \<Rightarrow> u8 list \<Rightarrow> 's backend \<Rightarrow> string \<Rightarrow> 's \<Rightarrow> (u8 list \<times> u8 list) res \<times> 's" where
  "derive_key_for_private_key_use C kid ikm_salt_b64 hkdf_salt sign_sshsig ssh_pubkey st =
     (case sign_sshsig KEY_PROTECTION_NAMESPACE ssh_pubkey (as_bytes (build_sign_message ikm_salt_b64)) st of
        (r, st) \<Rightarrow> (res_bind r (\<lambda>raw. res_map (\<lambda>k. (k, raw)) (derive_key_from_raw_signature C kid raw hkdf_salt)), st))"

definition enforce_private_key_use_determinism ::
  "private_key \<Rightarrow> 's backend \<Rightarrow> string \<Rightarrow> u8 list \<Rightarrow> 's \<Rightarrow> unit res \<times> 's" where
  "enforce_private_key_use_determinism k sign_sshsig ssh_pubkey expected st =
     (case sign_sshsig KEY_PROTECTION_NAMESPACE ssh_pubkey
             (as_bytes (build_sign_message (alg_ikm_salt (prp_alg (prk_protected k))))) st of
        (r, st) \<Rightarrow> (res_bind r (\<lambda>retry. if retry \<noteq> expected then Inl (plain_error Crypto) else Inr ()), st))"

definition normalize_fingerprint_prefix :: "string \<Rightarrow> string" where
  "normalize_fingerprint_prefix fingerprint =
     (if 7 \<le> length fingerprint \<and> eq_ignore_ascii_case (take 7 fingerprint) ''SHA256:''
      then ''SHA256:'' @ drop 7 fingerprint else fingerprint)"

definition verify_ssh_fingerprint_matches :: "crypto_lib \<Rightarrow> private_key \<Rightarrow> string \<Rightarrow> unit res" where
  "verify_ssh_fingerprint_matches C k ssh_pubkey =
     (case prp_alg (prk_protected k) of
        SshSig expected _ _ _ \<Rightarrow>
          res_bind (build_sha256_fingerprint C ssh_pubkey) (\<lambda>actual.
          if normalize_fingerprint_prefix expected = normalize_fingerprint_prefix actual then Inr ()
          else Inl (plain_error Crypto))
      | _ \<Rightarrow> Inl (plain_error Crypto))"

definition validate_ssh_protection_algorithm :: "private_key \<Rightarrow> unit res" where
  "validate_ssh_protection_algorithm k =
     (case prp_alg (prk_protected k) of
        SshSig _ _ _ aead \<Rightarrow> validate_aead_algorithm aead
      | _ \<Rightarrow> Inl (plain_error Crypto))"

record 's private_key_encryption_params =
  pke_plaintext :: private_key_plaintext
  pke_metadata :: protection_metadata
  pke_backend :: "'s backend"
  pke_ssh_pubkey :: string
  pke_ssh_fpr :: string

definition encrypt_private_key ::
  "json_lib \<Rightarrow> crypto_lib \<Rightarrow> plaintext_codec \<Rightarrow> fresh_material \<Rightarrow> 's private_key_encryption_params \<Rightarrow> 's \<Rightarrow>
   private_key res \<times> 's" where
  "encrypt_private_key J C P m params st =
     (let protected = build_private_key_protected (pke_metadata params)
            (build_sshsig_algorithm (pke_ssh_fpr params) m) in
      case derive_key_from_ssh C (pm_kid (pke_metadata params)) (encode_base64url_nopad (fm_ikm_salt m))
             (fm_hkdf_salt m) (pke_backend params) (pke_ssh_pubkey params) st of
        (r, st) \<Rightarrow> (res_bind r (\<lambda>enc_key.
           res_bind (encrypt_private_key_plaintext J C P (fm_nonce m) (pke_plaintext params) enc_key protected)
             (\<lambda>encrypted. Inr \<lparr>prk_protected = protected, prk_encrypted = encrypted\<rparr>)), st))"

definition decrypt_private_key ::
  "json_lib \<Rightarrow> crypto_lib \<Rightarrow> plaintext_codec \<Rightarrow> private_key \<Rightarrow> 's backend \<Rightarrow> string \<Rightarrow> 's \<Rightarrow>
   private_key_plaintext res \<times> 's" where
  "decrypt_private_key J C P k sign_sshsig ssh_pubkey st =
     (case res_bind (validate_ssh_protection_algorithm k) (\<lambda>_.
           res_bind (verify_ssh_fingerprint_matches C k ssh_pubkey) (\<lambda>_.
           res_bind (decode_hkdf_salt k) (\<lambda>hkdf_salt.
           res_bind (decode_ciphertext_params J k) (\<lambda>ciphertext. Inr (hkdf_salt, ciphertext))))) of
        Inl e \<Rightarrow> (Inl e, st)
      | Inr (hkdf_salt, ciphertext) \<Rightarrow>
          (case derive_key_for_private_key_use C (prp_kid (prk_protected k))
                  (alg_ikm_salt (prp_alg (prk_protected k))) hkdf_salt sign_sshsig ssh_pubkey st of
             (Inl e, st) \<Rightarrow> (Inl e, st)
           | (Inr (enc_key, raw_sig), st) \<Rightarrow>
               (case decrypt_private_key_plaintext C P enc_key ciphertext of
                  Inr plaintext \<Rightarrow> (Inr plaintext, st)
                | Inl _ \<Rightarrow>
                    (case enforce_private_key_use_determinism k sign_sshsig ssh_pubkey raw_sig st of
                       (Inl e, st) \<Rightarrow> (Inl e, st)
                     | (Inr _, st) \<Rightarrow> (Inl (plain_error Crypto), st)))))"

section \<open>Protection by a password\<close>

definition argon2id_hash :: "crypto_lib \<Rightarrow> string \<Rightarrow> u8 list \<Rightarrow> u8 list res" where
  "argon2id_hash C password salt = ok_or (plain_error Crypto) (cl_argon2 C (as_bytes password) salt)"

definition derive_key_from_password ::
  "crypto_lib \<Rightarrow> string \<Rightarrow> u8 list \<Rightarrow> u8 list \<Rightarrow> string \<Rightarrow> u8 list res" where
  "derive_key_from_password C password ikm_salt hkdf_salt kid =
     res_bind (argon2id_hash C password ikm_salt) (\<lambda>ikm.
     derive_hkdf_sha256_array C ikm hkdf_salt
       (as_bytes (HKDF_INFO_PRIVATE_KEY_PASSWORD_V1 @ '':'' @ kid)))"

definition encrypt_private_key_with_password ::
  "json_lib \<Rightarrow> crypto_lib \<Rightarrow> plaintext_codec \<Rightarrow> fresh_material \<Rightarrow> private_key_plaintext \<Rightarrow>
   protection_metadata \<Rightarrow> string \<Rightarrow> private_key res" where
  "encrypt_private_key_with_password J C P m plaintext metadata password =
     (let protected = build_private_key_protected metadata (build_argon2id_algorithm m) in
      res_bind (derive_key_from_password C password (fm_ikm_salt m) (fm_hkdf_salt m) (pm_kid metadata)) (\<lambda>enc_key.
      res_bind (encrypt_private_key_plaintext J C P (fm_nonce m) plaintext enc_key protected) (\<lambda>encrypted.
      Inr \<lparr>prk_protected = protected, prk_encrypted = encrypted\<rparr>)))"

definition decrypt_private_key_with_password ::
  "json_lib \<Rightarrow> crypto_lib \<Rightarrow> plaintext_codec \<Rightarrow> private_key \<Rightarrow> string \<Rightarrow> private_key_plaintext res" where
  "decrypt_private_key_with_password J C P k password =
     res_bind (case prp_alg (prk_protected k) of
         Argon2id _ _ aead \<Rightarrow> validate_aead_algorithm aead
       | _ \<Rightarrow> Inl (plain_error Crypto)) (\<lambda>_.
     res_bind (decode_ikm_salt k) (\<lambda>ikm_salt.
     res_bind (decode_hkdf_salt k) (\<lambda>hkdf_salt.
     res_bind (decode_ciphertext_params J k) (\<lambda>ciphertext.
     res_bind (derive_key_from_password C password ikm_salt hkdf_salt (prp_kid (prk_protected k))) (\<lambda>enc_key.
     map_err (\<lambda>_. plain_error Crypto) (decrypt_private_key_plaintext C P enc_key ciphertext))))))"

section \<open>Generating and loading a key pair\<close>

record key_generation_options =
  kgo_params :: key_document_params
  kgo_material_kem :: "u8 list"
  kgo_material_sig :: "u8 list"
  kgo_fresh :: fresh_material

record key_generation_result =
  kgr_kid :: string
  kgr_private_key :: private_key
  kgr_public_key :: public_key

definition encrypt_private_key_document ::
  "json_lib \<Rightarrow> crypto_lib \<Rightarrow> plaintext_codec \<Rightarrow> fresh_material \<Rightarrow> key_document_params \<Rightarrow> keypair_material \<Rightarrow>
   string \<Rightarrow> 's ssh_binding \<Rightarrow> 's \<Rightarrow> private_key res \<times> 's" where
  "encrypt_private_key_document J C P m rq km kid binding st =
     encrypt_private_key J C P m
       \<lparr>pke_plaintext = build_private_key_plaintext (km_kem_sk km) (km_kem_pk km) (km_sig_sk km) (km_sig_pk km),
        pke_metadata = \<lparr>pm_member_handle = kdp_member_handle rq, pm_kid = kid,
          pm_created_at = kdp_created_at rq, pm_expires_at = kdp_expires_at rq\<rparr>,
        pke_backend = sb_backend binding, pke_ssh_pubkey = sb_public_key binding,
        pke_ssh_fpr = sb_fingerprint binding\<rparr> st"

definition build_key_documents ::
  "json_lib \<Rightarrow> crypto_lib \<Rightarrow> plaintext_codec \<Rightarrow> key_generation_options \<Rightarrow> 's ssh_binding \<Rightarrow> 's \<Rightarrow>
   key_generation_result res \<times> 's" where
  "build_key_documents J C P opts binding st =
     (case generate_keypairs C (kgo_material_kem opts) (kgo_material_sig opts) of
        Inl e \<Rightarrow> (Inl e, st)
      | Inr km \<Rightarrow> (case build_public_key_document J C (kgo_params opts) km binding st of
          (Inl e, st) \<Rightarrow> (Inl e, st)
        | (Inr public_key, st) \<Rightarrow>
            (let kid = pk_kid (pk_protected public_key) in
             case encrypt_private_key_document J C P (kgo_fresh opts) (kgo_params opts) km kid binding st of
               (r, st) \<Rightarrow> (res_map (\<lambda>private_key.
                 \<lparr>kgr_kid = kid, kgr_private_key = private_key, kgr_public_key = public_key\<rparr>) r, st))))"

definition generate_key ::
  "json_lib \<Rightarrow> crypto_lib \<Rightarrow> plaintext_codec \<Rightarrow> key_generation_options \<Rightarrow> 's ssh_binding \<Rightarrow> 's \<Rightarrow>
   key_generation_result res \<times> 's" where
  "generate_key J C P opts binding st =
     (case ensure_determinism (sb_determinism binding) of
        Inl e \<Rightarrow> (Inl e, st)
      | Inr _ \<Rightarrow> build_key_documents J C P opts binding st)"

definition verify_private_key_matches_public_key :: "private_key \<Rightarrow> public_key \<Rightarrow> unit res" where
  "verify_private_key_matches_public_key private_key public_key =
     (if prp_subject_handle (prk_protected private_key) \<noteq> pk_subject_handle (pk_protected public_key)
        then Inl (verification_error ''V-PRIVATEKEY-PUBKEY-MISMATCH'')
      else if prp_kid (prk_protected private_key) \<noteq> pk_kid (pk_protected public_key)
        then Inl (verification_error ''V-PRIVATEKEY-PUBKEY-MISMATCH'')
      else Inr ())"

definition build_signing_key :: "private_key_plaintext \<Rightarrow> u8 list res" where
  "build_signing_key plaintext = decode_base64url_nopad_array 32 (jpk_d (ikp_sig (pkp_keys plaintext)))"

definition build_verified_private_key ::
  "crypto_lib \<Rightarrow> private_key_plaintext \<Rightarrow> string \<Rightarrow> string \<Rightarrow> string option \<Rightarrow> verified_private_key res" where
  "build_verified_private_key C plaintext handle kid fpr =
     res_bind (verify_private_key_material C plaintext) (\<lambda>_.
     Inr \<lparr>vpk_document = plaintext,
          vpk_proof = \<lparr>dp_member_handle = handle, dp_kid = kid, dp_ssh_fpr = fpr\<rparr>\<rparr>)"

definition extract_ssh_fingerprint :: "private_key \<Rightarrow> string res" where
  "extract_ssh_fingerprint k =
     (case prp_alg (prk_protected k) of SshSig fpr _ _ _ \<Rightarrow> Inr fpr | _ \<Rightarrow> Inl (plain_error Crypto))"

definition decrypt_key_pair ::
  "json_lib \<Rightarrow> crypto_lib \<Rightarrow> plaintext_codec \<Rightarrow> private_key \<Rightarrow> public_key \<Rightarrow> 's backend \<Rightarrow> string \<Rightarrow> 's \<Rightarrow>
   private_key_load_result res \<times> 's" where
  "decrypt_key_pair J C P encrypted public_key sign_sshsig ssh_pubkey st =
     (case res_bind (verify_public_key_with_attestation J C public_key) (\<lambda>verified.
           res_bind (verify_private_key_matches_public_key encrypted verified) (\<lambda>_. Inr verified)) of
        Inl e \<Rightarrow> (Inl e, st)
      | Inr verified \<Rightarrow>
          (case decrypt_private_key J C P encrypted sign_sshsig ssh_pubkey st of
             (Inl e, st) \<Rightarrow> (Inl e, st)
           | (Inr plaintext, st) \<Rightarrow>
               (res_bind (extract_ssh_fingerprint encrypted) (\<lambda>fpr.
                res_bind (build_verified_private_key C plaintext (prp_subject_handle (prk_protected encrypted))
                            (prp_kid (prk_protected encrypted)) (Some fpr)) (\<lambda>private_key.
                res_bind (local_key_identity_from_public_key verified) (\<lambda>identity.
                Inr \<lparr>pkl_private_key = private_key, pkl_key_identity = identity,
                     pkl_key_expiry = \<lparr>lke_private_expires_at = prp_expires_at (prk_protected encrypted),
                       lke_public_expires_at = Some (pk_expires_at (pk_protected verified))\<rparr>\<rparr>))), st)))"

section \<open>The portable form\<close>

datatype export_password_policy = Recommended | AllowWeak

definition MIN_PASSWORD_LENGTH :: nat where "MIN_PASSWORD_LENGTH = 8"
definition RECOMMENDED_PASSWORD_LENGTH :: nat where "RECOMMENDED_PASSWORD_LENGTH = 20"

definition enforce_recommended_password_length :: "string \<Rightarrow> unit res" where
  "enforce_recommended_password_length password =
     (if length password \<ge> RECOMMENDED_PASSWORD_LENGTH then Inr () else Inl (plain_error InvalidArgument))"

definition enforce_weak_password_floor :: "string \<Rightarrow> unit res" where
  "enforce_weak_password_floor password =
     (if length password \<ge> MIN_PASSWORD_LENGTH then Inr () else Inl (plain_error InvalidArgument))"

fun validate_export_password :: "string \<Rightarrow> export_password_policy \<Rightarrow> unit res" where
  "validate_export_password password Recommended = enforce_recommended_password_length password"
| "validate_export_password password AllowWeak = enforce_weak_password_floor password"

definition build_password_strength_warning :: "string \<Rightarrow> string option" where
  "build_password_strength_warning password =
     (if length password < MIN_PASSWORD_LENGTH \<or> length password \<ge> RECOMMENDED_PASSWORD_LENGTH then None
      else Some (''Password accepted below the recommended length.'' @ [LF] @
        ''Recommended: at least 20 bytes'' @ [LF] @ ''Risk: weaker offline brute-force resistance.''))"

definition export_private_key_portable ::
  "json_lib \<Rightarrow> crypto_lib \<Rightarrow> plaintext_codec \<Rightarrow> fresh_material \<Rightarrow> private_key_plaintext \<Rightarrow>
   protection_metadata \<Rightarrow> string \<Rightarrow> export_password_policy \<Rightarrow> string res" where
  "export_private_key_portable J C P m plaintext metadata password policy =
     res_bind (validate_export_password password policy) (\<lambda>_.
     res_bind (encrypt_private_key_with_password J C P m plaintext metadata password) (\<lambda>private_key.
     res_bind (jcs_normalize J (se_private_key private_key)) (\<lambda>jcs_bytes.
     Inr (encode_base64url_nopad jcs_bytes))))"

record env_key_parse_result =
  ekp_verified_key :: verified_private_key
  ekp_member_handle :: member_handle
  ekp_expires_at :: string

definition parse_password_protected_private_key :: "json_lib \<Rightarrow> u8 list \<Rightarrow> private_key res" where
  "parse_password_protected_private_key J json_bytes =
     res_bind (parse_private_key_bytes J json_bytes) (\<lambda>private_key.
     case prp_alg (prk_protected private_key) of
       Argon2id _ _ _ \<Rightarrow> Inr private_key
     | _ \<Rightarrow> Inl (plain_error Config))"

definition build_env_key_parse_result ::
  "json_lib \<Rightarrow> crypto_lib \<Rightarrow> plaintext_codec \<Rightarrow> private_key \<Rightarrow> string \<Rightarrow> env_key_parse_result res" where
  "build_env_key_parse_result J C P private_key password =
     (let p = prk_protected private_key in
      res_bind (decrypt_private_key_with_password J C P private_key password) (\<lambda>plaintext.
      res_bind (build_verified_private_key C plaintext (prp_subject_handle p) (prp_kid p) None) (\<lambda>verified_key.
      res_bind (MemberHandle_new (prp_subject_handle p)) (\<lambda>handle.
      Inr \<lparr>ekp_verified_key = verified_key, ekp_member_handle = handle, ekp_expires_at = prp_expires_at p\<rparr>))))"

definition parse_env_key ::
  "json_lib \<Rightarrow> crypto_lib \<Rightarrow> plaintext_codec \<Rightarrow> string \<Rightarrow> string \<Rightarrow> env_key_parse_result res" where
  "parse_env_key J C P encoded password =
     res_bind (decode_base64url_nopad encoded) (\<lambda>json_bytes.
     res_bind (parse_password_protected_private_key J json_bytes) (\<lambda>private_key.
     build_env_key_parse_result J C P private_key password))"

section \<open>What is protected can be opened\<close>

definition material_fits :: "fresh_material \<Rightarrow> bool" where
  "material_fits m \<longleftrightarrow> length (fm_ikm_salt m) = 32 \<and> length (fm_hkdf_salt m) = 32 \<and> length (fm_nonce m) = 24"

definition plaintext_small :: "plaintext_codec \<Rightarrow> private_key_plaintext \<Rightarrow> bool" where
  "plaintext_small P k \<longleftrightarrow> (\<forall>bs. pc_print P k = Some bs \<longrightarrow> length bs \<le> MAX_PLAINTEXT_INPUT_SIZE)"

text \<open>A backend that, having signed a message once, gives the same signature ever after.\<close>

definition repeats_signatures :: "'s backend \<Rightarrow> string \<Rightarrow> bool" where
  "repeats_signatures sign_sshsig line \<longleftrightarrow>
     (\<forall>ns m st sig st' st2. sign_sshsig ns line m st = (Inr sig, st') \<longrightarrow>
        (\<exists>st2'. sign_sshsig ns line m st2 = (Inr sig, st2')))"

lemma encrypted_plaintext_opens:
  assumes "encrypt_private_key_plaintext J C P nonce plaintext key protected = Inr enc"
    and "aead_ok C" and "plaintext_codec_ok P" and "plaintext_small P plaintext" and "length nonce = 24"
  shows "\<exists>params. decode_ciphertext_params J \<lparr>prk_protected = protected, prk_encrypted = enc\<rparr> = Inr params \<and>
    decrypt_private_key_plaintext C P key params = Inr plaintext"
proof -
  from assms(1) obtain bs aad ct where bs: "pc_print P plaintext = Some bs"
    and aad: "build_private_key_aad J protected = Inr aad" and ct: "cl_aead_seal C key nonce aad bs = Some ct"
    and enc: "enc = \<lparr>ped_nonce = encode_base64url_nopad nonce, ped_ct = encode_base64url_nopad ct\<rparr>"
    by (auto simp: encrypt_private_key_plaintext_def xchacha_encrypt_def)
  have "length ct = length bs + AEAD_TAG_LENGTH" and dec: "cl_aead_open C key nonce aad ct = Some bs"
    using assms(2) ct by (auto simp: aead_ok_def)
  then have "url_fits MAX_BASE64_CIPHERTEXT_LENGTH ct"
    using assms(4) bs by (intro plaintext_limit_fits) (auto simp: plaintext_small_def)
  then have "decode_ciphertext_params J \<lparr>prk_protected = protected, prk_encrypted = enc\<rparr> =
      Inr \<lparr>cp_nonce = nonce, cp_ct = ct, cp_aad = aad\<rparr>"
    using assms(5) by (simp add: decode_ciphertext_params_def enc decode_array_iff url.dec_enc aad)
  moreover have "pc_parse P bs = Some plaintext" using assms(3) bs by (simp add: plaintext_codec_ok_def)
  ultimately show ?thesis by (simp add: decrypt_private_key_plaintext_def xchacha_decrypt_def dec)
qed

lemma password_protected_opens:
  assumes "encrypt_private_key_with_password J C P m plaintext metadata password = Inr k"
    and "aead_ok C" and "plaintext_codec_ok P" and "plaintext_small P plaintext" and "material_fits m"
  shows "prk_protected k = build_private_key_protected metadata (build_argon2id_algorithm m)"
    and "decrypt_private_key_with_password J C P k password = Inr plaintext"
proof -
  let ?prot = "build_private_key_protected metadata (build_argon2id_algorithm m)"
  from assms(1) obtain key enc where
    key: "derive_key_from_password C password (fm_ikm_salt m) (fm_hkdf_salt m) (pm_kid metadata) = Inr key"
    and enc: "encrypt_private_key_plaintext J C P (fm_nonce m) plaintext key ?prot = Inr enc"
    and k: "k = \<lparr>prk_protected = ?prot, prk_encrypted = enc\<rparr>"
    by (auto simp: encrypt_private_key_with_password_def Let_def)
  then show "prk_protected k = ?prot" by simp
  obtain params where "decode_ciphertext_params J k = Inr params"
    "decrypt_private_key_plaintext C P key params = Inr plaintext"
    using encrypted_plaintext_opens [OF enc assms(2-4)] assms(5) unfolding k by (auto simp: material_fits_def)
  moreover have "decode_ikm_salt k = Inr (fm_ikm_salt m)" "decode_hkdf_salt k = Inr (fm_hkdf_salt m)"
    using assms(5) by (simp_all add: decode_ikm_salt_def decode_hkdf_salt_def k decode_array_iff
        build_private_key_protected_def build_argon2id_algorithm_def material_fits_def)
  ultimately show "decrypt_private_key_with_password J C P k password = Inr plaintext"
    using key by (simp add: decrypt_private_key_with_password_def k build_private_key_protected_def
        build_argon2id_algorithm_def validate_aead_algorithm_def)
qed

lemma ssh_protected_opens:
  assumes "encrypt_private_key J C P m params st = (Inr k, st')"
    and "aead_ok C" and "plaintext_codec_ok P" and "plaintext_small P (pke_plaintext params)"
    and "material_fits m" and "repeats_signatures (pke_backend params) (pke_ssh_pubkey params)"
    and "build_sha256_fingerprint C (pke_ssh_pubkey params) = Inr (pke_ssh_fpr params)"
  shows "prk_protected k = build_private_key_protected (pke_metadata params)
      (build_sshsig_algorithm (pke_ssh_fpr params) m)"
    and "\<exists>st3. decrypt_private_key J C P k (pke_backend params) (pke_ssh_pubkey params) st2 =
      (Inr (pke_plaintext params), st3)"
proof -
  let ?sign = "pke_backend params" and ?line = "pke_ssh_pubkey params"
  let ?prot = "build_private_key_protected (pke_metadata params) (build_sshsig_algorithm (pke_ssh_fpr params) m)"
  let ?msg = "as_bytes (build_sign_message (encode_base64url_nopad (fm_ikm_salt m)))"
  from assms(1) obtain raw key enc st1 where
    sig: "?sign KEY_PROTECTION_NAMESPACE ?line ?msg st = (Inr raw, st1)"
    and key: "derive_key_from_raw_signature C (pm_kid (pke_metadata params)) raw (fm_hkdf_salt m) = Inr key"
    and enc: "encrypt_private_key_plaintext J C P (fm_nonce m) (pke_plaintext params) key ?prot = Inr enc"
    and k: "k = \<lparr>prk_protected = ?prot, prk_encrypted = enc\<rparr>"
    by (auto simp: encrypt_private_key_def Let_def derive_key_from_ssh_def
        sign_for_private_key_encryption_def split: prod.splits sum.splits if_splits)
  then show "prk_protected k = ?prot" by simp
  obtain cps where cps: "decode_ciphertext_params J k = Inr cps"
    "decrypt_private_key_plaintext C P key cps = Inr (pke_plaintext params)"
    using encrypted_plaintext_opens [OF enc assms(2-4)] assms(5) unfolding k by (auto simp: material_fits_def)
  obtain st3 where "?sign KEY_PROTECTION_NAMESPACE ?line ?msg st2 = (Inr raw, st3)"
    using assms(6) sig unfolding repeats_signatures_def by blast
  moreover have "decode_hkdf_salt k = Inr (fm_hkdf_salt m)"
    using assms(5) by (simp add: decode_hkdf_salt_def k decode_array_iff
        build_private_key_protected_def build_sshsig_algorithm_def material_fits_def)
  ultimately have "decrypt_private_key J C P k ?sign ?line st2 = (Inr (pke_plaintext params), st3)"
    using cps key assms(7)
    by (simp add: decrypt_private_key_def k validate_ssh_protection_algorithm_def
        verify_ssh_fingerprint_matches_def derive_key_for_private_key_use_def
        build_private_key_protected_def build_sshsig_algorithm_def validate_aead_algorithm_def)
  then show "\<exists>st3. decrypt_private_key J C P k ?sign ?line st2 = (Inr (pke_plaintext params), st3)" ..
qed

lemma generated_material_consistent:
  assumes "generate_keypairs C kem_seed sig_seed = Inr km"
    and "length kem_seed = 32" and "length sig_seed = 32"
    and "length (km_kem_pk km) = 32" and "length (km_sig_pk km) = 32"
  shows "verify_private_key_material C
    (build_private_key_plaintext (km_kem_sk km) (km_kem_pk km) (km_sig_sk km) (km_sig_pk km)) = Inr ()"
proof -
  from assms(1) have "derive_public_key_from_secret C (km_kem_sk km) = Inr (km_kem_pk km)"
    "cl_ed_public C (km_sig_sk km) = km_sig_pk km" "km_kem_sk km = kem_seed" "km_sig_sk km = sig_seed"
    by (auto simp: generate_keypairs_def)
  moreover have "length bs = 32 \<Longrightarrow> decode_base64url_nopad_array 32 (encode_base64url_nopad bs) = Inr bs" for bs
    by (simp add: decode_array_iff)
  ultimately show ?thesis
    using assms(2-5) by (simp add: verify_private_key_material_def build_private_key_plaintext_def
        parse_okp_key_def verify_x25519_consistency_def verify_ed25519_consistency_def Let_def)
qed

lemma verify_attested_Inr:
  "verify_signing_public_key J C pk = Inr v \<Longrightarrow> verify_public_key_with_attestation J C pk = Inr pk"
  by (auto simp: verify_public_key_with_attestation_def verify_signing_public_key_Inr)

text \<open>
  C30. A generated key pair loads: whatever \<open>generate_key\<close> writes, \<open>decrypt_key_pair\<close> opens at any
  later time with a backend that repeats its signatures. The public half passes its full
  verification, the two halves belong together, the secret material is the one generated and
  consistent with the public one, and the identity and the two expiry dates reported are those of
  the request.
\<close>

theorem generated_key_pair_loads:
  assumes "generate_key J C P opts binding st = (Inr kgr, st')"
    and "aead_ok C" and "plaintext_codec_ok P"
    and "plaintext_small P (build_private_key_plaintext (km_kem_sk km) (km_kem_pk km) (km_sig_sk km) (km_sig_pk km))"
    and "material_fits (kgo_fresh opts)" and "\<forall>m. length (cl_sha256 C m) = 32"
    and "backend_signs C binding" and "repeats_signatures (sb_backend binding) (sb_public_key binding)"
    and "build_sha256_fingerprint C (sb_public_key binding) = Inr (sb_fingerprint binding)"
    and "generate_keypairs C (kgo_material_kem opts) (kgo_material_sig opts) = Inr km"
    and "length (kgo_material_kem opts) = 32" and "length (kgo_material_sig opts) = 32"
    and "length (km_kem_pk km) = 32" and "length (km_sig_pk km) = 32"
    and "ed25519_pair C (km_sig_sk km) (km_sig_pk km)"
    and "MemberHandle_new (kdp_member_handle (kgo_params opts)) = Inr handle"
  shows "\<exists>loaded st3. decrypt_key_pair J C P (kgr_private_key kgr) (kgr_public_key kgr) (sb_backend binding)
      (sb_public_key binding) st2 = (Inr loaded, st3) \<and>
    vpk_document (pkl_private_key loaded) =
      build_private_key_plaintext (km_kem_sk km) (km_kem_pk km) (km_sig_sk km) (km_sig_pk km) \<and>
    pkl_key_identity loaded = \<lparr>lki_member_handle = handle, lki_kid = Kid (kgr_kid kgr), lki_sig_x = km_sig_pk km\<rparr> \<and>
    expiry_dates (pkl_key_expiry loaded) = replicate 2 (kdp_expires_at (kgo_params opts))"
proof -
  let ?rq = "kgo_params opts"
  let ?params = "\<lambda>kid. \<lparr>pke_plaintext = build_private_key_plaintext (km_kem_sk km) (km_kem_pk km) (km_sig_sk km) (km_sig_pk km),
        pke_metadata = \<lparr>pm_member_handle = kdp_member_handle ?rq, pm_kid = kid,
          pm_created_at = kdp_created_at ?rq, pm_expires_at = kdp_expires_at ?rq\<rparr>,
        pke_backend = sb_backend binding, pke_ssh_pubkey = sb_public_key binding,
        pke_ssh_fpr = sb_fingerprint binding\<rparr>"
  from assms(1,10) obtain st1 where
    pub: "build_public_key_document J C ?rq km binding st = (Inr (kgr_public_key kgr), st1)"
    and kid: "kgr_kid kgr = pk_kid (pk_protected (kgr_public_key kgr))"
    and priv: "encrypt_private_key J C P (kgo_fresh opts) (?params (kgr_kid kgr)) st1 = (Inr (kgr_private_key kgr), st')"
    by (auto simp: generate_key_def build_key_documents_def encrypt_private_key_document_def Let_def
        split: sum.splits prod.splits)
  note doc = generated_document [OF pub assms(15,14,7)]
  note opens = ssh_protected_opens [OF priv assms(2,3) _ assms(5), simplified, OF _ assms(8,9)]
  note small = assms(4)
  have prot: "prk_protected (kgr_private_key kgr) = build_private_key_protected
      \<lparr>pm_member_handle = kdp_member_handle ?rq, pm_kid = kgr_kid kgr, pm_created_at = kdp_created_at ?rq,
       pm_expires_at = kdp_expires_at ?rq\<rparr> (build_sshsig_algorithm (sb_fingerprint binding) (kgo_fresh opts))"
    using opens(1) small by simp
  obtain st3 where dec: "decrypt_private_key J C P (kgr_private_key kgr) (sb_backend binding)
      (sb_public_key binding) st2 = (Inr (build_private_key_plaintext (km_kem_sk km) (km_kem_pk km)
        (km_sig_sk km) (km_sig_pk km)), st3)"
    using opens(2) small by blast
  have "canonical_kid (pk_kid (pk_protected (kgr_public_key kgr)))"
    using derive_public_key_kid_canonical [of "jcs_normalize J" "cl_sha256 C"] assms(6) doc(2,3)
    by (metis derive_kid_Inr)
  moreover have "decode_base64url_nopad_array 32 (encode_base64url_nopad (km_sig_pk km)) = Inr (km_sig_pk km)"
    using assms(14) by (simp add: decode_array_iff)
  ultimately have identity: "local_key_identity_from_public_key (kgr_public_key kgr) =
      Inr \<lparr>lki_member_handle = handle, lki_kid = Kid (kgr_kid kgr), lki_sig_x = km_sig_pk km\<rparr>"
    using doc(4,5) assms(16)
    by (simp add: local_key_identity_from_public_key_def Let_def kid Kid_from_canonical_iff)
  show ?thesis
    using dec doc(4,6) generated_material_consistent [OF assms(10-14)]
    by (simp add: decrypt_key_pair_def verify_attested_Inr [OF doc(1)] verify_private_key_matches_public_key_def
        prot build_private_key_protected_def build_sshsig_algorithm_def kid [symmetric] extract_ssh_fingerprint_def
        build_verified_private_key_def identity expiry_dates_def numeral_2_eq_2)
qed

definition sample_plaintext :: private_key_plaintext where
  "sample_plaintext = build_private_key_plaintext (replicate 32 1) (replicate 32 1) (replicate 32 2) (replicate 32 2)"

definition sample_codec :: plaintext_codec where
  "sample_codec = \<lparr>pc_print = (\<lambda>k. if k = sample_plaintext then Some [1] else None),
     pc_parse = (\<lambda>bs. if bs = [1] then Some sample_plaintext else None)\<rparr>"

definition sample_options :: key_generation_options where
  "sample_options = \<lparr>kgo_params = sample_request, kgo_material_kem = replicate 32 1,
     kgo_material_sig = replicate 32 2,
     kgo_fresh = \<lparr>fm_ikm_salt = replicate 32 5, fm_hkdf_salt = replicate 32 6, fm_nonce = replicate 24 7\<rparr>\<rparr>"

lemma sample_codec_ok [simp]: "plaintext_codec_ok sample_codec" "plaintext_small sample_codec k"
  by (simp_all add: plaintext_codec_ok_def plaintext_small_def sample_codec_def limit_defs)

lemma sample_backend_repeats: "repeats_signatures (sb_backend sample_binding) (sb_public_key sample_binding)"
  by (auto simp: repeats_signatures_def sample_binding_def split: sum.splits)

lemma sample_backend_signs_all:
  "\<exists>sig. sb_backend sample_binding KEY_PROTECTION_NAMESPACE line m st = (Inr sig, st)"
proof -
  have "\<exists>d. build_sshsig_signed_data sample_crypto m KEY_PROTECTION_NAMESPACE = Inr d"
    by (simp add: signed_data_Inr KEY_PROTECTION_NAMESPACE_def U32_MAX_def)
  then obtain d where "build_sshsig_signed_data sample_crypto m KEY_PROTECTION_NAMESPACE = Inr d" ..
  then show ?thesis by (simp add: sample_binding_def)
qed

lemma sample_crypto_total:
  "\<exists>k. derive_hkdf_sha256_array sample_crypto ikm salt info = Inr k"
  "\<exists>ct. xchacha_encrypt sample_crypto key nonce aad m = Inr (ct, nonce)"
  by (simp_all add: derive_hkdf_sha256_array_def xchacha_encrypt_def sample_crypto_def)

lemma sample_plaintext_encrypted:
  "\<exists>enc. encrypt_private_key_plaintext J sample_crypto sample_codec nonce sample_plaintext key p = Inr enc"
proof -
  let ?aad = "jl_jcs J (se_private_key_protected p)"
  obtain ct where "xchacha_encrypt sample_crypto key nonce ?aad [1] = Inr (ct, nonce)"
    using sample_crypto_total(2) by blast
  then show ?thesis
    by (simp add: encrypt_private_key_plaintext_def sample_codec_def build_private_key_aad_def jcs_normalize_def)
qed

lemma sample_private_key_encrypted:
  "\<exists>k. encrypt_private_key_document J sample_crypto sample_codec m rq sample_material kid sample_binding () =
     (Inr k, ())"
proof -
  obtain sig where sig: "sb_backend sample_binding KEY_PROTECTION_NAMESPACE (sb_public_key sample_binding)
      (as_bytes (build_sign_message (encode_base64url_nopad (fm_ikm_salt m)))) () = (Inr sig, ())"
    using sample_backend_signs_all by blast
  obtain key where key: "derive_key_from_raw_signature sample_crypto kid sig (fm_hkdf_salt m) = Inr key"
    unfolding derive_key_from_raw_signature_def using sample_crypto_total(1) by blast
  have plain: "build_private_key_plaintext (km_kem_sk sample_material) (km_kem_pk sample_material)
      (km_sig_sk sample_material) (km_sig_pk sample_material) = sample_plaintext"
    by (simp add: sample_material_def sample_plaintext_def)
  show ?thesis using sample_plaintext_encrypted
    by (simp add: encrypt_private_key_document_def encrypt_private_key_def Let_def derive_key_from_ssh_def
        sign_for_private_key_encryption_def sig key plain)
qed

lemma sample_key_generated:
  "generate_keypairs sample_crypto (kgo_material_kem sample_options) (kgo_material_sig sample_options) =
     Inr sample_material"
  "\<exists>kgr. generate_key (sample_lib []) sample_crypto sample_codec sample_options sample_binding () = (Inr kgr, ())"
proof -
  show km: "generate_keypairs sample_crypto (kgo_material_kem sample_options)
      (kgo_material_sig sample_options) = Inr sample_material"
    by (simp add: generate_keypairs_def derive_public_key_from_secret_def sample_crypto_def
        sample_material_def sample_options_def)
  have rq: "kgo_params sample_options = sample_request" by (simp add: sample_options_def)
  obtain pk where pub: "build_public_key_document (sample_lib []) sample_crypto sample_request sample_material
     sample_binding () = (Inr pk, ())" using sample_generated by blast
  obtain k where "encrypt_private_key_document (sample_lib []) sample_crypto sample_codec (kgo_fresh sample_options)
      sample_request sample_material (pk_kid (pk_protected pk)) sample_binding () = (Inr k, ())"
    using sample_private_key_encrypted by blast
  moreover have "ensure_determinism (sb_determinism sample_binding) = Inr ()"
    by (simp add: ensure_determinism_def sample_binding_def)
  ultimately show "\<exists>kgr. generate_key (sample_lib []) sample_crypto sample_codec sample_options sample_binding () = (Inr kgr, ())"
    by (simp add: generate_key_def build_key_documents_def km rq pub Let_def)
qed

lemma sample_handle: "MemberHandle_new ''alice'' = Inr (MemberHandle ''alice'')"
  by (simp add: MemberHandle_new_def validate_member_handle_def ensure_member_handle_length_def
      ensure_member_handle_starts_alphanumeric_def ensure_member_handle_characters_def limit_defs
      member_handle_char_def ascii_class_defs)

lemma generated_key_pair_loads_witness:
  "\<exists>(kgr :: key_generation_result) (loaded :: private_key_load_result). decrypt_key_pair (sample_lib []) sample_crypto sample_codec (kgr_private_key kgr)
     (kgr_public_key kgr) (sb_backend sample_binding) (sb_public_key sample_binding) () = (Inr loaded, ()) \<and>
     vpk_document (pkl_private_key loaded) = sample_plaintext"
proof -
  obtain kgr :: key_generation_result where gen: "generate_key (sample_lib []) sample_crypto sample_codec sample_options sample_binding () = (Inr kgr, ())"
    using sample_key_generated(2) by blast
  have handle: "MemberHandle_new (kdp_member_handle (kgo_params sample_options)) = Inr (MemberHandle ''alice'')"
    by (simp add: sample_options_def sample_request_def sample_handle)
  have fpr: "build_sha256_fingerprint sample_crypto (sb_public_key sample_binding) = Inr (sb_fingerprint sample_binding)"
    by (simp add: build_sha256_fingerprint_def sample_binding_def decode_ed25519_line)
  have fits: "material_fits (kgo_fresh sample_options)"
    by (simp add: material_fits_def sample_options_def)
  note * = generated_key_pair_loads [OF gen _ _ _ fits _ sample_binding_signs sample_backend_repeats fpr
      sample_key_generated(1) _ _ _ _ _ handle, of "()"]
  then obtain loaded where "decrypt_key_pair (sample_lib []) sample_crypto sample_codec (kgr_private_key kgr)
      (kgr_public_key kgr) (sb_backend sample_binding) (sb_public_key sample_binding) () = (Inr loaded, ())"
    "vpk_document (pkl_private_key loaded) = sample_plaintext"
    by (auto simp: sample_options_def sample_material_def sample_plaintext_def)
  then show ?thesis by blast
qed

section \<open>A portable export is read back\<close>

definition exported_key_stored :: "json_lib \<Rightarrow> private_key \<Rightarrow> bool" where
  "exported_key_stored J k \<longleftrightarrow> storable J SchemaPrivateKey (se_private_key k) \<and>
     url_fits MAX_BASE64_CIPHERTEXT_LENGTH (jl_jcs J (se_private_key k))"

lemma stored_private_key_parses:
  assumes "storable J SchemaPrivateKey (se_private_key k)"
  shows "parse_private_key_bytes J (jl_jcs J (se_private_key k)) = Inr k"
  using assms by (simp add: parse_private_key_bytes_def parse_json_document_bytes_def storable_def
      parse_json_value_def unique_json_raw_of deserialize_json_value_def)

text \<open>
  C33. A portable export is read back: the string that \<open>export_private_key_portable\<close> prints under a
  password is opened by \<open>parse_env_key\<close> with that password, and yields the exported secret material,
  the member's handle, the key's kid and its expiry; an export under the recommended policy is
  never made with a password of fewer than twenty bytes, and no export with one of fewer than eight.
\<close>

theorem exported_key_is_read_back:
  assumes "export_private_key_portable J C P m plaintext metadata password policy = Inr encoded"
    and "aead_ok C" and "plaintext_codec_ok P" and "plaintext_small P plaintext" and "material_fits m"
    and "\<And>k. encrypt_private_key_with_password J C P m plaintext metadata password = Inr k \<Longrightarrow>
      exported_key_stored J k"
    and "verify_private_key_material C plaintext = Inr ()"
    and "MemberHandle_new (pm_member_handle metadata) = Inr handle"
  shows "parse_env_key J C P encoded password = Inr
      \<lparr>ekp_verified_key = \<lparr>vpk_document = plaintext, vpk_proof = \<lparr>dp_member_handle = pm_member_handle metadata,
         dp_kid = pm_kid metadata, dp_ssh_fpr = None\<rparr>\<rparr>,
       ekp_member_handle = handle, ekp_expires_at = pm_expires_at metadata\<rparr> \<and>
    (if policy = Recommended then 20 else 8) \<le> length password"
proof
  from assms(1) obtain k where enc: "encrypt_private_key_with_password J C P m plaintext metadata password = Inr k"
    and encoded: "encoded = encode_base64url_nopad (jl_jcs J (se_private_key k))"
    and policy: "validate_export_password password policy = Inr ()"
    by (auto simp: export_private_key_portable_def jcs_normalize_def)
  note opens = password_protected_opens [OF enc assms(2-5)]
  have stored: "exported_key_stored J k" by (rule assms(6) [OF enc])
  then have "decode_base64url_nopad encoded = Inr (jl_jcs J (se_private_key k))"
    by (simp add: encoded exported_key_stored_def url.dec_enc)
  moreover have "parse_private_key_bytes J (jl_jcs J (se_private_key k)) = Inr k"
    using stored by (simp add: exported_key_stored_def stored_private_key_parses)
  ultimately show "parse_env_key J C P encoded password = Inr
      \<lparr>ekp_verified_key = \<lparr>vpk_document = plaintext, vpk_proof = \<lparr>dp_member_handle = pm_member_handle metadata,
         dp_kid = pm_kid metadata, dp_ssh_fpr = None\<rparr>\<rparr>,
       ekp_member_handle = handle, ekp_expires_at = pm_expires_at metadata\<rparr>"
    using opens assms(7,8)
    by (simp add: parse_env_key_def parse_password_protected_private_key_def build_env_key_parse_result_def
        Let_def build_verified_private_key_def build_private_key_protected_def build_argon2id_algorithm_def)
  show "(if policy = Recommended then 20 else 8) \<le> length password"
    using policy by (cases policy) (auto simp: enforce_recommended_password_length_def
        enforce_weak_password_floor_def RECOMMENDED_PASSWORD_LENGTH_def MIN_PASSWORD_LENGTH_def split: if_splits)
qed

definition sample_metadata :: protection_metadata where
  "sample_metadata = \<lparr>pm_member_handle = ''alice'', pm_kid = ''K'', pm_created_at = ''2026-01-01T00:00:00Z'',
     pm_expires_at = ''2027-01-01T00:00:00Z''\<rparr>"

lemma sample_password_encrypted:
  "\<exists>k. encrypt_private_key_with_password J sample_crypto sample_codec m sample_plaintext sample_metadata password = Inr k"
proof -
  have "\<exists>key. derive_key_from_password sample_crypto password (fm_ikm_salt m) (fm_hkdf_salt m) kid = Inr key" for kid
    unfolding derive_key_from_password_def argon2id_hash_def
    using sample_crypto_total(1) by (simp add: sample_crypto_def)
  then obtain key where key: "derive_key_from_password sample_crypto password (fm_ikm_salt m) (fm_hkdf_salt m)
    (pm_kid sample_metadata) = Inr key" by blast
  then show ?thesis using sample_plaintext_encrypted
    by (simp add: encrypt_private_key_with_password_def Let_def) 
qed

lemma sample_aad_alike:
  "encrypt_private_key_with_password (sample_lib [se_private_key k]) C P m plaintext metadata password =
   encrypt_private_key_with_password (sample_lib [JNull]) C P m plaintext metadata password"
proof -
  have "jl_jcs (sample_lib [se_private_key k]) (se_private_key_protected p) =
      jl_jcs (sample_lib [JNull]) (se_private_key_protected p)" for p
    by (simp add: sample_lib_def) (simp add: se_private_key_def se_private_key_protected_def)
  then show ?thesis
    by (simp add: encrypt_private_key_with_password_def encrypt_private_key_plaintext_def
        build_private_key_aad_def jcs_normalize_def Let_def)
qed

lemma sample_private_key_stored: "exported_key_stored (sample_lib [se_private_key k]) k"
proof -
  have "wf_json (se_private_key k)"
    by (cases "prp_alg (prk_protected k)"; simp add: se_private_key_def se_private_key_protected_def)
  then have "storable (sample_lib [se_private_key k]) SchemaPrivateKey (se_private_key k)"
    by (intro sample_lib_storable) simp_all
  then show ?thesis
    by (simp add: exported_key_stored_def sample_lib_def url_fits_def compute_encoded_len_def limit_defs)
qed

lemma sample_plaintext_material: "verify_private_key_material sample_crypto sample_plaintext = Inr ()"
proof -
  have "generate_keypairs sample_crypto (replicate 32 1) (replicate 32 2) = Inr sample_material"
    using sample_key_generated(1) by (simp add: sample_options_def)
  from generated_material_consistent [OF this] show ?thesis
    by (simp add: sample_plaintext_def sample_material_def)
qed

lemma exported_key_is_read_back_witness:
  "\<exists>J k encoded. export_private_key_portable J sample_crypto sample_codec (kgo_fresh sample_options) sample_plaintext
     sample_metadata ''12345678'' AllowWeak = Inr encoded \<and>
   parse_env_key J sample_crypto sample_codec encoded ''12345678'' = Inr
      \<lparr>ekp_verified_key = \<lparr>vpk_document = sample_plaintext, vpk_proof = \<lparr>dp_member_handle = ''alice'',
         dp_kid = ''K'', dp_ssh_fpr = None\<rparr>\<rparr>,
       ekp_member_handle = MemberHandle ''alice'', ekp_expires_at = ''2027-01-01T00:00:00Z''\<rparr>"
proof -
  let ?enc = "\<lambda>J. encrypt_private_key_with_password J sample_crypto sample_codec
      (kgo_fresh sample_options) sample_plaintext sample_metadata ''12345678''"
  obtain k where "?enc (sample_lib [JNull]) = Inr k"
    using sample_password_encrypted by blast
  then have k: "?enc (sample_lib [se_private_key k]) = Inr k" by (simp only: sample_aad_alike)
  let ?J = "sample_lib [se_private_key k]"
  have policy: "validate_export_password ''12345678'' AllowWeak = Inr ()"
    by (simp add: enforce_weak_password_floor_def MIN_PASSWORD_LENGTH_def)
  have "all_integers_safe (se_private_key k)" by simp
  then obtain encoded where encoded: "export_private_key_portable ?J sample_crypto sample_codec
      (kgo_fresh sample_options) sample_plaintext sample_metadata ''12345678'' AllowWeak = Inr encoded"
    unfolding export_private_key_portable_def policy k by (simp add: jcs_normalize_def)
  have fits: "material_fits (kgo_fresh sample_options)"
    by (simp add: material_fits_def sample_options_def)
  have stored: "exported_key_stored ?J k'" if "?enc ?J = Inr k'" for k'
    using that k sample_private_key_stored by simp
  have handle: "MemberHandle_new (pm_member_handle sample_metadata) = Inr (MemberHandle ''alice'')"
    by (simp add: sample_metadata_def sample_handle)
  show ?thesis
    using encoded exported_key_is_read_back [OF encoded _ _ _ fits stored sample_plaintext_material handle]
    by (auto simp: sample_metadata_def)
qed

end
