(* ===== verification/Format_Detection.thy ===== *)
theory Format_Detection
  imports Kv_Document
begin

text \<open>
  Which format a text is in (\<open>format/detection.rs\<close>) and the typed contents built on the answer
  (\<open>format/content.rs\<close>). The percentage of \<open>KEY=VALUE\<close> lines is compared in floating point by
  the source; the comparison below is its value for every text with fewer than \<open>2 ^ 40\<close> lines.
\<close>

datatype input_format = KvEncFormat | FileEncFormat | KvPlainFormat | UnknownFormat

definition detect_kv_enc :: "string \<Rightarrow> input_format option" where
  "detect_kv_enc content =
     (case str_lines content of
        line # _ \<Rightarrow> if line = HEADER_LINE_V1 then Some KvEncFormat else None
      | [] \<Rightarrow> None)"

text \<open>\<open>serde_json::Value\<close>: a repeated member keeps its last value.\<close>

fun raw_get :: "string \<Rightarrow> raw_json \<Rightarrow> raw_json option" where
  "raw_get key (RObj ms) = map_of (rev ms) key"
| "raw_get key _ = None"

definition detect_file_enc :: "json_lib \<Rightarrow> string \<Rightarrow> input_format option res" where
  "detect_file_enc J content =
     (if \<not> starts_with ''{'' (trim_start content) then Inr None
      else res_bind (validate_json_limits content) (\<lambda>_.
        case jl_tokenize J (as_bytes content) of
          None \<Rightarrow> Inr None
        | Some value \<Rightarrow>
            (case Option.bind (raw_get ''protected'' value) (raw_get ''format'') of
               Some (RStr format) \<Rightarrow> if format = FILE_ENC_V1 then Inr (Some FileEncFormat) else Inr None
             | _ \<Rightarrow> Inr None)))"

definition is_key_value_line :: "string \<Rightarrow> bool" where
  "is_key_value_line line =
     (case split_once CHR ''='' (str_trim line) of
        Some (key, _) \<Rightarrow> key \<noteq> [] \<and> list_all (\<lambda>c. is_ascii_alphanumeric c \<or> c = CHR ''_'') key
      | None \<Rightarrow> False)"

definition content_lines :: "string \<Rightarrow> string list" where
  "content_lines content =
     filter (\<lambda>line. str_trim line \<noteq> [] \<and> \<not> starts_with ''#'' (str_trim line)) (str_lines content)"

definition detect_kv_plain :: "string \<Rightarrow> input_format option" where
  "detect_kv_plain content =
     (let lines = content_lines content in
      if length lines < 2 then None
      else if 100 * length (filter is_key_value_line lines) \<ge> 60 * length lines then Some KvPlainFormat
      else None)"

definition detect_format :: "json_lib \<Rightarrow> string \<Rightarrow> input_format res" where
  "detect_format J content =
     (if str_trim content = [] then Inr UnknownFormat
      else case detect_kv_enc content of
        Some format \<Rightarrow> Inr format
      | None \<Rightarrow> res_bind (detect_file_enc J content) (\<lambda>file.
          case file of
            Some format \<Rightarrow> Inr format
          | None \<Rightarrow> (case detect_kv_plain content of
              Some format \<Rightarrow> Inr format
            | None \<Rightarrow> Inr UnknownFormat)))"

text \<open>Contents whose format is known; the source name they carry is only reported.\<close>

datatype file_enc_content = FileEncContent string
datatype kv_enc_content = KvEncContent string
datatype enc_content = FileEnc file_enc_content | KvEnc kv_enc_content

definition FileEncContent_detect :: "json_lib \<Rightarrow> string \<Rightarrow> file_enc_content res" where
  "FileEncContent_detect J content =
     res_bind (detect_format J content) (\<lambda>format.
     case format of FileEncFormat \<Rightarrow> Inr (FileEncContent content) | _ \<Rightarrow> Inl (plain_error Parse))"

definition KvEncContent_detect :: "json_lib \<Rightarrow> string \<Rightarrow> kv_enc_content res" where
  "KvEncContent_detect J content =
     res_bind (detect_format J content) (\<lambda>format.
     case format of KvEncFormat \<Rightarrow> Inr (KvEncContent content) | _ \<Rightarrow> Inl (plain_error Parse))"

definition EncContent_detect :: "json_lib \<Rightarrow> string \<Rightarrow> enc_content res" where
  "EncContent_detect J content =
     res_bind (detect_format J content) (\<lambda>format.
     case format of
       FileEncFormat \<Rightarrow> Inr (FileEnc (FileEncContent content))
     | KvEncFormat \<Rightarrow> Inr (KvEnc (KvEncContent content))
     | _ \<Rightarrow> Inl (plain_error Parse))"

fun file_content_parse :: "json_lib \<Rightarrow> file_enc_content \<Rightarrow> file_enc_document res" where
  "file_content_parse J (FileEncContent content) = parse_file_enc_str J content"

fun kv_content_parse :: "json_lib \<Rightarrow> kv_enc_content \<Rightarrow> kv_enc_document res" where
  "kv_content_parse J (KvEncContent content) = parse_kv_document J content"

section \<open>What is detected\<close>

lemma graphic_not_ws3_middle: "graphic d \<Longrightarrow> \<not> ws3 c d e"
  by (auto simp: graphic_def ws3_def code_in_def)

lemma trim_end_rev_keeps: "graphic g \<Longrightarrow> g \<in> set s \<Longrightarrow> trim_end_rev s \<noteq> []"
proof (induction s rule: trim_end_rev.induct)
  case (1 e d c s)
  note mem = \<open>g \<in> set (e # d # c # s)\<close>
  note ws = graphic_not_ws [OF \<open>graphic g\<close>] graphic_not_ws23 [OF \<open>graphic g\<close>]
    graphic_not_ws3_middle [OF \<open>graphic g\<close>]
  consider (space) "ascii_ws e" | (two) "\<not> ascii_ws e" "ws2 d e"
    | (three) "\<not> ascii_ws e" "\<not> ws2 d e" "ws3 c d e"
    | (other) "\<not> ascii_ws e" "\<not> ws2 d e" "\<not> ws3 c d e" by blast
  then show ?case
  proof cases
    case space
    then have "g \<in> set (d # c # s)" using ws(1) mem by auto
    then show ?thesis using space 1(1) \<open>graphic g\<close> by simp
  next
    case two
    then have "g \<in> set (c # s)" using ws(2,3) mem by auto
    then show ?thesis using two 1(2) \<open>graphic g\<close> by simp
  next
    case three
    then have "g \<in> set s" using ws(4-6) mem by auto
    then show ?thesis using three 1(3) \<open>graphic g\<close> by simp
  qed simp
next
  case (2 d c)
  then show ?case using graphic_not_ws graphic_not_ws23(1,2)
    by (cases "ascii_ws d"; cases "ws2 c d") auto
qed auto

lemma trim_graphic_nonempty: "graphic c \<Longrightarrow> str_trim (c # s) \<noteq> []"
  using trim_end_rev_keeps [of c "rev (c # s)"] by (simp add: str_trim_def trim_end_def)

lemma str_lines_Cons: "str_lines s = l # ls \<Longrightarrow> l \<noteq> [] \<Longrightarrow> s \<noteq> [] \<and> hd s = hd l"
proof (induction s arbitrary: l ls rule: str_lines.induct)
  case (2 c s)
  have "str_lines s = l # ls \<Longrightarrow> \<not> starts_with [LF] s"
    using "2.prems"(2) by (cases s) (auto simp: starts_with_iff)
  then show ?case using "2.prems" by (auto split: if_splits list.splits)
qed simp

text \<open>
  Detection finds every kv-enc document: a text that the kv-enc parser accepts is detected as
  kv-enc, whatever its entries look like, unless it starts with a blank line.
\<close>

theorem parsed_kv_text_is_detected:
  assumes "parse_kv_document J content = Inr doc" and "str_lines content = line # rest" and "line \<noteq> []"
  shows "detect_format J content = Inr KvEncFormat"
proof -
  from assms(1) have lines: "parse_all content = Inr (kvd_lines doc)"
    and shape: "kv_shape (kvd_lines doc)"
    by (auto simp: parse_kv_document_def structure_iff_shape)
  from shape obtain v more where nonempty: "filter (\<lambda>l. l \<noteq> Empty) (kvd_lines doc) = Header v # more"
    by (auto simp: kv_shape_def)
  from lines have split: "str_lines content = map line_text (kvd_lines doc)"
    and ok: "list_all line_ok (kvd_lines doc)" by (simp_all add: parse_all_Inr)
  from split assms(2) obtain l ls where l: "kvd_lines doc = l # ls" and "line = line_text l"
    by auto
  with assms(3) have "l \<noteq> Empty" by auto
  with nonempty l have "l = Header v" by simp
  with ok l \<open>line = line_text l\<close> have line: "line = HEADER_LINE_V1" by (simp add: header_line_v1)
  from str_lines_Cons [OF assms(2,3)] obtain s where "content = CHR '':'' # s"
    unfolding line by (cases content) (auto simp: HEADER_LINE_V1_def)
  then have "str_trim content \<noteq> []"
    using trim_graphic_nonempty [of "CHR '':''" s] by (simp add: graphic_def code_in_def)
  then show ?thesis by (simp add: detect_format_def detect_kv_enc_def assms(2) line)
qed

lemma sample_text_lines: "\<exists>rest. str_lines sample_text = HEADER_LINE_V1 # rest"
proof -
  have "plain_line HEADER_LINE_V1" by (simp add: plain_line_def HEADER_LINE_V1_def)
  then show ?thesis
    by (simp add: sample_text_def kv_file_text_def build_unsigned_kv_document_def str_lines_plain)
qed

lemma parsed_kv_text_is_detected_witness:
  "detect_format (sample_lib sample_jsons) sample_text = Inr KvEncFormat"
proof -
  obtain rest where "str_lines sample_text = HEADER_LINE_V1 # rest" using sample_text_lines by blast
  moreover have "HEADER_LINE_V1 \<noteq> []" by (simp add: HEADER_LINE_V1_def)
  ultimately show ?thesis by (rule parsed_kv_text_is_detected [OF sample_parse])
qed

end
