(* ===== verification/Warnings.thy ===== *)
theory Warnings
  imports Prelude
begin

text \<open>
  Warning collection (\<open>support/warning.rs\<close>): ordered lists without repeats, the bounded sink of
  local state findings, and the captures that isolate one operation's findings from its caller's.
  The thread-local sink is the state that every operation takes and returns; a sequence of
  findings and captures is an explicit list of acts.
\<close>

definition push_unique_warning :: "'w list \<Rightarrow> 'w \<Rightarrow> 'w list" where
  "push_unique_warning warnings warning =
     (if warning \<in> set warnings then warnings else warnings @ [warning])"

definition MAX_LOCAL_STATE_WARNINGS :: nat where "MAX_LOCAL_STATE_WARNINGS = 64"

datatype local_state_warning_code = Permissions | GlobalWorkspacePermissions

record local_state_warning =
  lsw_code :: local_state_warning_code
  lsw_path :: string
  lsw_reason :: string

record local_state_warning_batch =
  lsb_warnings :: "local_state_warning list"
  lsb_dropped :: nat

record local_state_warning_sink =
  lss_warnings :: "local_state_warning list"
  lss_dropped :: "local_state_warning list"
  lss_dropped_floor :: nat

definition sink_new :: local_state_warning_sink where
  "sink_new = \<lparr>lss_warnings = [], lss_dropped = [], lss_dropped_floor = 0\<rparr>"

definition sink_record :: "local_state_warning_sink \<Rightarrow> local_state_warning \<Rightarrow> local_state_warning_sink" where
  "sink_record s w =
     (if length (lss_warnings s) < MAX_LOCAL_STATE_WARNINGS
        then s\<lparr>lss_warnings := push_unique_warning (lss_warnings s) w\<rparr>
      else if w \<in> set (lss_warnings s) \<or> length (lss_dropped s) \<ge> MAX_LOCAL_STATE_WARNINGS then s
      else s\<lparr>lss_dropped := push_unique_warning (lss_dropped s) w\<rparr>)"

definition sink_merge ::
  "local_state_warning_sink \<Rightarrow> local_state_warning_sink \<Rightarrow> local_state_warning_sink" where
  "sink_merge s other =
     foldl sink_record
       (s\<lparr>lss_dropped_floor := max (max (lss_dropped_floor s) (lss_dropped_floor other))
            (length (lss_dropped other))\<rparr>)
       (lss_warnings other @ lss_dropped other)"

definition restore_batch ::
  "local_state_warning_sink \<Rightarrow> local_state_warning_batch \<Rightarrow> local_state_warning_sink" where
  "restore_batch s batch =
     foldl sink_record (s\<lparr>lss_dropped_floor := max (lss_dropped_floor s) (lsb_dropped batch)\<rparr>)
       (lsb_warnings batch)"

definition into_batch :: "local_state_warning_sink \<Rightarrow> local_state_warning_batch" where
  "into_batch s = \<lparr>lsb_warnings = lss_warnings s,
     lsb_dropped = max (lss_dropped_floor s) (length (lss_dropped s))\<rparr>"

definition take_local_state_warnings ::
  "local_state_warning_sink \<Rightarrow> local_state_warning_batch \<times> local_state_warning_sink" where
  "take_local_state_warnings sink = (into_batch sink, sink_new)"

text \<open>
  A capture puts the sink aside and starts an empty one; finishing it returns the captured batch
  and puts the old sink back, dropping it unfinished merges the captured sink into the old one.
\<close>

definition capture_new :: "local_state_warning_sink \<Rightarrow> local_state_warning_sink \<times> local_state_warning_sink" where
  "capture_new sink = (sink, sink_new)"

definition capture_finish ::
  "local_state_warning_sink \<Rightarrow> local_state_warning_sink \<Rightarrow> local_state_warning_batch \<times> local_state_warning_sink" where
  "capture_finish previous sink = (into_batch sink, previous)"

definition capture_drop ::
  "local_state_warning_sink \<Rightarrow> local_state_warning_sink \<Rightarrow> local_state_warning_sink" where
  "capture_drop previous captured = sink_merge previous captured"

section \<open>Runs of a command\<close>

text \<open>
  What one command does to its thread's sink: it records a finding, runs an operation under a
  capture that ends early, or runs one under a capture that completes and gives its batch back.
\<close>

datatype warning_act =
  Record local_state_warning
| Interrupted "warning_act list"
| Completed "warning_act list"

fun run_acts :: "warning_act list \<Rightarrow> local_state_warning_sink \<Rightarrow> local_state_warning_sink" where
  "run_acts [] sink = sink"
| "run_acts (Record w # acts) sink = run_acts acts (sink_record sink w)"
| "run_acts (Interrupted body # acts) sink =
     (case capture_new sink of (previous, fresh) \<Rightarrow>
        run_acts acts (capture_drop previous (run_acts body fresh)))"
| "run_acts (Completed body # acts) sink =
     (case capture_new sink of (previous, fresh) \<Rightarrow>
        case capture_finish previous (run_acts body fresh) of (batch, restored) \<Rightarrow>
          run_acts acts (restore_batch restored batch))"

fun findings_of :: "warning_act list \<Rightarrow> local_state_warning list" where
  "findings_of [] = []"
| "findings_of (Record w # acts) = w # findings_of acts"
| "findings_of (Interrupted body # acts) = findings_of body @ findings_of acts"
| "findings_of (Completed body # acts) = findings_of body @ findings_of acts"

section \<open>The sink holds the first findings\<close>

text \<open>The list an unbounded sink would hold.\<close>

definition first_seen :: "'w list \<Rightarrow> 'w list" where
  "first_seen ws = foldl push_unique_warning [] ws"

lemma foldl_push_unique:
  "foldl push_unique_warning acc ws = acc @ filter (\<lambda>w. w \<notin> set acc) (first_seen ws)"
proof (induction ws arbitrary: acc rule: rev_induct)
  case (snoc w ws)
  then show ?case by (auto simp: first_seen_def push_unique_warning_def)
qed (simp add: first_seen_def)

lemma first_seen_append:
  "first_seen (xs @ ys) = first_seen xs @ filter (\<lambda>w. w \<notin> set (first_seen xs)) (first_seen ys)"
  using foldl_push_unique [of "first_seen xs" ys] by (simp add: first_seen_def)

lemma first_seen_simps [simp]:
  "first_seen [] = []" "set (first_seen ws) = set ws" "distinct (first_seen ws)"
proof -
  show "set (first_seen ws) = set ws"
    by (induction ws rule: rev_induct) (auto simp: first_seen_def push_unique_warning_def)
  show "distinct (first_seen ws)"
    by (induction ws rule: rev_induct) (auto simp: first_seen_def push_unique_warning_def)
qed (simp add: first_seen_def)

lemma length_first_seen: "length (first_seen ws) = card (set ws)"
  using distinct_card [OF first_seen_simps(3), of ws] by simp

text \<open>\<open>sink_holds s ws\<close>: the sink is what the findings \<open>ws\<close>, in their order, leave behind.\<close>

definition sink_holds :: "local_state_warning_sink \<Rightarrow> local_state_warning list \<Rightarrow> bool" where
  "sink_holds s ws \<longleftrightarrow>
     lss_warnings s = take 64 (first_seen ws) \<and>
     distinct (lss_dropped s) \<and> set (lss_dropped s) \<subseteq> set ws - set (lss_warnings s) \<and>
     length (lss_dropped s) \<le> 64 \<and> lss_dropped_floor s \<le> card (set ws) - 64 \<and>
     (64 < card (set ws) \<longrightarrow> lss_dropped s \<noteq> [] \<or> 0 < lss_dropped_floor s)"
lemma first_seen_snoc: "first_seen (ws @ [w]) = push_unique_warning (first_seen ws) w"
  by (simp add: first_seen_def)

lemma first_seen_distinct: "distinct ws \<Longrightarrow> first_seen ws = ws"
  by (induction ws rule: rev_induct) (auto simp: first_seen_snoc push_unique_warning_def)

lemma first_seen_absorb: "first_seen (xs @ first_seen ys) = first_seen (xs @ ys)"
  by (simp add: first_seen_append first_seen_distinct)

lemma first_seen_full:
  "64 \<le> card (set xs) \<Longrightarrow> take 64 (first_seen (xs @ ys)) = take 64 (first_seen xs)"
  by (simp add: first_seen_append length_first_seen)

lemma sink_holds_new: "sink_holds sink_new []"
  by (simp add: sink_holds_def sink_new_def)

lemma sink_holds_room:
  assumes "sink_holds s ws" and "card (set ws) \<le> 64"
  shows "lss_warnings s = first_seen ws" "lss_dropped s = []" "lss_dropped_floor s = 0"
proof -
  show w: "lss_warnings s = first_seen ws"
    using assms length_first_seen [of ws] by (simp add: sink_holds_def)
  show "lss_dropped s = []" "lss_dropped_floor s = 0"
    using assms w by (auto simp: sink_holds_def)
qed

lemma sink_holds_record:
  assumes "sink_holds s ws"
  shows "sink_holds (sink_record s w) (ws @ [w])"
proof (cases "card (set ws) < 64")
  case True
  note room = sink_holds_room [OF assms less_imp_le [OF True]]
  have "card (set (ws @ [w])) \<le> 64"
    using True card_insert_if [of "set ws" w] by (simp split: if_splits)
  then have "take 64 (first_seen (ws @ [w])) = first_seen (ws @ [w])"
    using length_first_seen [of "ws @ [w]"] by simp
  then show ?thesis
    using True room \<open>card (set (ws @ [w])) \<le> 64\<close>
    by (simp add: sink_holds_def sink_record_def length_first_seen MAX_LOCAL_STATE_WARNINGS_def
        first_seen_snoc)
next
  case False
  have take: "take 64 (first_seen (ws @ [w])) = take 64 (first_seen ws)"
    using False by (intro first_seen_full) simp
  have len: "length (lss_warnings s) = 64"
    using assms False by (simp add: sink_holds_def length_first_seen)
  have sub: "set (lss_warnings s) \<subseteq> set ws"
    using assms set_take_subset [of 64 "first_seen ws"] by (simp add: sink_holds_def)
  have "card (set ws) \<le> card (insert w (set ws))" by (intro card_mono) auto
  moreover have "insert w (set ws) = set ws" if "w \<in> set (lss_warnings s)" using sub that by auto
  ultimately show ?thesis
    using assms take len
    by (auto simp: sink_holds_def sink_record_def MAX_LOCAL_STATE_WARNINGS_def push_unique_warning_def)
qed

lemma sink_holds_records:
  "sink_holds s ws \<Longrightarrow> sink_holds (foldl sink_record s xs) (ws @ xs)"
  by (induction xs arbitrary: s ws) (simp, metis append.assoc append_Cons append_Nil foldl_Cons sink_holds_record)

lemma record_floor: "sink_record (s\<lparr>lss_dropped_floor := f\<rparr>) w = (sink_record s w)\<lparr>lss_dropped_floor := f\<rparr>"
  by (cases s) (simp add: sink_record_def)

lemma records_floor:
  "foldl sink_record (s\<lparr>lss_dropped_floor := f\<rparr>) xs = (foldl sink_record s xs)\<lparr>lss_dropped_floor := f\<rparr>"
  by (induction xs arbitrary: s) (simp_all add: record_floor)

lemma records_keep_floor: "lss_dropped_floor (foldl sink_record s xs) = lss_dropped_floor s"
  by (induction xs arbitrary: s) (simp, simp add: sink_record_def)


text \<open>
  Records of \<open>cs\<close>, a part of the findings \<open>bs\<close> that decides the same first entries, together with a
  raised floor, stand for all of \<open>bs\<close>.
\<close>

lemma sink_holds_part:
  assumes s: "sink_holds s as" and cs: "set cs \<subseteq> set bs"
    and same: "take 64 (first_seen (as @ cs)) = take 64 (first_seen (as @ bs))"
    and all: "card (set bs) \<le> 64 \<Longrightarrow> set cs = set bs"
    and f: "g \<le> card (set bs) - 64" "64 < card (set bs) \<Longrightarrow> 0 < g"
  shows "sink_holds (foldl sink_record (s\<lparr>lss_dropped_floor := max (lss_dropped_floor s) g\<rparr>) cs) (as @ bs)"
proof -
  let ?t = "foldl sink_record s cs"
  have t: "sink_holds ?t (as @ cs)" by (rule sink_holds_records [OF s])
  have le: "card (set bs) \<le> card (set (as @ bs))" "card (set as) \<le> card (set (as @ bs))"
    by (auto intro: card_mono)
  have dropped: "set (lss_dropped ?t) \<subseteq> set (as @ bs) - set (lss_warnings ?t)"
    using t cs by (auto simp: sink_holds_def)
  have "lss_dropped_floor s \<le> card (set (as @ bs)) - 64" "g \<le> card (set (as @ bs)) - 64"
    using s f(1) le by (auto simp: sink_holds_def)
  moreover have "lss_dropped ?t \<noteq> [] \<or> 0 < max (lss_dropped_floor s) g" if "64 < card (set (as @ bs))"
  proof (cases "card (set bs) \<le> 64")
    case True
    then have "64 < card (set (as @ cs))" using that all by simp
    then show ?thesis using t records_keep_floor [of s cs] by (auto simp: sink_holds_def)
  next
    case False
    then show ?thesis using f(2) by (simp add: less_max_iff_disj)
  qed
  ultimately show ?thesis
    using t dropped same by (auto simp: sink_holds_def records_floor)
qed

lemma first_batch_decides:
  assumes "sink_holds t bs" and "set ds \<subseteq> set bs" and "card (set bs) \<le> 64 \<Longrightarrow> ds = []"
  shows "take 64 (first_seen (as @ lss_warnings t @ ds)) = take 64 (first_seen (as @ bs))"
proof (cases "card (set bs) \<le> 64")
  case True
  then show ?thesis
    using sink_holds_room(1) [OF assms(1) True] assms(3) by (simp add: first_seen_absorb)
next
  case False
  let ?ws = "lss_warnings t" and ?rest = "drop 64 (first_seen bs)"
  have split: "first_seen bs = ?ws @ ?rest" using assms(1) by (simp add: sink_holds_def)
  have "card (set ?ws) = 64"
    using assms(1) False distinct_card [of ?ws] by (simp add: sink_holds_def length_first_seen)
  moreover have "card (set ?ws) \<le> card (set (as @ ?ws))" by (intro card_mono) auto
  ultimately have full: "64 \<le> card (set (as @ ?ws))" by simp
  have "first_seen (as @ bs) = first_seen ((as @ ?ws) @ ?rest)"
    using first_seen_absorb [of as bs] split by simp
  then show ?thesis
    using first_seen_full [OF full, of ds] first_seen_full [OF full, of ?rest] by simp
qed

text \<open>The reported number of lost findings is a lower bound, and zero only when none is lost.\<close>

lemma batch_dropped:
  assumes "sink_holds t bs"
  shows "max (lss_dropped_floor t) (length (lss_dropped t)) \<le> card (set bs) - 64"
    and "64 < card (set bs) \<Longrightarrow> 0 < max (lss_dropped_floor t) (length (lss_dropped t))"
proof -
  have "length (lss_dropped t) \<le> card (set bs) - 64"
  proof (cases "card (set bs) \<le> 64")
    case False
    have ws: "set (lss_warnings t) \<subseteq> set bs"
      using assms set_take_subset [of 64 "first_seen bs"] by (simp add: sink_holds_def)
    have "distinct (lss_warnings t)" "length (lss_warnings t) = 64" "distinct (lss_dropped t)"
      using assms False by (auto simp: sink_holds_def length_first_seen)
    then have "length (lss_dropped t) = card (set (lss_dropped t))" "card (set (lss_warnings t)) = 64"
      by (simp_all add: distinct_card)
    moreover have "card (set (lss_dropped t)) \<le> card (set bs - set (lss_warnings t))"
      using assms by (intro card_mono) (auto simp: sink_holds_def)
    ultimately show ?thesis using ws by (simp add: card_Diff_subset)
  qed (simp add: sink_holds_room(2) [OF assms])
  then show "max (lss_dropped_floor t) (length (lss_dropped t)) \<le> card (set bs) - 64"
    using assms by (simp add: sink_holds_def)
  show "0 < max (lss_dropped_floor t) (length (lss_dropped t))" if "64 < card (set bs)"
    using assms that by (auto simp: sink_holds_def less_max_iff_disj)
qed

lemma sink_holds_subset:
  assumes "sink_holds t bs"
  shows "set (lss_warnings t) \<subseteq> set bs" "set (lss_dropped t) \<subseteq> set bs"
  using assms set_take_subset [of 64 "first_seen bs"] by (auto simp: sink_holds_def)

lemma sink_holds_merge:
  assumes "sink_holds s as" and "sink_holds t bs"
  shows "sink_holds (sink_merge s t) (as @ bs)"
proof -
  let ?cs = "lss_warnings t @ lss_dropped t"
  have all: "set ?cs = set bs" if "card (set bs) \<le> 64"
    using sink_holds_room(1,2) [OF assms(2) that] by simp
  have same: "take 64 (first_seen (as @ ?cs)) = take 64 (first_seen (as @ bs))"
    by (rule first_batch_decides [OF assms(2) sink_holds_subset(2) [OF assms(2)]])
      (rule sink_holds_room(2) [OF assms(2)])
  have "set ?cs \<subseteq> set bs" using sink_holds_subset [OF assms(2)] by simp
  from sink_holds_part [OF assms(1) this same all batch_dropped [OF assms(2)]]
  show ?thesis by (simp add: sink_merge_def max.assoc)
qed

lemma sink_holds_restore:
  assumes "sink_holds s as" and "sink_holds t bs"
  shows "sink_holds (restore_batch s (into_batch t)) (as @ bs)"
proof -
  have all: "set (lss_warnings t) = set bs" if "card (set bs) \<le> 64"
    using sink_holds_room(1) [OF assms(2) that] by simp
  have same: "take 64 (first_seen (as @ lss_warnings t)) = take 64 (first_seen (as @ bs))"
    using first_batch_decides [OF assms(2), of "[]" as] by simp
  from sink_holds_part [OF assms(1) sink_holds_subset(1) [OF assms(2)] same all batch_dropped [OF assms(2)]]
  show ?thesis by (simp add: restore_batch_def into_batch_def)
qed

lemma sink_holds_run: "sink_holds s ws \<Longrightarrow> sink_holds (run_acts acts s) (ws @ findings_of acts)"
proof (induction acts s arbitrary: ws rule: run_acts.induct)
  case (2 w acts sink)
  have "sink_holds (sink_record sink w) (ws @ [w])" by (rule sink_holds_record [OF 2(2)])
  from 2(1) [OF this] show ?case by simp
next
  case (3 body acts sink)
  have "sink_holds (run_acts body sink_new) (findings_of body)"
    using 3(1) [OF _ sink_holds_new] by (simp add: capture_new_def)
  from sink_holds_merge [OF 3(3) this]
  have "sink_holds (capture_drop sink (run_acts body sink_new)) (ws @ findings_of body)"
    by (simp add: capture_drop_def)
  from 3(2) [OF capture_new_def [symmetric] this] show ?case by (simp add: capture_new_def)
next
  case (4 body acts sink)
  have "sink_holds (run_acts body sink_new) (findings_of body)"
    using 4(1) [OF _ sink_holds_new] by (simp add: capture_new_def)
  from sink_holds_restore [OF 4(3) this] 
  have "sink_holds (restore_batch sink (into_batch (run_acts body sink_new))) (ws @ findings_of body)" .
  from 4(2) [OF capture_new_def [symmetric] capture_finish_def [symmetric] this]
  show ?case by (simp add: capture_new_def capture_finish_def)
qed simp

text \<open>
  C35. The sink of a command loses no finding silently. However the findings are recorded, under
  captures that end early, under captures that complete and give their batch back, nested in any way,
  the batch taken at the end carries the first sixty-four distinct findings in the order they were
  first recorded; the number it reports as dropped never exceeds the number of distinct findings
  it does not carry, and is zero exactly when it carries them all.
\<close>

theorem warning_batch_is_first_findings:
  "let batch = fst (take_local_state_warnings (run_acts acts sink_new)); seen = first_seen (findings_of acts) in
   lsb_warnings batch = take 64 seen \<and> lsb_dropped batch \<le> length seen - 64 \<and>
   (lsb_dropped batch = 0 \<longleftrightarrow> lsb_warnings batch = seen)"
proof -
  let ?s = "run_acts acts sink_new" and ?ws = "findings_of acts"
  have holds: "sink_holds ?s ?ws" using sink_holds_run [OF sink_holds_new, of acts] by simp
  note len = length_first_seen [of ?ws]
  let ?batch = "fst (take_local_state_warnings ?s)"
  have warnings: "lsb_warnings ?batch = take 64 (first_seen ?ws)"
    and dropped: "lsb_dropped ?batch = max (lss_dropped_floor ?s) (length (lss_dropped ?s))"
    using holds by (auto simp: take_local_state_warnings_def into_batch_def sink_holds_def)
  have "take 64 (first_seen ?ws) = first_seen ?ws \<longleftrightarrow> card (set ?ws) \<le> 64"
    using len take_all_iff by metis
  then show ?thesis
    using batch_dropped [OF holds] unfolding Let_def warnings dropped len
    by (cases "card (set ?ws) \<le> 64") auto
qed

end
