(* ===== verification/Verify.thy ===== *)
theory Verify
  imports Public_Keys Format_Detection Warnings
begin

text \<open>
  Verification of signed artifacts (\<open>feature/verify.rs\<close>, \<open>feature/verify/{signature,report,file}.rs\<close>,
  \<open>feature/verify/kv/signature.rs\<close>): the verifying key is loaded from the signature itself, the
  signature is checked under it, and the document is returned with a proof of who signed it; the
  report form gives the same answer without failing. The message of a failed report is the
  rendering of its error, kept as that error.
\<close>

section \<open>Proofs\<close>

definition build_signature_verification_proof ::
  "artifact_signature \<Rightarrow> signature_verification_key \<Rightarrow> signature_verification_proof" where
  "build_signature_verification_proof signature loaded =
     \<lparr>svp_member_handle = svk_member_handle loaded, svp_kid = sig_kid signature,
      svp_signer_public_key = Some (svk_public_key loaded),
      svp_verifying_key_source = svk_source loaded, svp_warnings = svk_warnings loaded\<rparr>"

definition verify_signature_with_loaded_key ::
  "json_lib \<Rightarrow> crypto_lib \<Rightarrow> rfc3339 \<Rightarrow> int \<Rightarrow> artifact_signature \<Rightarrow>
   (signature_verification_key \<Rightarrow> unit res) \<Rightarrow> signature_verification_proof res" where
  "verify_signature_with_loaded_key J C T now signature verify =
     res_bind (build_verifying_key_from_signature J C T now signature) (\<lambda>loaded.
     res_bind (verify loaded) (\<lambda>_. Inr (build_signature_verification_proof signature loaded)))"

definition append_operational_signer_expiry_warning ::
  "rfc3339 \<Rightarrow> int \<Rightarrow> bool \<Rightarrow> signature_verification_proof \<Rightarrow> signature_verification_proof res" where
  "append_operational_signer_expiry_warning T now allow_expired_key proof =
     (case svp_signer_public_key proof of
        None \<Rightarrow> Inr proof
      | Some signer \<Rightarrow>
          (let expires_at = pk_expires_at (pk_protected signer) in
           if expires_at = [] then Inr proof
           else res_bind (enforce_expired_key_usage T expires_at now allow_expired_key
                            ''Artifact signing key'') (\<lambda>warning.
             case warning of
               None \<Rightarrow> Inr proof
             | Some w \<Rightarrow> Inr (proof\<lparr>svp_warnings := push_unique_warning (svp_warnings proof) w\<rparr>))))"

definition with_operational_warning ::
  "rfc3339 \<Rightarrow> int \<Rightarrow> bool \<Rightarrow> 'd verified_document \<Rightarrow> 'd verified_document res" where
  "with_operational_warning T now allow_expired_key verified =
     res_map (\<lambda>p. verified\<lparr>vd_proof := p\<rparr>)
       (append_operational_signer_expiry_warning T now allow_expired_key (vd_proof verified))"

section \<open>Reports\<close>

record signature_verification_report =
  svr_verified :: bool
  svr_signer_handle :: "string option"
  svr_source :: "verifying_key_source option"
  svr_warnings :: "key_warning list"
  svr_message :: "error + string"
  svr_signer_public_key :: "public_key option"

definition build_error_report :: "error \<Rightarrow> signature_verification_report" where
  "build_error_report e =
     \<lparr>svr_verified = False, svr_signer_handle = None, svr_source = None, svr_warnings = [],
      svr_message = Inl e, svr_signer_public_key = None\<rparr>"

definition build_success_report ::
  "string \<Rightarrow> verifying_key_source \<Rightarrow> key_warning list \<Rightarrow> public_key \<Rightarrow> signature_verification_report" where
  "build_success_report member_handle source warnings signer_public_key =
     \<lparr>svr_verified = True, svr_signer_handle = Some member_handle, svr_source = Some source,
      svr_warnings = warnings, svr_message = Inr ''OK'',
      svr_signer_public_key = Some signer_public_key\<rparr>"

definition build_success_report_from_loaded_key ::
  "signature_verification_key \<Rightarrow> signature_verification_report" where
  "build_success_report_from_loaded_key loaded =
     build_success_report (svk_member_handle loaded) (svk_source loaded) (svk_warnings loaded)
       (svk_public_key loaded)"

definition build_signature_verification_report ::
  "signature_verification_key res \<Rightarrow> (signature_verification_key \<Rightarrow> unit res) \<Rightarrow>
   signature_verification_report" where
  "build_signature_verification_report loaded verify =
     (case loaded of
        Inr loaded \<Rightarrow> (case verify loaded of
            Inr _ \<Rightarrow> build_success_report_from_loaded_key loaded
          | Inl e \<Rightarrow> build_error_report e)
      | Inl e \<Rightarrow> build_error_report e)"

section \<open>File-enc artifacts\<close>

definition verify_loaded_file_signature ::
  "json_lib \<Rightarrow> crypto_lib \<Rightarrow> file_enc_protected \<Rightarrow> artifact_signature \<Rightarrow> signature_verification_key \<Rightarrow>
   unit res" where
  "verify_loaded_file_signature J C protected signature loaded =
     verify_file_signature J C protected (svk_verifying_key loaded) signature"

definition verify_file_document ::
  "json_lib \<Rightarrow> crypto_lib \<Rightarrow> rfc3339 \<Rightarrow> int \<Rightarrow> file_enc_document \<Rightarrow>
   file_enc_document verified_document res" where
  "verify_file_document J C T now doc =
     res_bind (validate_wrap_items (fe_wrap (fed_protected doc))) (\<lambda>_.
     res_bind (verify_signature_with_loaded_key J C T now (fed_signature doc)
        (verify_loaded_file_signature J C (fed_protected doc) (fed_signature doc))) (\<lambda>proof.
     Inr \<lparr>vd_document = doc, vd_proof = proof\<rparr>))"

definition verify_file_document_report ::
  "json_lib \<Rightarrow> crypto_lib \<Rightarrow> rfc3339 \<Rightarrow> int \<Rightarrow> file_enc_document \<Rightarrow> signature_verification_report" where
  "verify_file_document_report J C T now doc =
     build_signature_verification_report (build_verifying_key_from_signature J C T now (fed_signature doc))
       (verify_loaded_file_signature J C (fed_protected doc) (fed_signature doc))"

definition verify_file_content ::
  "json_lib \<Rightarrow> crypto_lib \<Rightarrow> rfc3339 \<Rightarrow> int \<Rightarrow> file_enc_content \<Rightarrow>
   file_enc_document verified_document res" where
  "verify_file_content J C T now content =
     res_bind (file_content_parse J content) (verify_file_document J C T now)"

definition verify_file_content_for_operation ::
  "json_lib \<Rightarrow> crypto_lib \<Rightarrow> rfc3339 \<Rightarrow> int \<Rightarrow> file_enc_content \<Rightarrow> bool \<Rightarrow>
   file_enc_document verified_document res" where
  "verify_file_content_for_operation J C T now content allow_expired_key =
     res_bind (verify_file_content J C T now content) (with_operational_warning T now allow_expired_key)"

section \<open>Kv-enc artifacts\<close>

definition verify_loaded_kv_signature ::
  "json_lib \<Rightarrow> crypto_lib \<Rightarrow> kv_enc_document \<Rightarrow> artifact_signature \<Rightarrow> signature_verification_key \<Rightarrow>
   unit res" where
  "verify_loaded_kv_signature J C doc signature loaded =
     verify_kv_signature J C doc (svk_verifying_key loaded) signature"

definition verify_kv_document ::
  "json_lib \<Rightarrow> crypto_lib \<Rightarrow> rfc3339 \<Rightarrow> int \<Rightarrow> kv_enc_document \<Rightarrow>
   kv_enc_document verified_document res" where
  "verify_kv_document J C T now doc =
     res_bind (validate_wrap_items (kw_wrap (kvd_wrap doc))) (\<lambda>_.
     res_bind (verify_signature_with_loaded_key J C T now (kvd_signature doc)
        (verify_loaded_kv_signature J C doc (kvd_signature doc))) (\<lambda>proof.
     Inr \<lparr>vd_document = doc, vd_proof = proof\<rparr>))"

definition verify_kv_document_report ::
  "json_lib \<Rightarrow> crypto_lib \<Rightarrow> rfc3339 \<Rightarrow> int \<Rightarrow> string \<Rightarrow> signature_verification_report" where
  "verify_kv_document_report J C T now content =
     (case parse_kv_document J content of
        Inr doc \<Rightarrow> build_signature_verification_report
          (build_verifying_key_from_signature J C T now (kvd_signature doc))
          (verify_loaded_kv_signature J C doc (kvd_signature doc))
      | Inl e \<Rightarrow> build_error_report e)"

definition verify_kv_content ::
  "json_lib \<Rightarrow> crypto_lib \<Rightarrow> rfc3339 \<Rightarrow> int \<Rightarrow> kv_enc_content \<Rightarrow> kv_enc_document verified_document res" where
  "verify_kv_content J C T now content =
     res_bind (kv_content_parse J content) (verify_kv_document J C T now)"

definition verify_kv_content_for_operation ::
  "json_lib \<Rightarrow> crypto_lib \<Rightarrow> rfc3339 \<Rightarrow> int \<Rightarrow> kv_enc_content \<Rightarrow> bool \<Rightarrow>
   kv_enc_document verified_document res" where
  "verify_kv_content_for_operation J C T now content allow_expired_key =
     res_bind (verify_kv_content J C T now content) (with_operational_warning T now allow_expired_key)"

section \<open>What verification establishes\<close>

lemma verifying_key_Inr:
  assumes "build_verifying_key_from_signature J C T now sg = Inr loaded"
  shows "verify_signing_public_key J C (sig_signer_pub sg) =
      Inr \<lparr>vsk_document = sig_signer_pub sg, vsk_verifying_key = svk_verifying_key loaded\<rparr>"
    and "sig_kid sg = pk_kid (pk_protected (sig_signer_pub sg))"
    and "svk_member_handle loaded = pk_subject_handle (pk_protected (sig_signer_pub sg))"
    and "svk_public_key loaded = sig_signer_pub sg" "svk_source loaded = SignerPubEmbedded"
proof -
  from assms obtain v where v: "verify_public_key_for_verification J C T now (sig_signer_pub sg) = Inr v"
    and kid: "sig_kid sg = pk_kid (pk_protected (vsk_document (vpv_key v)))"
    and loaded: "loaded = \<lparr>svk_verifying_key = vsk_verifying_key (vpv_key v),
      svk_member_handle = pk_subject_handle (pk_protected (vsk_document (vpv_key v))),
      svk_source = SignerPubEmbedded, svk_warnings = vpv_warnings v, svk_public_key = sig_signer_pub sg\<rparr>"
    by (auto simp: build_verifying_key_from_signature_def build_verifying_key_def Let_def split: if_splits)
  then have key: "verify_signing_public_key J C (sig_signer_pub sg) = Inr (vpv_key v)"
    by (auto simp: verify_public_key_for_verification_def)
  then have "vsk_document (vpv_key v) = sig_signer_pub sg" by (simp add: verify_signing_public_key_Inr)
  moreover from this have "vpv_key v = \<lparr>vsk_document = sig_signer_pub sg,
      vsk_verifying_key = vsk_verifying_key (vpv_key v)\<rparr>" by (cases "vpv_key v") simp
  ultimately show "verify_signing_public_key J C (sig_signer_pub sg) =
      Inr \<lparr>vsk_document = sig_signer_pub sg, vsk_verifying_key = svk_verifying_key loaded\<rparr>"
    "sig_kid sg = pk_kid (pk_protected (sig_signer_pub sg))"
    "svk_member_handle loaded = pk_subject_handle (pk_protected (sig_signer_pub sg))"
    "svk_public_key loaded = sig_signer_pub sg" "svk_source loaded = SignerPubEmbedded"
    using key kid by (simp_all add: loaded)
qed

text \<open>
  What a verifier of a document kind does: the wraps are checked, the key is loaded from the
  signature, the signature is checked under it. File-enc and kv-enc verification are its two
  instances.
\<close>

locale artifact_verifier =
  fixes J :: json_lib and C :: crypto_lib and T :: rfc3339 and now :: int
    and wraps :: "'d \<Rightarrow> wrap_item list" and signature_of :: "'d \<Rightarrow> artifact_signature"
    and check :: "'d \<Rightarrow> u8 list \<Rightarrow> artifact_signature \<Rightarrow> unit res"
    and verify :: "'d \<Rightarrow> 'd verified_document res" and report :: "'d \<Rightarrow> signature_verification_report"
  assumes verify_eq: "verify doc =
      res_bind (validate_wrap_items (wraps doc)) (\<lambda>_.
      res_bind (verify_signature_with_loaded_key J C T now (signature_of doc)
        (\<lambda>loaded. check doc (svk_verifying_key loaded) (signature_of doc))) (\<lambda>proof.
      Inr \<lparr>vd_document = doc, vd_proof = proof\<rparr>))"
    and report_eq: "report doc =
      build_signature_verification_report (build_verifying_key_from_signature J C T now (signature_of doc))
        (\<lambda>loaded. check doc (svk_verifying_key loaded) (signature_of doc))"
begin

text \<open>The public key that the signature names as its signer's.\<close>

definition signer :: "'d \<Rightarrow> public_key" where
  "signer doc = sig_signer_pub (signature_of doc)"

lemma verified:
  assumes "verify doc = Inr v"
  shows "vd_document v = doc" and "validate_wrap_items (wraps doc) = Inr ()"
    and "\<exists>key. verify_signing_public_key J C (signer doc) =
        Inr \<lparr>vsk_document = signer doc, vsk_verifying_key = key\<rparr> \<and>
      check doc key (signature_of doc) = Inr ()"
    and "sig_kid (signature_of doc) = pk_kid (pk_protected (signer doc))"
    and "svp_member_handle (vd_proof v) = pk_subject_handle (pk_protected (signer doc))"
    and "svp_kid (vd_proof v) = sig_kid (signature_of doc)"
    and "svp_signer_public_key (vd_proof v) = Some (signer doc)"
proof -
  from assms obtain loaded where loaded: "build_verifying_key_from_signature J C T now (signature_of doc) = Inr loaded"
    and check: "check doc (svk_verifying_key loaded) (signature_of doc) = Inr ()"
    and wraps: "validate_wrap_items (wraps doc) = Inr ()"
    and v: "v = \<lparr>vd_document = doc, vd_proof = build_signature_verification_proof (signature_of doc) loaded\<rparr>"
    by (auto simp: verify_eq verify_signature_with_loaded_key_def)
  note key = verifying_key_Inr [OF loaded, folded signer_def]
  show "vd_document v = doc" by (simp add: v)
  show "validate_wrap_items (wraps doc) = Inr ()" by (rule wraps)
  show "\<exists>key. verify_signing_public_key J C (signer doc) =
        Inr \<lparr>vsk_document = signer doc, vsk_verifying_key = key\<rparr> \<and>
      check doc key (signature_of doc) = Inr ()"
    using key(1) check by blast
  show "sig_kid (signature_of doc) = pk_kid (pk_protected (signer doc))" by (rule key(2))
  show "svp_member_handle (vd_proof v) = pk_subject_handle (pk_protected (signer doc))"
    "svp_kid (vd_proof v) = sig_kid (signature_of doc)"
    "svp_signer_public_key (vd_proof v) = Some (signer doc)"
    using key(3,4) by (simp_all add: v build_signature_verification_proof_def)
qed

lemma report_of_verified:
  assumes "validate_wrap_items (wraps doc) = Inr ()"
  shows "report doc =
     (case verify doc of
        Inr v \<Rightarrow> build_success_report (svp_member_handle (vd_proof v)) (svp_verifying_key_source (vd_proof v))
          (svp_warnings (vd_proof v)) (signer doc)
      | Inl e \<Rightarrow> build_error_report e)"
  using assms verifying_key_Inr(4) [of J C T now "signature_of doc"]
  by (auto simp: report_eq verify_eq verify_signature_with_loaded_key_def
      build_signature_verification_report_def build_success_report_from_loaded_key_def
      build_signature_verification_proof_def signer_def res_bind_def split: sum.splits)

end

interpretation kv_verifier: artifact_verifier J C T now "\<lambda>doc. kw_wrap (kvd_wrap doc)" kvd_signature
  "verify_kv_signature J C" "verify_kv_document J C T now"
  "\<lambda>doc. build_signature_verification_report
     (build_verifying_key_from_signature J C T now (kvd_signature doc))
     (verify_loaded_kv_signature J C doc (kvd_signature doc))"
  for J C T now
  by unfold_locales (simp_all add: verify_kv_document_def verify_loaded_kv_signature_def [abs_def])

interpretation file_verifier: artifact_verifier J C T now "\<lambda>doc. fe_wrap (fed_protected doc)" fed_signature
  "\<lambda>doc. verify_file_signature J C (fed_protected doc)" "verify_file_document J C T now"
  "verify_file_document_report J C T now"
  for J C T now
  by unfold_locales (simp_all add: verify_file_document_def verify_file_document_report_def
      verify_loaded_file_signature_def [abs_def])

text \<open>The signing key of an artifact in use: current, or expired and reported as such.\<close>

definition signer_in_date :: "rfc3339 \<Rightarrow> int \<Rightarrow> bool \<Rightarrow> signature_verification_proof \<Rightarrow> public_key \<Rightarrow> bool" where
  "signer_in_date T now allow proof signer =
     (let d = pk_expires_at (pk_protected signer) in
      d = [] \<or> live T now d \<or>
      allow \<and> KeyExpiredAllowed ''Artifact signing key'' d \<in> set (svp_warnings proof))"

lemma push_unique_mem: "w \<in> set (push_unique_warning ws w)"
  by (simp add: push_unique_warning_def)

lemma operational_warning:
  assumes "with_operational_warning T now allow v = Inr v'" and "svp_signer_public_key (vd_proof v) = Some signer"
  shows "vd_document v' = vd_document v" "signer_in_date T now allow (vd_proof v') signer"
    "svp_member_handle (vd_proof v') = svp_member_handle (vd_proof v)"
    "svp_kid (vd_proof v') = svp_kid (vd_proof v)"
    "svp_signer_public_key (vd_proof v') = Some signer"
proof -
  let ?d = "pk_expires_at (pk_protected signer)"
  from assms(1) obtain p where p: "append_operational_signer_expiry_warning T now allow (vd_proof v) = Inr p"
    and v': "v' = v\<lparr>vd_proof := p\<rparr>"
    by (auto simp: with_operational_warning_def)
  show "vd_document v' = vd_document v" by (simp add: v')
  show "svp_member_handle (vd_proof v') = svp_member_handle (vd_proof v)"
    "svp_kid (vd_proof v') = svp_kid (vd_proof v)" "svp_signer_public_key (vd_proof v') = Some signer"
    using p assms(2) by (auto simp: v' append_operational_signer_expiry_warning_def Let_def
        split: if_splits option.splits)
  show "signer_in_date T now allow (vd_proof v') signer"
  proof (cases "?d = [] \<or> live T now ?d")
    case False
    have parsed: "T ?d \<noteq> None"
    proof
      assume "T ?d = None"
      then show False
        using False p assms(2) check_key_expiry_unparsed [of T ?d now]
        by (simp add: append_operational_signer_expiry_warning_def Let_def enforce_expired_key_usage_def)
    qed
    have "enforce_expired_key_usage T ?d now allow l =
      enforce_selected_status_usage (Expired ?d) allow l" for l
      using False by (simp add: enforce_expired_key_usage_def check_key_expiry_parsed [of T, OF parsed])
    then show ?thesis
      using p assms(2) False push_unique_mem
      by (auto simp: v' signer_in_date_def append_operational_signer_expiry_warning_def Let_def
          split: if_splits)
  qed (auto simp: signer_in_date_def Let_def)
qed

text \<open>
  C7. An operation only uses artifacts their signer signed: when a kv-enc or a file-enc content
  passes the verification that precedes an operation, it parses to the returned document, its
  recipients are distinct, the embedded signer key passes its own full verification, the signature
  names that key's kid and verifies over the document under it, and the proof names that signer;
  an expired signing key is accepted only when expired keys are allowed, and then the proof says so.
\<close>

theorem operation_uses_signed_artifacts:
  "(case verify_kv_content_for_operation J C T now (KvEncContent text) allow of
      Inl e \<Rightarrow> True
    | Inr kv \<Rightarrow> (let doc = vd_document kv; sg = kvd_signature doc; signer = sig_signer_pub sg in
        \<exists>key. parse_kv_document J text = Inr doc \<and> distinct (map wi_recipient_handle (kw_wrap (kvd_wrap doc))) \<and>
        verify_signing_public_key J C signer = Inr \<lparr>vsk_document = signer, vsk_verifying_key = key\<rparr> \<and>
        sig_kid sg = pk_kid (pk_protected signer) \<and> verify_kv_signature J C doc key sg = Inr () \<and>
        svp_member_handle (vd_proof kv) = pk_subject_handle (pk_protected signer) \<and>
        signer_in_date T now allow (vd_proof kv) signer)) \<and>
   (case verify_file_content_for_operation J C T now (FileEncContent blob) allow of
      Inl e \<Rightarrow> True
    | Inr fl \<Rightarrow> (let doc = vd_document fl; sg = fed_signature doc; signer = sig_signer_pub sg in
        \<exists>key. parse_file_enc_str J blob = Inr doc \<and> distinct (map wi_recipient_handle (fe_wrap (fed_protected doc))) \<and>
        verify_signing_public_key J C signer = Inr \<lparr>vsk_document = signer, vsk_verifying_key = key\<rparr> \<and>
        sig_kid sg = pk_kid (pk_protected signer) \<and>
        verify_file_signature J C (fed_protected doc) key sg = Inr () \<and>
        svp_member_handle (vd_proof fl) = pk_subject_handle (pk_protected signer) \<and>
        signer_in_date T now allow (vd_proof fl) signer))"
proof (rule conjI)
  show "case verify_kv_content_for_operation J C T now (KvEncContent text) allow of
      Inl e \<Rightarrow> True
    | Inr kv \<Rightarrow> (let doc = vd_document kv; sg = kvd_signature doc; signer = sig_signer_pub sg in
        \<exists>key. parse_kv_document J text = Inr doc \<and> distinct (map wi_recipient_handle (kw_wrap (kvd_wrap doc))) \<and>
        verify_signing_public_key J C signer = Inr \<lparr>vsk_document = signer, vsk_verifying_key = key\<rparr> \<and>
        sig_kid sg = pk_kid (pk_protected signer) \<and> verify_kv_signature J C doc key sg = Inr () \<and>
        svp_member_handle (vd_proof kv) = pk_subject_handle (pk_protected signer) \<and>
        signer_in_date T now allow (vd_proof kv) signer)"
  proof (cases "verify_kv_content_for_operation J C T now (KvEncContent text) allow")
    case (Inr kv)
    then obtain doc v where parse: "parse_kv_document J text = Inr doc"
      and v: "verify_kv_document J C T now doc = Inr v" "with_operational_warning T now allow v = Inr kv"
      by (auto simp: verify_kv_content_for_operation_def verify_kv_content_def)
    note kv = kv_verifier.verified [OF v(1), unfolded kv_verifier.signer_def]
    note in_date = operational_warning [OF v(2) kv(7)]
    show ?thesis
      using parse kv(1-5) in_date(1-3) by (simp add: Inr Let_def validate_wrap_items_iff)
  qed simp
  show "case verify_file_content_for_operation J C T now (FileEncContent blob) allow of
      Inl e \<Rightarrow> True
    | Inr fl \<Rightarrow> (let doc = vd_document fl; sg = fed_signature doc; signer = sig_signer_pub sg in
        \<exists>key. parse_file_enc_str J blob = Inr doc \<and> distinct (map wi_recipient_handle (fe_wrap (fed_protected doc))) \<and>
        verify_signing_public_key J C signer = Inr \<lparr>vsk_document = signer, vsk_verifying_key = key\<rparr> \<and>
        sig_kid sg = pk_kid (pk_protected signer) \<and>
        verify_file_signature J C (fed_protected doc) key sg = Inr () \<and>
        svp_member_handle (vd_proof fl) = pk_subject_handle (pk_protected signer) \<and>
        signer_in_date T now allow (vd_proof fl) signer)"
  proof (cases "verify_file_content_for_operation J C T now (FileEncContent blob) allow")
    case (Inr fl)
    then obtain doc w where parse: "parse_file_enc_str J blob = Inr doc"
      and w: "verify_file_document J C T now doc = Inr w" "with_operational_warning T now allow w = Inr fl"
      by (auto simp: verify_file_content_for_operation_def verify_file_content_def)
    note fv = file_verifier.verified [OF w(1), unfolded file_verifier.signer_def]
    note in_date = operational_warning [OF w(2) fv(7)]
    show ?thesis
      using parse fv(1-5) in_date(1-3) by (simp add: Inr Let_def validate_wrap_items_iff)
  qed simp
qed

text \<open>
  C34. The verification report agrees with the verification that gates operations: for every kv-enc
  text and every file-enc text the report says verified exactly when the content verifies, names
  the signer, the key source and the warnings of its proof, and otherwise carries its error.
\<close>

theorem report_agrees_with_verification:
  "verify_kv_document_report J C T now text =
     (case verify_kv_content J C T now (KvEncContent text) of
        Inr v \<Rightarrow> build_success_report (svp_member_handle (vd_proof v)) (svp_verifying_key_source (vd_proof v))
          (svp_warnings (vd_proof v)) (sig_signer_pub (kvd_signature (vd_document v)))
      | Inl e \<Rightarrow> build_error_report e) \<and>
   (case parse_file_enc_str J blob of
      Inr doc \<Rightarrow> verify_file_document_report J C T now doc | Inl e \<Rightarrow> build_error_report e) =
     (case verify_file_content J C T now (FileEncContent blob) of
        Inr v \<Rightarrow> build_success_report (svp_member_handle (vd_proof v)) (svp_verifying_key_source (vd_proof v))
          (svp_warnings (vd_proof v)) (sig_signer_pub (fed_signature (vd_document v)))
      | Inl e \<Rightarrow> build_error_report e)"
proof
  show "verify_kv_document_report J C T now text =
     (case verify_kv_content J C T now (KvEncContent text) of
        Inr v \<Rightarrow> build_success_report (svp_member_handle (vd_proof v)) (svp_verifying_key_source (vd_proof v))
          (svp_warnings (vd_proof v)) (sig_signer_pub (kvd_signature (vd_document v)))
      | Inl e \<Rightarrow> build_error_report e)"
  proof (cases "parse_kv_document J text")
    case (Inr doc)
    then have "validate_wrap_items (kw_wrap (kvd_wrap doc)) = Inr ()"
      by (auto simp: parse_kv_document_def parse_kv_wrap_token_def)
    note rep = kv_verifier.report_of_verified [OF this, of J C T now]
    show ?thesis
      using kv_verifier.verified(1) [of J C T now doc]
      by (auto simp: verify_kv_document_report_def verify_kv_content_def Inr rep kv_verifier.signer_def
          split: sum.splits)
  qed (simp add: verify_kv_document_report_def verify_kv_content_def)
  show "(case parse_file_enc_str J blob of
      Inr doc \<Rightarrow> verify_file_document_report J C T now doc | Inl e \<Rightarrow> build_error_report e) =
     (case verify_file_content J C T now (FileEncContent blob) of
        Inr v \<Rightarrow> build_success_report (svp_member_handle (vd_proof v)) (svp_verifying_key_source (vd_proof v))
          (svp_warnings (vd_proof v)) (sig_signer_pub (fed_signature (vd_document v)))
      | Inl e \<Rightarrow> build_error_report e)"
  proof (cases "parse_file_enc_str J blob")
    case (Inr doc)
    then have "validate_wrap_items (fe_wrap (fed_protected doc)) = Inr ()"
      by (auto simp: parse_file_enc_str_def)
    note rep = file_verifier.report_of_verified [OF this, of J C T now]
    show ?thesis
      using file_verifier.verified(1) [of J C T now doc]
      by (auto simp: verify_file_content_def Inr rep file_verifier.signer_def split: sum.splits)
  qed (simp add: verify_file_content_def)
qed

end
