(* ===== verification/Kv_Ops.thy ===== *)
theory Kv_Ops
  imports Envelope Verify
begin

text \<open>
  The operations on kv-enc files (\<open>feature/kv/*.rs\<close>, \<open>feature/kv/rewrite_session/*.rs\<close>): encrypting
  a map, decrypting it, setting and removing entries. What an operation draws from outside is a
  record: the clock, the keystore's copy of the signer key, and the fresh master key, session id
  and nonces. A \<open>HashMap\<close> is the list of its entries with distinct keys, in its iteration order,
  which is taken to be the order of insertion; the order only decides which fresh nonce an entry
  gets. Tokens have one codec, so the codec arguments of the source do not appear.
\<close>

record op_env =
  oe_json :: json_lib
  oe_crypto :: crypto_lib
  oe_rfc3339 :: rfc3339
  oe_now :: int
  oe_timestamp :: "string res"
  oe_load_signer :: "member_handle \<Rightarrow> kid \<Rightarrow> public_key res"

record fresh_values =
  fv_master_key :: "u8 list"
  fv_sid :: uuid
  fv_seal :: entropy
  fv_nonce :: "nat \<Rightarrow> u8 list"

fun hash_insert :: "'k \<Rightarrow> 'v \<Rightarrow> ('k \<times> 'v) list \<Rightarrow> ('k \<times> 'v) list" where
  "hash_insert k v [] = [(k, v)]"
| "hash_insert k v ((k', v') # m) = (if k' = k then (k, v) # m else (k', v') # hash_insert k v m)"

definition hash_collect :: "('k \<times> 'v) list \<Rightarrow> ('k \<times> 'v) list" where
  "hash_collect kvs = foldl (\<lambda>m (k, v). hash_insert k v m) [] kvs"

definition KV_KEY_NOT_FOUND_RECOVERY :: string where
  "KV_KEY_NOT_FOUND_RECOVERY = ''E_KV_KEY_NOT_FOUND''"

definition build_key_not_found_error :: error where
  "build_key_not_found_error = with_recovery (plain_error InvalidOperation) KV_KEY_NOT_FOUND_RECOVERY"

text \<open>The signing context of an operation; the key it loads passes its full verification.\<close>

definition env_signing_context :: "op_env \<Rightarrow> crypto_context \<Rightarrow> signing_context res" where
  "env_signing_context E cc =
     build_signing_context (oe_rfc3339 E) (oe_now E) (oe_load_signer E)
       (\<lambda>pk. res_map (\<lambda>_. ()) (verify_public_key_with_attestation (oe_json E) (oe_crypto E) pk)) cc"

section \<open>Encrypting\<close>

definition build_kv_encryption ::
  "json_lib \<Rightarrow> crypto_lib \<Rightarrow> fresh_values \<Rightarrow> public_key list \<Rightarrow> uuid \<Rightarrow> string \<Rightarrow>
   (u8 list \<times> kv_header \<times> kv_wrap) res" where
  "build_kv_encryption J C F members sid timestamp =
     (let master_key = fv_master_key F;
          head = \<lparr>kvh_sid = sid, kvh_aead = AEAD_XCHACHA20_POLY1305, kvh_created_at = timestamp,
                  kvh_updated_at = timestamp\<rparr> in
      res_bind (build_wraps_for_recipients J C (fv_seal F) members sid master_key KvWrap) (\<lambda>wrap_items.
      Inr (master_key, head, \<lparr>kw_wrap = wrap_items, kw_removed_recipients = None\<rparr>)))"

definition encrypt_kv_entries ::
  "json_lib \<Rightarrow> crypto_lib \<Rightarrow> (nat \<Rightarrow> u8 list) \<Rightarrow> (string \<times> string) list \<Rightarrow> u8 list \<Rightarrow> uuid \<Rightarrow> bool \<Rightarrow>
   (string \<times> kv_entry_value) list res" where
  "encrypt_kv_entries J C nonce kv_map master_key sid disclosed =
     res_bind (kv_schedule_extract J C master_key sid) (\<lambda>key_schedule.
     res_map (sort_key fst)
       (collect_res (\<lambda>(i, key, value).
          res_map (Pair key) (encrypt_entry J C (nonce i) key value key_schedule sid disclosed))
        (zip [0..<length kv_map] kv_map)))"

definition encode_kv_entries_to_tokens ::
  "json_lib \<Rightarrow> (string \<times> kv_entry_value) list \<Rightarrow> (string \<times> string) list res" where
  "encode_kv_entries_to_tokens J entries =
     collect_res (\<lambda>(key, entry). res_map (Pair key) (token_encode J (se_kv_entry entry))) entries"

definition sign_unsigned_kv_document ::
  "json_lib \<Rightarrow> crypto_lib \<Rightarrow> kv_draft \<Rightarrow> u8 list \<Rightarrow> signing_context \<Rightarrow> string res" where
  "sign_unsigned_kv_document J C unsigned_draft master_key signing =
     res_bind (kv_schedule_extract J C master_key (kvh_sid (dr_head unsigned_draft))) (\<lambda>key_schedule.
     res_bind (kv_derive_mac_key J C key_schedule) (\<lambda>mac_key.
     res_bind (serialize_unsigned J unsigned_draft) (\<lambda>content.
     sign_kv_document J C content mac_key signing)))"

text \<open>\<open>mutate_wrap\<close> is what the caller does to the freshly built wrap.\<close>

definition build_encrypted_kv ::
  "op_env \<Rightarrow> fresh_values \<Rightarrow> (string \<times> string) list \<Rightarrow> public_key list \<Rightarrow> bool \<Rightarrow>
   (kv_wrap \<Rightarrow> kv_wrap res) \<Rightarrow> (kv_draft \<times> u8 list) res" where
  "build_encrypted_kv E F kv_map members disclosed mutate_wrap =
     (let J = oe_json E; C = oe_crypto E in
      res_bind (oe_timestamp E) (\<lambda>timestamp.
      let sid = fv_sid F in
      res_bind (build_kv_encryption J C F members sid timestamp) (\<lambda>(master_key, head_data, wrap_data).
      res_bind (mutate_wrap wrap_data) (\<lambda>wrap_data.
      res_bind (encrypt_kv_entries J C (fv_nonce F) kv_map master_key sid disclosed) (\<lambda>entries.
      res_bind (encode_kv_entries_to_tokens J entries) (\<lambda>encoded.
      Inr (builder_with_entries encoded (builder_new head_data wrap_data), master_key)))))))"

definition encrypt_kv_map_with_wrap_mutation ::
  "op_env \<Rightarrow> fresh_values \<Rightarrow> (string \<times> string) list \<Rightarrow> public_key list \<Rightarrow> signing_context \<Rightarrow> bool \<Rightarrow>
   (kv_wrap \<Rightarrow> kv_wrap res) \<Rightarrow> string res" where
  "encrypt_kv_map_with_wrap_mutation E F kv_map members signing disclosed mutate_wrap =
     res_bind (build_encrypted_kv E F kv_map members disclosed mutate_wrap) (\<lambda>(unsigned_draft, master_key).
     sign_unsigned_kv_document (oe_json E) (oe_crypto E) unsigned_draft master_key signing)"

definition encrypt_kv_map_with_key_context ::
  "op_env \<Rightarrow> fresh_values \<Rightarrow> (string \<times> string) list \<Rightarrow> public_key list \<Rightarrow> crypto_context \<Rightarrow> bool \<Rightarrow>
   (kv_wrap \<Rightarrow> kv_wrap res) \<Rightarrow> string res" where
  "encrypt_kv_map_with_key_context E F kv_map members cc disclosed mutate_wrap =
     res_bind (env_signing_context E cc) (\<lambda>signing.
     encrypt_kv_map_with_wrap_mutation E F kv_map members signing disclosed mutate_wrap)"

section \<open>Decrypting\<close>

fun decrypt_kv_entries_loop ::
  "json_lib \<Rightarrow> crypto_lib \<Rightarrow> key_schedule \<Rightarrow> uuid \<Rightarrow> string \<Rightarrow> (string \<times> u8 list) list \<Rightarrow>
   kv_enc_entry list \<Rightarrow> (string \<times> u8 list) list res" where
  "decrypt_kv_entries_loop J C key_schedule sid aead kv_map [] = Inr kv_map"
| "decrypt_kv_entries_loop J C key_schedule sid aead kv_map (entry # entries) =
     res_bind (decrypt_entry J C (ke_value entry) (ke_key entry) aead key_schedule sid) (\<lambda>value.
     decrypt_kv_entries_loop J C key_schedule sid aead (hash_insert (ke_key entry) value kv_map) entries)"

definition decrypt_kv_entries ::
  "json_lib \<Rightarrow> crypto_lib \<Rightarrow> kv_enc_entry list \<Rightarrow> key_schedule \<Rightarrow> uuid \<Rightarrow> string \<Rightarrow>
   (string \<times> u8 list) list res" where
  "decrypt_kv_entries J C entries key_schedule sid aead =
     decrypt_kv_entries_loop J C key_schedule sid aead [] entries"

definition document_entry :: "kv_enc_document \<Rightarrow> string \<Rightarrow> kv_enc_entry option" where
  "document_entry doc key = find (\<lambda>e. ke_key e = key) (kvd_entries doc)"

definition decrypt_kv_single_entry_with_context ::
  "json_lib \<Rightarrow> crypto_lib \<Rightarrow> kv_enc_document verified_document \<Rightarrow> string \<Rightarrow> crypto_context \<Rightarrow> string \<Rightarrow>
   (u8 list \<times> decryption_key_info) res" where
  "decrypt_kv_single_entry_with_context J C verified_doc member_handle cc key =
     (let doc = vd_document verified_doc; sid = kvh_sid (kvd_head doc) in
      res_bind (unwrap_master_key_for_kv_with_context J C sid (kw_wrap (kvd_wrap doc)) member_handle cc)
        (\<lambda>(master_key, key_info).
      res_bind (verify_kv_key_possession J C verified_doc master_key) (\<lambda>possession.
      res_bind (ok_or build_key_not_found_error (document_entry doc key)) (\<lambda>entry.
      res_bind (decrypt_entry J C (ke_value entry) (ke_key entry) (kvh_aead (kvd_head doc))
                  (kkp_key_schedule possession) sid) (\<lambda>value.
      Inr (value, key_info))))))"

definition decrypt_kv_document_with_context ::
  "json_lib \<Rightarrow> crypto_lib \<Rightarrow> kv_enc_document verified_document \<Rightarrow> string \<Rightarrow> crypto_context \<Rightarrow>
   ((string \<times> u8 list) list \<times> decryption_key_info) res" where
  "decrypt_kv_document_with_context J C verified_doc member_handle cc =
     (let doc = vd_document verified_doc; sid = kvh_sid (kvd_head doc) in
      res_bind (unwrap_master_key_for_kv_with_context J C sid (kw_wrap (kvd_wrap doc)) member_handle cc)
        (\<lambda>(master_key, key_info).
      res_bind (verify_kv_key_possession J C verified_doc master_key) (\<lambda>possession.
      res_bind (decrypt_kv_entries J C (kvd_entries doc) (kkp_key_schedule possession) sid
                  (kvh_aead (kvd_head doc))) (\<lambda>kv_map.
      Inr (kv_map, key_info)))))"

section \<open>Querying\<close>

definition list_kv_keys_with_disclosed :: "json_lib \<Rightarrow> kv_enc_content \<Rightarrow> (string \<times> bool) list res" where
  "list_kv_keys_with_disclosed J content =
     res_bind (kv_content_parse J content) (\<lambda>doc.
     Inr (sort_key fst (map (\<lambda>entry. (ke_key entry, ev_disclosed (ke_value entry))) (kvd_entries doc))))"

definition decode_decrypted_kv_value :: "u8 list \<Rightarrow> string res" where
  "decode_decrypted_kv_value value =
     (if utf8_valid value then Inr (from_bytes value) else Inl (plain_error Parse))"

definition decode_decrypted_kv_values :: "(string \<times> u8 list) list \<Rightarrow> (string \<times> string) list res" where
  "decode_decrypted_kv_values kv_map =
     res_map (foldl (\<lambda>m (k, v). btree_insert k v m) [])
       (collect_res (\<lambda>(key, value). res_map (Pair key) (decode_decrypted_kv_value value)) kv_map)"

section \<open>Rewriting a document\<close>

record rewrite_session =
  rs_verified :: "kv_enc_document verified_document"
  rs_member_handle :: string
  rs_key_ctx :: crypto_context

definition session_load ::
  "op_env \<Rightarrow> kv_enc_content \<Rightarrow> string \<Rightarrow> crypto_context \<Rightarrow> rewrite_session res" where
  "session_load E content member_handle cc =
     res_bind (verify_kv_content (oe_json E) (oe_crypto E) (oe_rfc3339 E) (oe_now E) content) (\<lambda>verified.
     Inr \<lparr>rs_verified = verified, rs_member_handle = member_handle, rs_key_ctx = cc\<rparr>)"

definition session_document :: "rewrite_session \<Rightarrow> kv_enc_document" where
  "session_document s = vd_document (rs_verified s)"

definition session_disclosed :: "rewrite_session \<Rightarrow> bool" where
  "session_disclosed s = list_ex (\<lambda>e. ev_disclosed (ke_value e)) (kvd_entries (session_document s))"

definition build_unsigned :: "json_lib \<Rightarrow> rewrite_session \<Rightarrow> kv_header \<Rightarrow> kv_draft res" where
  "build_unsigned J s head = builder_from_document J head None (session_document s)"

definition session_sign :: "op_env \<Rightarrow> rewrite_session \<Rightarrow> kv_draft \<Rightarrow> u8 list \<Rightarrow> string res" where
  "session_sign E s unsigned_draft master_key =
     res_bind (env_signing_context E (rs_key_ctx s)) (\<lambda>signing.
     sign_unsigned_kv_document (oe_json E) (oe_crypto E) unsigned_draft master_key signing)"

definition unwrap_master_key_from_verified ::
  "json_lib \<Rightarrow> crypto_lib \<Rightarrow> kv_enc_document verified_document \<Rightarrow> string \<Rightarrow> crypto_context \<Rightarrow> u8 list res" where
  "unwrap_master_key_from_verified J C verified member_handle cc =
     (let doc = vd_document verified in
      res_bind (res_map fst (unwrap_master_key_for_kv_with_context J C (kvh_sid (kvd_head doc))
                  (kw_wrap (kvd_wrap doc)) member_handle cc)) (\<lambda>master_key.
      res_map kkp_master_key (verify_kv_key_possession J C verified master_key)))"

definition session_unwrap_master_key :: "op_env \<Rightarrow> rewrite_session \<Rightarrow> u8 list res" where
  "session_unwrap_master_key E s =
     unwrap_master_key_from_verified (oe_json E) (oe_crypto E) (rs_verified s) (rs_member_handle s) (rs_key_ctx s)"

definition decrypt_all_values :: "op_env \<Rightarrow> rewrite_session \<Rightarrow> (string \<times> string) list res" where
  "decrypt_all_values E s =
     res_bind (decrypt_kv_document_with_context (oe_json E) (oe_crypto E) (rs_verified s)
                 (rs_member_handle s) (rs_key_ctx s)) (\<lambda>(kv_map, _).
     decode_decrypted_kv_values kv_map)"

definition build_updated_header :: "op_env \<Rightarrow> kv_enc_document \<Rightarrow> kv_header res" where
  "build_updated_header E doc =
     res_bind (oe_timestamp E) (\<lambda>now.
     Inr ((kvd_head doc)\<lparr>kvh_updated_at := now\<rparr>))"

section \<open>Setting and removing entries\<close>

record kv_write_context =
  kwc_member_handle :: string
  kwc_key_ctx :: crypto_context

definition build_entry_tokens ::
  "json_lib \<Rightarrow> crypto_lib \<Rightarrow> (nat \<Rightarrow> u8 list) \<Rightarrow> (string \<times> string) list \<Rightarrow> u8 list \<Rightarrow> uuid \<Rightarrow>
   (string \<times> string) list res" where
  "build_entry_tokens J C nonce entries master_key sid =
     res_bind (kv_schedule_extract J C master_key sid) (\<lambda>key_schedule.
     res_map hash_collect
       (collect_res (\<lambda>(i, key, value).
          res_bind (encrypt_entry J C (nonce i) key value key_schedule sid False) (\<lambda>new_entry.
          res_map (Pair key) (token_encode J (se_kv_entry new_entry))))
        (zip [0..<length entries] entries)))"

definition build_current_wrap ::
  "json_lib \<Rightarrow> crypto_lib \<Rightarrow> entropy \<Rightarrow> uuid \<Rightarrow> public_key list \<Rightarrow> u8 list \<Rightarrow>
   removed_recipient list option \<Rightarrow> kv_wrap res" where
  "build_current_wrap J C rnd sid members master_key removed_recipients =
     res_bind (build_wraps_for_recipients J C rnd members sid master_key KvWrap) (\<lambda>wrap.
     Inr \<lparr>kw_wrap = wrap, kw_removed_recipients = removed_recipients\<rparr>)"

definition contains_key :: "kv_enc_line list \<Rightarrow> string \<Rightarrow> bool" where
  "contains_key lines key = list_ex (\<lambda>line. case line of KV existing _ \<Rightarrow> existing = key | _ \<Rightarrow> False) lines"

text \<open>What \<open>rewrite_existing_kv_content\<close> signs: the draft it has built and the master key.\<close>

definition rewritten_draft ::
  "op_env \<Rightarrow> fresh_values \<Rightarrow> rewrite_session \<Rightarrow> public_key list \<Rightarrow>
   (kv_draft \<Rightarrow> rewrite_session \<Rightarrow> u8 list \<Rightarrow> kv_draft res) \<Rightarrow> (kv_draft \<times> u8 list) res" where
  "rewritten_draft E F session recipients mutate_unsigned =
     res_bind (build_updated_header E (session_document session)) (\<lambda>head.
     let sid = kvh_sid (kvd_head (session_document session));
         removed_recipients = kw_removed_recipients (kvd_wrap (session_document session)) in
     res_bind (session_unwrap_master_key E session) (\<lambda>master_key.
     res_bind (build_unsigned (oe_json E) session head) (\<lambda>unsigned_draft.
     res_bind (mutate_unsigned unsigned_draft session master_key) (\<lambda>unsigned_draft.
     res_bind (build_current_wrap (oe_json E) (oe_crypto E) (fv_seal F) sid recipients master_key
                 removed_recipients) (\<lambda>wrap.
     Inr (set_wrap wrap unsigned_draft, master_key))))))"

definition rewrite_existing_kv_content ::
  "op_env \<Rightarrow> fresh_values \<Rightarrow> kv_enc_content \<Rightarrow> public_key list \<Rightarrow> kv_write_context \<Rightarrow>
   (kv_draft \<Rightarrow> rewrite_session \<Rightarrow> u8 list \<Rightarrow> kv_draft res) \<Rightarrow> string res" where
  "rewrite_existing_kv_content E F content recipients ctx mutate_unsigned =
     res_bind (session_load E content (kwc_member_handle ctx) (kwc_key_ctx ctx)) (\<lambda>session.
     res_bind (rewritten_draft E F session recipients mutate_unsigned) (\<lambda>(unsigned_draft, master_key).
     session_sign E session unsigned_draft master_key))"

definition set_entries_mutation ::
  "op_env \<Rightarrow> fresh_values \<Rightarrow> (string \<times> string) list \<Rightarrow> kv_draft \<Rightarrow> rewrite_session \<Rightarrow> u8 list \<Rightarrow> kv_draft res" where
  "set_entries_mutation E F entries unsigned_draft session master_key =
     res_bind (build_entry_tokens (oe_json E) (oe_crypto E) (fv_nonce F) entries master_key
                 (kvh_sid (kvd_head (session_document session)))) (\<lambda>entry_tokens.
     Inr (set_entries entry_tokens unsigned_draft))"

definition unset_entry_mutation :: "string \<Rightarrow> kv_draft \<Rightarrow> rewrite_session \<Rightarrow> u8 list \<Rightarrow> kv_draft res" where
  "unset_entry_mutation key unsigned_draft session _ =
     (if \<not> contains_key (kvd_lines (session_document session)) key then Inl build_key_not_found_error
      else Inr (unset_entry key unsigned_draft))"

definition set_kv_new_file ::
  "op_env \<Rightarrow> fresh_values \<Rightarrow> (string \<times> string) list \<Rightarrow> public_key list \<Rightarrow> kv_write_context \<Rightarrow>
   kv_enc_content res" where
  "set_kv_new_file E F entries recipients ctx =
     res_map KvEncContent
       (encrypt_kv_map_with_key_context E F (hash_collect entries) recipients (kwc_key_ctx ctx) False Inr)"

definition set_kv_existing_file ::
  "op_env \<Rightarrow> fresh_values \<Rightarrow> kv_enc_content \<Rightarrow> (string \<times> string) list \<Rightarrow> public_key list \<Rightarrow>
   kv_write_context \<Rightarrow> kv_enc_content res" where
  "set_kv_existing_file E F content entries recipients ctx =
     res_map KvEncContent
       (rewrite_existing_kv_content E F content recipients ctx (set_entries_mutation E F entries))"

definition set_kv_entry_with_recipients ::
  "op_env \<Rightarrow> fresh_values \<Rightarrow> kv_enc_content option \<Rightarrow> (string \<times> string) list \<Rightarrow> public_key list \<Rightarrow>
   kv_write_context \<Rightarrow> kv_enc_content res" where
  "set_kv_entry_with_recipients E F existing_content entries recipients ctx =
     (case existing_content of
        None \<Rightarrow> set_kv_new_file E F entries recipients ctx
      | Some content \<Rightarrow> set_kv_existing_file E F content entries recipients ctx)"

definition unset_kv_entry_with_recipients ::
  "op_env \<Rightarrow> fresh_values \<Rightarrow> kv_enc_content \<Rightarrow> string \<Rightarrow> public_key list \<Rightarrow> kv_write_context \<Rightarrow> string res" where
  "unset_kv_entry_with_recipients E F content key recipients ctx =
     rewrite_existing_kv_content E F content recipients ctx (unset_entry_mutation key)"

section \<open>Maps and lists\<close>

lemma hash_insert_fresh: "k \<notin> fst ` set m \<Longrightarrow> hash_insert k v m = m @ [(k, v)]"
  by (induction m) auto

lemma hash_insert_keys: "set (map fst (hash_insert k v m)) = insert k (set (map fst m))"
  by (induction k v m rule: hash_insert.induct) (simp_all add: insert_commute)

lemma hash_insert_distinct: "distinct (map fst m) \<Longrightarrow> distinct (map fst (hash_insert k v m))"
proof (induction k v m rule: hash_insert.induct)
  case (2 k v k' v' m)
  then show ?case using hash_insert_keys [of k v m] by (cases "k' = k") simp_all
qed simp

lemma map_of_hash_insert: "map_of (hash_insert k v m) = (map_of m)(k \<mapsto> v)"
  by (induction m) (auto simp: fun_eq_iff)

lemma hash_collect_snoc: "hash_collect (kvs @ [(k, v)]) = hash_insert k v (hash_collect kvs)"
  by (simp add: hash_collect_def)

lemma hash_collect_Nil: "hash_collect [] = []"
  by (simp add: hash_collect_def)

lemma hash_collect_distinct: "distinct (map fst (hash_collect kvs))"
  by (induction kvs rule: rev_induct) (simp_all add: hash_collect_Nil hash_collect_snoc hash_insert_distinct split_paired_all)

lemma hash_collect_keys: "set (map fst (hash_collect kvs)) = set (map fst kvs)"
proof (induction kvs rule: rev_induct)
  case (snoc kv kvs)
  obtain k v where "kv = (k, v)" by (cases kv)
  with snoc show ?case by (simp only: hash_collect_snoc hash_insert_keys) simp
qed (simp add: hash_collect_Nil)

lemma map_of_hash_collect: "map_of (hash_collect kvs) = map_of (rev kvs)"
proof (induction kvs rule: rev_induct)
  case (snoc kv kvs)
  obtain k v where "kv = (k, v)" by (cases kv)
  with snoc show ?case by (simp add: hash_collect_snoc map_of_hash_insert)
qed (simp add: hash_collect_Nil)

lemma decrypt_loop_iff:
  "distinct (map fst acc @ map ke_key es) \<Longrightarrow>
   decrypt_kv_entries_loop J C ks sid aead acc es = Inr kv \<longleftrightarrow>
     (\<exists>vs. list_all2 (\<lambda>e v. decrypt_entry J C (ke_value e) (ke_key e) aead ks sid = Inr v) es vs \<and>
       kv = acc @ zip (map ke_key es) vs)"
proof (induction es arbitrary: acc)
  case (Cons e es)
  have fresh: "hash_insert (ke_key e) v acc = acc @ [(ke_key e, v)]" for v
    using Cons.prems by (intro hash_insert_fresh) auto
  have step: "decrypt_kv_entries_loop J C ks sid aead (acc @ [(ke_key e, v)]) es = Inr kv \<longleftrightarrow>
     (\<exists>vs. list_all2 (\<lambda>e v. decrypt_entry J C (ke_value e) (ke_key e) aead ks sid = Inr v) es vs \<and>
       kv = (acc @ [(ke_key e, v)]) @ zip (map ke_key es) vs)" for v
    using Cons.prems by (intro Cons.IH) auto
  show ?case
  proof
    assume "decrypt_kv_entries_loop J C ks sid aead acc (e # es) = Inr kv"
    then obtain v vs where "decrypt_entry J C (ke_value e) (ke_key e) aead ks sid = Inr v"
      "list_all2 (\<lambda>e v. decrypt_entry J C (ke_value e) (ke_key e) aead ks sid = Inr v) es vs"
      "kv = acc @ [(ke_key e, v)] @ zip (map ke_key es) vs"
      by (auto simp: fresh step)
    then show "\<exists>vs. list_all2 (\<lambda>e v. decrypt_entry J C (ke_value e) (ke_key e) aead ks sid = Inr v) (e # es) vs \<and>
        kv = acc @ zip (map ke_key (e # es)) vs"
      by (intro exI [of _ "v # vs"]) simp
  qed (auto simp: fresh step list_all2_Cons1)
qed auto

lemma decrypt_kv_entries_iff:
  "distinct (map ke_key es) \<Longrightarrow>
   decrypt_kv_entries J C es ks sid aead = Inr kv \<longleftrightarrow>
     (\<exists>vs. list_all2 (\<lambda>e v. decrypt_entry J C (ke_value e) (ke_key e) aead ks sid = Inr v) es vs \<and>
       kv = zip (map ke_key es) vs)"
  using decrypt_loop_iff [of "[]" es] by (simp add: decrypt_kv_entries_def)

section \<open>What is written is read back\<close>

text \<open>
  The values a draft and the signed text carry are ones the JSON libraries carry, and the text is
  within the size limits.
\<close>

definition written_carried :: "op_env \<Rightarrow> crypto_context \<Rightarrow> kv_draft \<Rightarrow> u8 list \<Rightarrow> string \<Rightarrow> bool" where
  "written_carried E cc d mk text \<longleftrightarrow>
     (let J = oe_json E; C = oe_crypto E in
      length text \<le> MAX_KV_ENC_FILE_SIZE \<and> length (dr_entries d) \<le> MAX_KV_KEY_LINES \<and>
      storable J SchemaKvHead (se_kv_header J (dr_head d)) \<and>
      jl_uuid_parse J (jl_uuid_show J (kvh_sid (dr_head d))) = Some (kvh_sid (dr_head d)) \<and>
      (ws_token (dr_wrap d) = None \<longrightarrow> storable J SchemaKvWrap (se_kv_wrap (ws_data (dr_wrap d)))) \<and>
      (\<forall>e\<in>set (dr_entries d). \<forall>v. token_encode J (se_kv_entry v) = Inr (de_token e) \<longrightarrow>
         storable J SchemaKvEntry (se_kv_entry v)) \<and>
      (\<forall>body ks mac sc. serialize_unsigned J d = Inr body \<longrightarrow>
         kv_schedule_extract J C mk (kvh_sid (dr_head d)) = Inr ks \<longrightarrow> kv_derive_mac_key J C ks = Inr mac \<longrightarrow>
         env_signing_context E cc = Inr sc \<longrightarrow>
         storable J SchemaArtifactSignature
           (se_artifact_signature (expected_signature J C (as_bytes body) mac sc))))"

text \<open>The keys of a context belong together, and its public half has an expiry the clock can read.\<close>

definition signer_consistent :: "op_env \<Rightarrow> crypto_context \<Rightarrow> bool" where
  "signer_consistent E cc \<longleftrightarrow>
     ed25519_pair (oe_crypto E) (cc_signing_key cc) (lki_sig_x (cc_local_key_identity cc)) \<and>
     lki_kid (cc_local_key_identity cc) = cc_kid cc \<and>
     (\<forall>pk. oe_load_signer E (cc_member_handle cc) (cc_kid cc) = Inr pk \<longrightarrow>
        pk_expires_at (pk_protected pk) = [] \<or> oe_rfc3339 E (pk_expires_at (pk_protected pk)) \<noteq> None)"

lemma expiry_warning_total:
  "pk_expires_at (pk_protected pk) = [] \<or> T (pk_expires_at (pk_protected pk)) \<noteq> None \<Longrightarrow>
   \<exists>w. build_public_key_expiry_warning T now pk = Inr w"
  by (auto simp: build_public_key_expiry_warning_def Let_def check_key_expiry_parsed split: if_splits)

text \<open>A signature made in a signing context names a key that every verifier loads.\<close>

lemma signing_context_key:
  assumes "env_signing_context E cc = Inr sc" and "signer_consistent E cc"
    and "sig_signer_pub sg = sc_signer_pub sc" and "sig_kid sg = sc_signer_kid sc"
  shows "\<exists>loaded. build_verifying_key_from_signature (oe_json E) (oe_crypto E) (oe_rfc3339 E) (oe_now E) sg = Inr loaded \<and>
    svk_verifying_key loaded = lki_sig_x (cc_local_key_identity cc) \<and>
    sc_signing_key sc = cc_signing_key cc"
proof -
  let ?J = "oe_json E" and ?C = "oe_crypto E" and ?pk = "sc_signer_pub sc"
  from assms(1) obtain pk pk' where load: "oe_load_signer E (cc_member_handle cc) (cc_kid cc) = Inr pk"
    and verify: "verify_public_key_with_attestation ?J ?C pk = Inr pk'"
    and match: "matches_public_key (cc_local_key_identity cc) pk = Inr True"
    and sc: "sc = \<lparr>sc_signing_key = cc_signing_key cc, sc_signer_kid = kid_str (cc_kid cc), sc_signer_pub = pk\<rparr>"
    by (auto simp: env_signing_context_def build_signing_context_def Kid_from_canonical_iff
        ensure_signer_public_key_matches_signing_key_def split: if_splits)
  from verify obtain v where v: "verify_signing_public_key ?J ?C pk = Inr v"
    by (auto simp: verify_public_key_with_attestation_def)
  then have doc: "vsk_document v = pk" and self: "verify_public_key_self_signature ?J ?C pk = Inr (vsk_verifying_key v)"
    by (simp_all add: verify_signing_public_key_Inr)
  from match have kid: "pk_kid (pk_protected pk) = kid_str (cc_kid cc)"
    and sig_x: "decode_base64url_nopad_array 32 (jwk_x (ik_sig (pk_keys (pk_protected pk)))) =
      Inr (lki_sig_x (cc_local_key_identity cc))"
    using assms(2) by (auto simp: matches_public_key_iff signer_consistent_def)
  from self sig_x have key: "vsk_verifying_key v = lki_sig_x (cc_local_key_identity cc)"
    by (auto simp: verify_public_key_self_signature_def split: if_splits)
  obtain w where "build_public_key_expiry_warning (oe_rfc3339 E) (oe_now E) pk = Inr w"
    using expiry_warning_total assms(2) load unfolding signer_consistent_def by blast
  then show ?thesis
    using v doc key kid assms(3,4)
    by (simp add: build_verifying_key_from_signature_def build_verifying_key_def sc
        verify_public_key_for_verification_def Let_def)
qed

lemma written_document:
  assumes sign: "sign_unsigned_kv_document (oe_json E) (oe_crypto E) d mk sc = Inr text"
    and sc: "env_signing_context E cc = Inr sc" "signer_consistent E cc" "hmac_ok (oe_crypto E)"
    and carried: "written_carried E cc d mk text"
      "\<And>t. ws_token (dr_wrap d) = Some t \<Longrightarrow> token_ok t \<and> parse_kv_wrap_token (oe_json E) t = Inr (ws_data (dr_wrap d))"
    and wraps: "validate_wrap_items (kw_wrap (ws_data (dr_wrap d))) = Inr ()"
    and keys: "draft_inv d" "\<forall>e\<in>set (dr_entries d). is_valid_key_name (de_key e)"
    and vs: "list_all2 (\<lambda>e v. parse_kv_entry_token (oe_json E) (de_token e) = Inr v) (dr_entries d) vs"
  shows "\<exists>v ks. verify_kv_content (oe_json E) (oe_crypto E) (oe_rfc3339 E) (oe_now E) (KvEncContent text) = Inr v \<and>
    kvd_head (vd_document v) = dr_head d \<and> kvd_wrap (vd_document v) = ws_data (dr_wrap d) \<and>
    map ke_key (kvd_entries (vd_document v)) = map de_key (dr_entries d) \<and>
    map ke_token (kvd_entries (vd_document v)) = map de_token (dr_entries d) \<and>
    map ke_value (kvd_entries (vd_document v)) = vs \<and>
    svp_member_handle (vd_proof v) = pk_subject_handle (pk_protected (sc_signer_pub sc)) \<and>
    kv_schedule_extract (oe_json E) (oe_crypto E) mk (kvh_sid (dr_head d)) = Inr ks \<and>
    verify_kv_key_possession (oe_json E) (oe_crypto E) v mk =
      Inr \<lparr>kkp_document = v, kkp_master_key = mk, kkp_key_schedule = ks\<rparr>"
proof -
  let ?J = "oe_json E" and ?C = "oe_crypto E" and ?T = "oe_rfc3339 E" and ?now = "oe_now E"
  from sign obtain ks mac body where ks: "kv_schedule_extract ?J ?C mk (kvh_sid (dr_head d)) = Inr ks"
    and mac: "kv_derive_mac_key ?J ?C ks = Inr mac" and ser: "serialize_unsigned ?J d = Inr body"
    and sk: "sign_kv_document ?J ?C body mac sc = Inr text"
    by (auto simp: sign_unsigned_kv_document_def)
  let ?sg = "expected_signature ?J ?C (as_bytes body) mac sc"
  from sk obtain t where t: "token_encode ?J (se_artifact_signature ?sg) = Inr t"
    and content: "text = body @ '':SIG '' @ t @ [LF]"
    by (auto simp: sign_kv_document_eq [OF sc(3)])
  have stored: "storable ?J SchemaArtifactSignature (se_artifact_signature ?sg)"
    using carried(1) ks mac ser sc(1) unfolding written_carried_def Let_def by blast
  have writable: "draft_writable ?J d vs"
    using carried wraps keys vs
    by (auto simp: draft_writable_def written_carried_def wrap_source_ok_def Let_def split: option.split)
  have valid: "kpp_valid (sig_mac ?sg)" by (simp add: possession_proof_built [OF sc(3)])
  have "length (body @ '':SIG '' @ t @ [LF]) \<le> MAX_KV_ENC_FILE_SIZE"
    using carried(1) by (simp only: written_carried_def Let_def content)
  from draft_text_parses [OF ser t writable stored valid this]
  obtain doc where doc: "parse_kv_document ?J text = Inr doc" "kvd_head doc = dr_head d"
    "kvd_wrap doc = ws_data (dr_wrap d)" "kvd_signature doc = ?sg"
    "map ke_key (kvd_entries doc) = map de_key (dr_entries d)"
    "map ke_token (kvd_entries doc) = map de_token (dr_entries d)" "map ke_value (kvd_entries doc) = vs"
    and bytes: "build_kv_artifact_body_bytes doc = as_bytes body"
    unfolding content build_kv_artifact_body_bytes_def by blast
  obtain loaded where loaded: "build_verifying_key_from_signature ?J ?C ?T ?now ?sg = Inr loaded"
    "svk_verifying_key loaded = lki_sig_x (cc_local_key_identity cc)" "sc_signing_key sc = cc_signing_key cc"
    using signing_context_key [OF sc(1,2), of ?sg] by auto
  then have pair: "ed25519_pair ?C (sc_signing_key sc) (svk_verifying_key loaded)"
    using sc(2) by (simp add: signer_consistent_def)
  have "verify_kv_signature ?J ?C doc (svk_verifying_key loaded) ?sg = Inr ()"
    using expected_signature_verifies [OF pair refl] by (simp add: verify_kv_signature_def bytes)
  then obtain v where v: "verify_kv_content ?J ?C ?T ?now (KvEncContent text) = Inr v" "vd_document v = doc"
    "svp_member_handle (vd_proof v) = svk_member_handle loaded"
    using doc loaded(1) wraps
    by (simp add: verify_kv_content_def verify_kv_document_def verify_signature_with_loaded_key_def
        verify_loaded_kv_signature_def build_signature_verification_proof_def)
  have "verify_kv_key_possession ?J ?C v mk = Inr \<lparr>kkp_document = v, kkp_master_key = mk, kkp_key_schedule = ks\<rparr>"
    by (simp add: verify_kv_key_possession_def Let_def v(2) doc(2,4) ks mac bytes possession_proof_verifies)
  then show ?thesis
    using v doc ks verifying_key_Inr(3) [OF loaded(1)] by (intro exI [of _ v] exI [of _ ks]) simp
qed

text \<open>
  The abstract value of a kv-enc file: a signed text that every one of its members, with a context
  that holds its key, decrypts to the map \<open>M\<close>.
\<close>

definition kv_holds :: "op_env \<Rightarrow> public_key list \<Rightarrow> string \<Rightarrow> (string \<rightharpoonup> u8 list) \<Rightarrow> bool" where
  "kv_holds E members text M \<longleftrightarrow>
     (\<exists>v. verify_kv_content (oe_json E) (oe_crypto E) (oe_rfc3339 E) (oe_now E) (KvEncContent text) = Inr v \<and>
       (\<forall>m\<in>set members. \<forall>cc. holds_key (oe_crypto E) cc m \<longrightarrow>
          (\<exists>kv info. decrypt_kv_document_with_context (oe_json E) (oe_crypto E) v
             (pk_subject_handle (pk_protected m)) cc = Inr (kv, info) \<and> map_of kv = M)))"

text \<open>The recipients of a write: distinct members with valid labels and a private key.\<close>

definition recipients_ok :: "crypto_lib \<Rightarrow> public_key list \<Rightarrow> bool" where
  "recipients_ok C members \<longleftrightarrow>
     (\<forall>m\<in>set members. labels_valid m \<and> (\<exists>sk. kem_pair C m sk)) \<and>
     distinct (map (\<lambda>m. pk_subject_handle (pk_protected m)) members)"

lemma list_all2_self_map: "list_all2 P xs (map f xs) \<longleftrightarrow> (\<forall>x\<in>set xs. P x (f x))"
  by (induction xs) auto

lemma entries_as_map:
  assumes "\<forall>e\<in>set es. \<exists>b. Q e b \<and> M (de_key e) = Some b" and "dom M = de_key ` set es"
    and "distinct (map de_key es)"
  shows "\<exists>bs. list_all2 Q es bs \<and> map_of (zip (map de_key es) bs) = M"
proof -
  let ?bs = "map (\<lambda>e. the (M (de_key e))) es"
  have "map_of (zip (map de_key es) ?bs) k = M k" for k
  proof (cases "k \<in> de_key ` set es")
    case True
    then obtain b where "M k = Some b" using assms(2) by blast
    moreover have "(k, the (M k)) \<in> set (zip (map de_key es) ?bs)"
      using True by (force simp: zip_map_map zip_same_conv_map image_iff)
    moreover have "distinct (map fst (zip (map de_key es) ?bs))" using assms(3) by simp
    ultimately show ?thesis by (simp add: map_of_is_SomeI)
  next
    case False
    then have "M k = None" using assms(2) by blast
    moreover have "k \<notin> fst ` set (zip (map de_key es) ?bs)" using False by (auto dest: set_zip_leftD)
    ultimately show ?thesis by (simp add: map_of_eq_None_iff)
  qed
  moreover have "list_all2 Q es ?bs" unfolding list_all2_self_map using assms(1) by fastforce
  ultimately show ?thesis by blast
qed

text \<open>The entries of a draft open, under a key schedule, to the map \<open>M\<close>.\<close>

definition token_opens :: "op_env \<Rightarrow> key_schedule \<Rightarrow> uuid \<Rightarrow> string \<Rightarrow> string \<Rightarrow> u8 list \<Rightarrow> bool" where
  "token_opens E ks sid key token bytes \<longleftrightarrow> is_valid_key_name key \<and>
     (\<exists>w. parse_kv_entry_token (oe_json E) token = Inr w \<and>
        decrypt_entry (oe_json E) (oe_crypto E) w key AEAD_XCHACHA20_POLY1305 ks sid = Inr bytes)"

definition draft_opens :: "op_env \<Rightarrow> key_schedule \<Rightarrow> uuid \<Rightarrow> kv_draft \<Rightarrow> (string \<rightharpoonup> u8 list) \<Rightarrow> bool" where
  "draft_opens E ks sid d M \<longleftrightarrow> draft_inv d \<and> dom M = de_key ` set (dr_entries d) \<and>
     (\<forall>e\<in>set (dr_entries d). \<exists>b. M (de_key e) = Some b \<and> token_opens E ks sid (de_key e) (de_token e) b)"

text \<open>Whoever unwraps the master key of a signed draft decrypts it to what the draft opens to.\<close>

lemma signed_kv_opens:
  assumes sign: "sign_unsigned_kv_document (oe_json E) (oe_crypto E) d mk sc = Inr text"
    and sc: "env_signing_context E cc = Inr sc" "signer_consistent E cc" "hmac_ok (oe_crypto E)"
    and carried: "written_carried E cc d mk text"
      "\<And>t. ws_token (dr_wrap d) = Some t \<Longrightarrow> token_ok t \<and> parse_kv_wrap_token (oe_json E) t = Inr (ws_data (dr_wrap d))"
    and wraps: "validate_wrap_items (kw_wrap (ws_data (dr_wrap d))) = Inr ()"
    and ks: "kv_schedule_extract (oe_json E) (oe_crypto E) mk (kvh_sid (dr_head d)) = Inr ks"
    and opens: "draft_opens E ks (kvh_sid (dr_head d)) d M" "kvh_aead (dr_head d) = AEAD_XCHACHA20_POLY1305"
  shows "\<exists>v. verify_kv_content (oe_json E) (oe_crypto E) (oe_rfc3339 E) (oe_now E) (KvEncContent text) = Inr v \<and>
    kvd_head (vd_document v) = dr_head d \<and> kvd_wrap (vd_document v) = ws_data (dr_wrap d) \<and>
    map ke_key (kvd_entries (vd_document v)) = map de_key (dr_entries d) \<and>
    list_all2 (\<lambda>e w. parse_kv_entry_token (oe_json E) (de_token e) = Inr w) (dr_entries d)
      (map ke_value (kvd_entries (vd_document v))) \<and>
    (\<forall>handle reader info. unwrap_master_key_for_kv_with_context (oe_json E) (oe_crypto E) (kvh_sid (dr_head d))
        (kw_wrap (ws_data (dr_wrap d))) handle reader = Inr (mk, info) \<longrightarrow>
      (\<exists>kv. decrypt_kv_document_with_context (oe_json E) (oe_crypto E) v handle reader = Inr (kv, info) \<and> map_of kv = M))"
proof -
  let ?J = "oe_json E" and ?C = "oe_crypto E" and ?ds = "dr_entries d" and ?sid = "kvh_sid (dr_head d)"
  let ?v = "\<lambda>e. projr (parse_kv_entry_token ?J (de_token e))"
  let ?Q = "\<lambda>e b. decrypt_entry ?J ?C (?v e) (de_key e) AEAD_XCHACHA20_POLY1305 ks ?sid = Inr b"
  have inv: "draft_inv d" and dom: "dom M = de_key ` set ?ds"
    and each: "\<forall>e\<in>set ?ds. \<exists>b. M (de_key e) = Some b \<and> token_opens E ks ?sid (de_key e) (de_token e) b"
    using opens(1) by (auto simp: draft_opens_def)
  have names: "\<forall>e\<in>set ?ds. is_valid_key_name (de_key e)" using each by (auto simp: token_opens_def)
  have vs: "list_all2 (\<lambda>e v. parse_kv_entry_token ?J (de_token e) = Inr v) ?ds (map ?v ?ds)"
    unfolding list_all2_self_map using each by (fastforce simp: token_opens_def)
  have "\<forall>e\<in>set ?ds. \<exists>b. ?Q e b \<and> M (de_key e) = Some b"
    using each by (fastforce simp: token_opens_def)
  then obtain bs where bs: "list_all2 ?Q ?ds bs" and M: "map_of (zip (map de_key ?ds) bs) = M"
    using entries_as_map [of ?ds ?Q M] dom inv unfolding draft_inv_def by blast
  from written_document [OF sign sc carried wraps inv names vs] ks
  obtain v where v: "verify_kv_content ?J ?C (oe_rfc3339 E) (oe_now E) (KvEncContent text) = Inr v"
    "kvd_head (vd_document v) = dr_head d" "kvd_wrap (vd_document v) = ws_data (dr_wrap d)"
    "map ke_key (kvd_entries (vd_document v)) = map de_key ?ds"
    "map ke_value (kvd_entries (vd_document v)) = map ?v ?ds"
    and possession: "verify_kv_key_possession ?J ?C v mk = Inr \<lparr>kkp_document = v, kkp_master_key = mk, kkp_key_schedule = ks\<rparr>"
    by auto
  let ?es = "kvd_entries (vd_document v)"
  have len: "length ?es = length ?ds" using v(4) by (metis length_map)
  have nth: "\<forall>i<length ?ds. ke_key (?es ! i) = de_key (?ds ! i) \<and> ke_value (?es ! i) = ?v (?ds ! i)"
    using v(4,5) len by (metis nth_map)
  have "list_all2 (\<lambda>e b. decrypt_entry ?J ?C (ke_value e) (ke_key e) (kvh_aead (dr_head d)) ks ?sid = Inr b) ?es bs"
    using bs len nth by (auto simp: list_all2_conv_all_nth opens(2))
  moreover have "distinct (map ke_key ?es)" using v(4) inv by (simp add: draft_inv_def)
  ultimately have "decrypt_kv_entries ?J ?C ?es ks ?sid (kvh_aead (dr_head d)) = Inr (zip (map de_key ?ds) bs)"
    using v(4) by (auto simp: decrypt_kv_entries_iff)
  then show ?thesis
    using v vs M
    by (intro exI [of _ v]) (simp add: decrypt_kv_document_with_context_def Let_def possession)
qed

lemma written_map_holds:
  assumes sign: "sign_unsigned_kv_document (oe_json E) (oe_crypto E) d mk sc = Inr text"
    and sc: "env_signing_context E cc = Inr sc" "signer_consistent E cc" "hmac_ok (oe_crypto E)"
    and carried: "written_carried E cc d mk text" "ws_token (dr_wrap d) = None"
    and wraps: "build_wraps_for_recipients (oe_json E) (oe_crypto E) rnd members (kvh_sid (dr_head d)) mk KvWrap =
      Inr (kw_wrap (ws_data (dr_wrap d)))" "length mk = 32" "recipients_ok (oe_crypto E) members"
    and ks: "kv_schedule_extract (oe_json E) (oe_crypto E) mk (kvh_sid (dr_head d)) = Inr ks"
    and opens: "draft_opens E ks (kvh_sid (dr_head d)) d M" "kvh_aead (dr_head d) = AEAD_XCHACHA20_POLY1305"
  shows "kv_holds E members text M"
proof -
  let ?J = "oe_json E" and ?C = "oe_crypto E"
  from wraps(1) have ws: "kv_wrap.wraps_all ?J ?C rnd members (kvh_sid (dr_head d)) mk = Inr (kw_wrap (ws_data (dr_wrap d)))"
    and count: "length members \<le> MAX_WRAP_ITEMS" by (simp_all add: build_wraps_eq)
  note ok = wraps(3) [unfolded recipients_ok_def, THEN conjunct1] and dist = wraps(3) [unfolded recipients_ok_def, THEN conjunct2]
  have valid: "validate_wrap_items (kw_wrap (ws_data (dr_wrap d))) = Inr ()"
    by (rule kv_wrap.wraps_all_valid [OF ws wraps(2) ok dist count])
  from signed_kv_opens [OF sign sc carried(1) _ valid ks opens] carried(2) show ?thesis
    using kv_recipient_unwraps [OF ws wraps(2) ok dist count] unfolding kv_holds_def by (metis option.distinct(1))
qed

section \<open>A new file holds its entries\<close>

lemma encrypt_kv_entries_Inr:
  assumes "encrypt_kv_entries J C nonce kv_map mk sid disclosed = Inr es"
  shows "\<exists>ks. kv_schedule_extract J C mk sid = Inr ks \<and> set (map fst es) = set (map fst kv_map) \<and>
    (distinct (map fst kv_map) \<longrightarrow> distinct (map fst es)) \<and>
    (\<forall>(k, v)\<in>set es. \<exists>i val. (k, val) \<in> set kv_map \<and>
       encrypt_entry J C (nonce i) k val ks sid disclosed = Inr v)"
proof -
  from assms obtain ks es0 where ks: "kv_schedule_extract J C mk sid = Inr ks" and es: "es = sort_key fst es0"
    and enc: "list_all2 (\<lambda>(i, key, val) e. res_map (Pair key) (encrypt_entry J C (nonce i) key val ks sid disclosed) = Inr e)
      (zip [0..<length kv_map] kv_map) es0"
    by (auto simp: encrypt_kv_entries_def collect_res_Inr split_def)
  have len: "length es0 = length kv_map" using list_all2_lengthD [OF enc] by simp
  have nth: "fst (es0 ! i) = fst (kv_map ! i) \<and>
      encrypt_entry J C (nonce i) (fst (kv_map ! i)) (snd (kv_map ! i)) ks sid disclosed = Inr (snd (es0 ! i))"
    if "i < length kv_map" for i
    using list_all2_nthD2 [OF enc, of i] that len
    by (cases "encrypt_entry J C (nonce i) (fst (kv_map ! i)) (snd (kv_map ! i)) ks sid disclosed")
      (auto simp: split_def)
  have keys: "map fst es0 = map fst kv_map" using nth len by (intro nth_equalityI) auto
  have "set (map fst es) = set (map fst es0)" by (simp add: es)
  then have "set (map fst es) = set (map fst kv_map)" by (simp only: keys)
  moreover have "distinct (map fst kv_map) \<longrightarrow> distinct (map fst es)"
    using distinct_sorted_keys [of es0 "\<lambda>_. True"] by (simp add: es keys)
  moreover have "\<exists>i val. (k, val) \<in> set kv_map \<and> encrypt_entry J C (nonce i) k val ks sid disclosed = Inr v"
    if "(k, v) \<in> set es" for k v
  proof -
    have "(k, v) \<in> set es0" using that by (simp add: es)
    then obtain i where "i < length kv_map" "es0 ! i = (k, v)" by (metis in_set_conv_nth len)
    then show ?thesis using nth [of i] by (metis fst_conv nth_mem prod.collapse snd_conv)
  qed
  ultimately show ?thesis using ks by blast
qed

lemma build_encrypted_kv_Inr:
  assumes "build_encrypted_kv E F kv_map members disclosed mutate_wrap = Inr (d, mk)"
    and "distinct (map fst kv_map)"
  shows "\<exists>ks ws. mk = fv_master_key F \<and> ws_token (dr_wrap d) = None \<and>
    kvh_sid (dr_head d) = fv_sid F \<and> kvh_aead (dr_head d) = AEAD_XCHACHA20_POLY1305 \<and>
    build_wraps_for_recipients (oe_json E) (oe_crypto E) (fv_seal F) members (fv_sid F) mk KvWrap = Inr ws \<and>
    mutate_wrap \<lparr>kw_wrap = ws, kw_removed_recipients = None\<rparr> = Inr (ws_data (dr_wrap d)) \<and>
    kv_schedule_extract (oe_json E) (oe_crypto E) mk (fv_sid F) = Inr ks \<and> draft_inv d \<and>
    de_key ` set (dr_entries d) = fst ` set kv_map \<and>
    (\<forall>e\<in>set (dr_entries d). \<exists>i val v. (de_key e, val) \<in> set kv_map \<and>
       encrypt_entry (oe_json E) (oe_crypto E) (fv_nonce F i) (de_key e) val ks (fv_sid F) disclosed = Inr v \<and>
       token_encode (oe_json E) (se_kv_entry v) = Inr (de_token e))"
proof -
  let ?J = "oe_json E" and ?C = "oe_crypto E"
  from assms(1) obtain ts ws wrap es encoded where
    ws: "build_wraps_for_recipients ?J ?C (fv_seal F) members (fv_sid F) (fv_master_key F) KvWrap = Inr ws"
    and mut: "mutate_wrap \<lparr>kw_wrap = ws, kw_removed_recipients = None\<rparr> = Inr wrap"
    and es: "encrypt_kv_entries ?J ?C (fv_nonce F) kv_map (fv_master_key F) (fv_sid F) disclosed = Inr es"
    and tok: "encode_kv_entries_to_tokens ?J es = Inr encoded" and mk: "mk = fv_master_key F"
    and d: "d = builder_with_entries encoded (builder_new \<lparr>kvh_sid = fv_sid F,
      kvh_aead = AEAD_XCHACHA20_POLY1305, kvh_created_at = ts, kvh_updated_at = ts\<rparr> wrap)"
    unfolding build_encrypted_kv_def build_kv_encryption_def Let_def by (simp split: prod.splits) metis
  from encrypt_kv_entries_Inr [OF es] assms(2) obtain ks where
    ks: "kv_schedule_extract ?J ?C (fv_master_key F) (fv_sid F) = Inr ks" "set (map fst es) = set (map fst kv_map)"
    "distinct (map fst es)" "\<forall>(k, v)\<in>set es. \<exists>i val. (k, val) \<in> set kv_map \<and>
       encrypt_entry ?J ?C (fv_nonce F i) k val ks (fv_sid F) disclosed = Inr v" by auto
  from tok have enc: "list_all2 (\<lambda>(key, entry) kt. res_map (Pair key) (token_encode ?J (se_kv_entry entry)) = Inr kt) es encoded"
    by (simp add: encode_kv_entries_to_tokens_def collect_res_Inr split_def)
  have len: "length encoded = length es" using list_all2_lengthD [OF enc] by simp
  have nth: "fst (encoded ! i) = fst (es ! i) \<and> token_encode ?J (se_kv_entry (snd (es ! i))) = Inr (snd (encoded ! i))"
    if "i < length es" for i
    using list_all2_nthD [OF enc, of i] that
    by (cases "token_encode ?J (se_kv_entry (snd (es ! i)))") (auto simp: split_def)
  have keys: "map fst encoded = map fst es" using nth len by (intro nth_equalityI) auto
  have entries: "dr_entries d = map (\<lambda>(k, t). Encoded k t) encoded"
    by (simp add: d builder_with_entries_def builder_new_def)
  then have de_keys: "map de_key (dr_entries d) = map fst es"
    using keys by (simp add: comp_def split_def)
  have inv: "draft_inv d" using ks(3) by (simp add: draft_inv_def de_keys)
  have dom: "de_key ` set (dr_entries d) = fst ` set kv_map"
    using ks(2) de_keys by (metis list.set_map)
  have each: "\<exists>i val v. (de_key e, val) \<in> set kv_map \<and>
       encrypt_entry ?J ?C (fv_nonce F i) (de_key e) val ks (fv_sid F) disclosed = Inr v \<and>
       token_encode ?J (se_kv_entry v) = Inr (de_token e)" if mem: "e \<in> set (dr_entries d)" for e
  proof -
    obtain j where j: "j < length es" "e = Encoded (fst (encoded ! j)) (snd (encoded ! j))"
      using mem len unfolding entries by (auto simp: in_set_conv_nth split_def)
    have "es ! j \<in> set es" using j(1) by simp
    then obtain i val where "(fst (es ! j), val) \<in> set kv_map"
      "encrypt_entry ?J ?C (fv_nonce F i) (fst (es ! j)) val ks (fv_sid F) disclosed = Inr (snd (es ! j))"
      using ks(4) by (auto simp: split_def)
    then show ?thesis using nth [OF j(1)] j(2) by auto
  qed
  show ?thesis
    using ws mut ks(1) inv dom each mk
    by (intro exI [of _ ks] exI [of _ ws]) (simp add: d builder_with_entries_def builder_new_def ws_decoded_def)
qed

definition fresh_ok :: "fresh_values \<Rightarrow> bool" where
  "fresh_ok F \<longleftrightarrow> length (fv_master_key F) = 32 \<and> (\<forall>i. length (fv_nonce F i) = 24)"

definition entries_ok :: "(string \<times> string) list \<Rightarrow> bool" where
  "entries_ok entries \<longleftrightarrow>
     (\<forall>(k, v)\<in>set entries. is_valid_key_name k \<and> length v \<le> MAX_PLAINTEXT_INPUT_SIZE)"

text \<open>The bytes that a list of assignments gives each key: the last one wins.\<close>

definition assigned :: "(string \<times> string) list \<Rightarrow> string \<rightharpoonup> u8 list" where
  "assigned entries k = map_option as_bytes (map_of (rev entries) k)"

lemma token_of_entry_parses:
  assumes "written_carried E cc d mk text" and "e \<in> set (dr_entries d)"
    and "token_encode (oe_json E) (se_kv_entry v) = Inr (de_token e)"
  shows "parse_kv_entry_token (oe_json E) (de_token e) = Inr v"
  unfolding parse_kv_entry_token_def
  using assms by (intro parse_json_token_encode [where se = se_kv_entry]) (auto simp: written_carried_def Let_def)

lemma encrypted_draft_opens:
  assumes built: "build_encrypted_kv E F kv_map members disclosed mutate_wrap = Inr (d, mk)"
    and aead: "aead_ok (oe_crypto E)" "fresh_ok F"
    and entries: "entries_ok kv_map" "distinct (map fst kv_map)" and carried: "written_carried E cc d mk text"
  shows "\<exists>ks ws. mk = fv_master_key F \<and> ws_token (dr_wrap d) = None \<and>
    kvh_sid (dr_head d) = fv_sid F \<and> kvh_aead (dr_head d) = AEAD_XCHACHA20_POLY1305 \<and>
    build_wraps_for_recipients (oe_json E) (oe_crypto E) (fv_seal F) members (fv_sid F) mk KvWrap = Inr ws \<and>
    mutate_wrap \<lparr>kw_wrap = ws, kw_removed_recipients = None\<rparr> = Inr (ws_data (dr_wrap d)) \<and>
    kv_schedule_extract (oe_json E) (oe_crypto E) mk (fv_sid F) = Inr ks \<and>
    draft_opens E ks (fv_sid F) d (assigned kv_map)"
proof -
  let ?J = "oe_json E" and ?C = "oe_crypto E"
  from build_encrypted_kv_Inr [OF built entries(2)] obtain ks ws where
    mk: "mk = fv_master_key F" and tok: "ws_token (dr_wrap d) = None"
    and head: "kvh_sid (dr_head d) = fv_sid F" "kvh_aead (dr_head d) = AEAD_XCHACHA20_POLY1305"
    and ws: "build_wraps_for_recipients ?J ?C (fv_seal F) members (fv_sid F) mk KvWrap = Inr ws"
    and mut: "mutate_wrap \<lparr>kw_wrap = ws, kw_removed_recipients = None\<rparr> = Inr (ws_data (dr_wrap d))"
    and ks: "kv_schedule_extract ?J ?C mk (fv_sid F) = Inr ks" and inv: "draft_inv d"
    and dom: "de_key ` set (dr_entries d) = fst ` set kv_map"
    and each: "\<forall>e\<in>set (dr_entries d). \<exists>i val v. (de_key e, val) \<in> set kv_map \<and>
       encrypt_entry ?J ?C (fv_nonce F i) (de_key e) val ks (fv_sid F) disclosed = Inr v \<and>
       token_encode ?J (se_kv_entry v) = Inr (de_token e)" by blast
  have rev: "map_of (rev kv_map) = map_of kv_map"
    using entries(2) by (subst map_of_inject_set) (simp_all flip: rev_map)
  have names: "is_valid_key_name k" if "k \<in> fst ` set kv_map" for k
    using that entries(1) by (auto simp: entries_ok_def)
  have opens: "\<exists>v b. parse_kv_entry_token ?J (de_token e) = Inr v \<and>
      decrypt_entry ?J ?C v (de_key e) (kvh_aead (dr_head d)) ks (kvh_sid (dr_head d)) = Inr b \<and>
      assigned kv_map (de_key e) = Some b" if e: "e \<in> set (dr_entries d)" for e
  proof -
    obtain i val v where v: "(de_key e, val) \<in> set kv_map"
      "encrypt_entry ?J ?C (fv_nonce F i) (de_key e) val ks (fv_sid F) disclosed = Inr v"
      "token_encode ?J (se_kv_entry v) = Inr (de_token e)" using each e by blast
    have "length val \<le> MAX_PLAINTEXT_INPUT_SIZE" using v(1) entries(1) by (auto simp: entries_ok_def)
    then have "decrypt_entry ?J ?C v (de_key e) AEAD_XCHACHA20_POLY1305 ks (fv_sid F) = Inr (as_bytes val)"
      using aead v(2) by (intro sealed_entry_opens(1)) (auto simp: fresh_ok_def)
    moreover have "assigned kv_map (de_key e) = Some (as_bytes val)"
      using v(1) entries(2) by (simp add: assigned_def rev)
    ultimately show ?thesis using token_of_entry_parses [OF carried e v(3)] head by auto
  qed
  have "dom (assigned kv_map) = de_key ` set (dr_entries d)"
    unfolding dom assigned_def rev by (auto simp: dom_def map_of_eq_None_iff image_iff)
  moreover have "\<forall>e\<in>set (dr_entries d). is_valid_key_name (de_key e)"
    using names dom by blast
  ultimately have "draft_opens E ks (fv_sid F) d (assigned kv_map)"
    using inv opens by (fastforce simp: draft_opens_def token_opens_def head)
  then show ?thesis using ks mk ws mut tok head by (intro exI [of _ ks] exI [of _ ws]) simp
qed

lemma encrypted_map_holds:
  assumes built: "build_encrypted_kv E F kv_map members disclosed mutate_wrap = Inr (d, mk)"
    and sign: "sign_unsigned_kv_document (oe_json E) (oe_crypto E) d mk sc = Inr text"
    and mutate: "\<And>w w'. mutate_wrap w = Inr w' \<Longrightarrow> kw_wrap w' = kw_wrap w"
    and sc: "env_signing_context E cc = Inr sc" "signer_consistent E cc" "hmac_ok (oe_crypto E)"
    and aead: "aead_ok (oe_crypto E)" "fresh_ok F" and recipients: "recipients_ok (oe_crypto E) members"
    and entries: "entries_ok kv_map" "distinct (map fst kv_map)" and carried: "written_carried E cc d mk text"
  shows "kv_holds E members text (assigned kv_map)"
proof -
  from encrypted_draft_opens [OF built aead entries carried] obtain ks ws where
    mk: "mk = fv_master_key F" and tok: "ws_token (dr_wrap d) = None"
    and head: "kvh_sid (dr_head d) = fv_sid F" "kvh_aead (dr_head d) = AEAD_XCHACHA20_POLY1305"
    and ws: "build_wraps_for_recipients (oe_json E) (oe_crypto E) (fv_seal F) members (fv_sid F) mk KvWrap = Inr ws"
    and mut: "mutate_wrap \<lparr>kw_wrap = ws, kw_removed_recipients = None\<rparr> = Inr (ws_data (dr_wrap d))"
    and ks: "kv_schedule_extract (oe_json E) (oe_crypto E) mk (fv_sid F) = Inr ks"
    and opens: "draft_opens E ks (fv_sid F) d (assigned kv_map)" by blast
  show ?thesis
    using ks mutate [OF mut] mk ws aead(2) recipients head opens
    by (intro written_map_holds [OF sign sc carried tok, of "fv_seal F" members ks])
      (auto simp: fresh_ok_def)
qed

text \<open>Decoded values are the bytes they were decoded from.\<close>

lemma foldl_btree_insert:
  "map_of (foldl (\<lambda>m (k, v). btree_insert k v m) m0 kvs) = map_of m0 ++ map_of (rev kvs)"
  "btree_wf m0 \<Longrightarrow> btree_wf (foldl (\<lambda>m (k, v). btree_insert k v m) m0 kvs)"
  by (induction kvs arbitrary: m0) (auto simp: map_add_def fun_eq_iff split: option.splits)

lemma decoded_values:
  assumes "decode_decrypted_kv_values kv = Inr vals" and dist: "distinct (map fst kv)"
  shows "distinct (map fst vals)" and "assigned vals = map_of kv"
proof -
  from assms(1) obtain es where all: "list_all2 (\<lambda>(k, v) e. res_map (Pair k) (decode_decrypted_kv_value v) = Inr e) kv es"
    and vals: "vals = foldl (\<lambda>m (k, v). btree_insert k v m) [] es"
    by (auto simp: decode_decrypted_kv_values_def collect_res_Inr split_def)
  have "es = map (\<lambda>(k, v). (k, from_bytes v)) kv"
    using all by (induction rule: list_all2_induct) (auto simp: decode_decrypted_kv_value_def split: if_splits)
  then have es: "map_of es = map_option from_bytes \<circ> map_of kv" "map fst es = map fst kv"
    using map_of_map [of from_bytes kv] by (simp_all add: comp_def split_def)
  have "btree_wf vals" unfolding vals by (rule foldl_btree_insert(2)) simp
  then show d: "distinct (map fst vals)" by (simp add: btree_wf_def strict_sorted_iff)
  have "map_of (rev es) = map_of es" using es(2) dist by (subst map_of_inject_set) (simp_all flip: rev_map)
  then have "map_of vals = map_of es" by (simp add: vals foldl_btree_insert(1))
  moreover have "map_of (rev vals) = map_of vals" using d by (subst map_of_inject_set) (simp_all flip: rev_map)
  ultimately show "assigned vals = map_of kv"
    by (auto simp: assigned_def fun_eq_iff es(1) option.map_comp comp_def option.map_ident)
qed

lemma assigned_hash_collect: "assigned (hash_collect entries) = assigned entries"
proof -
  have "distinct (map fst (hash_collect entries))" by (rule hash_collect_distinct)
  then have "map_of (rev (hash_collect entries)) = map_of (hash_collect entries)"
    by (subst map_of_inject_set) (simp_all flip: rev_map)
  then show ?thesis by (simp add: assigned_def fun_eq_iff map_of_hash_collect)
qed

lemma hash_collect_subset: "set (hash_collect entries) \<subseteq> set entries"
proof
  fix kv assume "kv \<in> set (hash_collect entries)"
  then have "map_of (hash_collect entries) (fst kv) = Some (snd kv)"
    by (simp add: hash_collect_distinct)
  then show "kv \<in> set entries"
    using map_of_SomeD [of "rev entries" "fst kv" "snd kv"] by (simp add: map_of_hash_collect)
qed

text \<open>
  C5. A write to a file that does not exist yet: the text it returns is signed by the writer and every
  recipient decrypts it to the assignments, the last one of a repeated key winning.
\<close>

theorem new_kv_file_holds_entries:
  assumes "set_kv_entry_with_recipients E F None entries recipients ctx = Inr (KvEncContent text)"
    and "signer_consistent E (kwc_key_ctx ctx)" and "hmac_ok (oe_crypto E)" and "aead_ok (oe_crypto E)"
    and "fresh_ok F" and "recipients_ok (oe_crypto E) recipients" and "entries_ok entries"
    and "\<And>d mk. build_encrypted_kv E F (hash_collect entries) recipients False Inr = Inr (d, mk) \<Longrightarrow>
      written_carried E (kwc_key_ctx ctx) d mk text"
  shows "kv_holds E recipients text (assigned entries)"
proof -
  from assms(1) obtain sc d mk where sc: "env_signing_context E (kwc_key_ctx ctx) = Inr sc"
    and built: "build_encrypted_kv E F (hash_collect entries) recipients False Inr = Inr (d, mk)"
    and sign: "sign_unsigned_kv_document (oe_json E) (oe_crypto E) d mk sc = Inr text"
    by (auto simp: set_kv_entry_with_recipients_def set_kv_new_file_def encrypt_kv_map_with_key_context_def
        encrypt_kv_map_with_wrap_mutation_def)
  have "entries_ok (hash_collect entries)"
    using assms(7) hash_collect_subset unfolding entries_ok_def by blast
  then have "kv_holds E recipients text (assigned (hash_collect entries))"
    by (intro encrypted_map_holds [OF built sign _ sc assms(2,3,4,5,6) _ hash_collect_distinct assms(8) [OF built]])
      auto
  then show ?thesis by (simp only: assigned_hash_collect)
qed

section \<open>Writes to an existing file update its map\<close>

lemma unwrapped_key_length:
  "unwrap_master_key_for_kv_with_context J C sid ws h cc = Inr (mk, info) \<Longrightarrow> length mk = 32"
  by (auto simp: unwrap_master_key_for_kv_with_context_def unwrap_master_key_from_item_def unwrap_master_key_def
      parse_master_key_from_plaintext_def Let_def split: if_splits)

lemma kv_tokens_scan_parsed:
  "kv_tokens_scan J es sg ls = Inr (es', sg') \<Longrightarrow>
   \<forall>e\<in>set es. parse_kv_entry_token J (ke_token e) = Inr (ke_value e) \<Longrightarrow>
   \<forall>e\<in>set es'. parse_kv_entry_token J (ke_token e) = Inr (ke_value e)"
  by (induction J es sg ls rule: kv_tokens_scan.induct)
    (auto simp: validate_entry_token_def split: kv_enc_line.splits)

lemma kv_lines_inj: "kv_lines xs = kv_lines ys \<Longrightarrow> xs = ys"
  by (auto simp: kv_lines_def inj_on_def split_paired_all elim!: map_injective)

lemma kv_lines_only_data: "filter is_kv_line (kv_lines kvs) = kv_lines kvs"
  by (induction kvs) auto

lemma shape_entries:
  assumes "kv_shape ls" and "kv_lines kvs = filter is_kv_line ls"
  shows "distinct (map fst kvs)" and "\<forall>k\<in>fst ` set kvs. is_valid_key_name k"
proof -
  from assms(1) obtain v h w kvs' s where ls: "filter (\<lambda>l. l \<noteq> Empty) ls = [Header v, Head h, Wrap w] @ kv_lines kvs' @ [Sig s]"
    and ok: "distinct (map fst kvs')" "\<forall>k\<in>fst ` set kvs'. is_valid_key_name k"
    unfolding kv_shape_def by blast
  have "filter is_kv_line ls = filter is_kv_line (filter (\<lambda>l. l \<noteq> Empty) ls)"
    by (auto simp: filter_filter intro!: filter_cong)
  also have "\<dots> = kv_lines kvs'" by (simp add: ls kv_lines_only_data)
  finally have "kvs = kvs'" using assms(2) kv_lines_inj by metis
  with ok show "distinct (map fst kvs)" "\<forall>k\<in>fst ` set kvs. is_valid_key_name k" by simp_all
qed

lemma contains_key_iff: "contains_key ls k \<longleftrightarrow> (\<exists>t. KV k t \<in> set ls)"
  by (induction ls) (auto simp: contains_key_def split: kv_enc_line.splits)

lemma parse_kv_document_parts:
  "parse_kv_document J body = Inr d \<Longrightarrow> validate_kv_file_structure (kvd_lines d) = Inr () \<and>
     (\<exists>sg. kv_tokens_scan J [] None (kvd_lines d) = Inr (kvd_entries d, sg))"
  by (auto simp: parse_kv_document_def validate_kv_tokens_def)

lemma verified_entries:
  assumes "verify_kv_content J C T now content = Inr v"
  shows "distinct (map ke_key (kvd_entries (vd_document v)))"
    and "\<forall>e\<in>set (kvd_entries (vd_document v)). is_valid_key_name (ke_key e) \<and>
      parse_kv_entry_token J (ke_token e) = Inr (ke_value e)"
    and "contains_key (kvd_lines (vd_document v)) k \<longleftrightarrow> k \<in> ke_key ` set (kvd_entries (vd_document v))"
proof -
  let ?doc = "vd_document v" and ?kvs = "map (\<lambda>e. (ke_key e, ke_token e)) (kvd_entries (vd_document v))"
  from assms obtain body where doc: "parse_kv_document J body = Inr ?doc"
    by (cases content) (auto simp: verify_kv_content_def verify_kv_document_def
        verify_signature_with_loaded_key_def verify_loaded_kv_signature_def)
  then obtain sg where scan: "kv_tokens_scan J [] None (kvd_lines ?doc) = Inr (kvd_entries ?doc, sg)"
    and str: "validate_kv_file_structure (kvd_lines ?doc) = Inr ()"
    using parse_kv_document_parts by blast
  from kv_tokens_scan_entries [OF scan]
  have kvs: "kv_lines ?kvs = filter is_kv_line (kvd_lines ?doc)" by simp
  note shape = shape_entries [OF str [unfolded structure_iff_shape] kvs]
  show "distinct (map ke_key (kvd_entries ?doc))" using shape(1) by (simp add: comp_def)
  show "\<forall>e\<in>set (kvd_entries ?doc). is_valid_key_name (ke_key e) \<and>
      parse_kv_entry_token J (ke_token e) = Inr (ke_value e)"
    using shape(2) kv_tokens_scan_parsed [OF scan] by force
  have "contains_key (kvd_lines ?doc) k \<longleftrightarrow> (\<exists>t. KV k t \<in> set (filter is_kv_line (kvd_lines ?doc)))"
    by (simp add: contains_key_iff)
  also have "\<dots> \<longleftrightarrow> k \<in> ke_key ` set (kvd_entries ?doc)"
    unfolding kvs [symmetric] by (auto simp: kv_lines_def)
  finally show "contains_key (kvd_lines ?doc) k \<longleftrightarrow> k \<in> ke_key ` set (kvd_entries ?doc)" .
qed

text \<open>What the editor of a file reads in it.\<close>

definition editor_reads ::
  "op_env \<Rightarrow> kv_write_context \<Rightarrow> kv_enc_content \<Rightarrow> kv_enc_document verified_document \<Rightarrow> (string \<times> u8 list) list \<Rightarrow> bool" where
  "editor_reads E ctx content v kv \<longleftrightarrow>
     verify_kv_content (oe_json E) (oe_crypto E) (oe_rfc3339 E) (oe_now E) content = Inr v \<and>
     kvh_aead (kvd_head (vd_document v)) = AEAD_XCHACHA20_POLY1305 \<and>
     (\<exists>info. decrypt_kv_document_with_context (oe_json E) (oe_crypto E) v (kwc_member_handle ctx)
        (kwc_key_ctx ctx) = Inr (kv, info))"

definition session_of :: "kv_write_context \<Rightarrow> kv_enc_document verified_document \<Rightarrow> rewrite_session" where
  "session_of ctx v = \<lparr>rs_verified = v, rs_member_handle = kwc_member_handle ctx, rs_key_ctx = kwc_key_ctx ctx\<rparr>"

lemma editor_session:
  assumes "editor_reads E ctx content v kv"
  shows "session_load E content (kwc_member_handle ctx) (kwc_key_ctx ctx) = Inr (session_of ctx v)"
    and "\<exists>mk ks. session_unwrap_master_key E (session_of ctx v) = Inr mk \<and> length mk = 32 \<and>
      kv_schedule_extract (oe_json E) (oe_crypto E) mk (kvh_sid (kvd_head (vd_document v))) = Inr ks \<and>
      (\<forall>e\<in>set (kvd_entries (vd_document v)). \<exists>b. map_of kv (ke_key e) = Some b \<and>
         decrypt_entry (oe_json E) (oe_crypto E) (ke_value e) (ke_key e) AEAD_XCHACHA20_POLY1305 ks
           (kvh_sid (kvd_head (vd_document v))) = Inr b) \<and>
      dom (map_of kv) = ke_key ` set (kvd_entries (vd_document v))"
proof -
  let ?J = "oe_json E" and ?C = "oe_crypto E" and ?doc = "vd_document v" and ?es = "kvd_entries (vd_document v)"
  note ed = assms [unfolded editor_reads_def]
  show "session_load E content (kwc_member_handle ctx) (kwc_key_ctx ctx) = Inr (session_of ctx v)"
    using ed by (simp add: session_load_def session_of_def)
  from ed obtain info mk p where unwrap: "unwrap_master_key_for_kv_with_context ?J ?C (kvh_sid (kvd_head ?doc))
      (kw_wrap (kvd_wrap ?doc)) (kwc_member_handle ctx) (kwc_key_ctx ctx) = Inr (mk, info)"
    and possession: "verify_kv_key_possession ?J ?C v mk = Inr p"
    and entries: "decrypt_kv_entries ?J ?C ?es (kkp_key_schedule p) (kvh_sid (kvd_head ?doc)) AEAD_XCHACHA20_POLY1305 = Inr kv"
    by (auto simp: decrypt_kv_document_with_context_def Let_def)
  have p: "kkp_master_key p = mk" "kv_schedule_extract ?J ?C mk (kvh_sid (kvd_head ?doc)) = Inr (kkp_key_schedule p)"
    using possession by (auto simp: verify_kv_key_possession_def Let_def)
  have dist: "distinct (map ke_key ?es)" using ed verified_entries(1) by blast
  from entries obtain vs where vs: "list_all2 (\<lambda>e b. decrypt_entry ?J ?C (ke_value e) (ke_key e)
      AEAD_XCHACHA20_POLY1305 (kkp_key_schedule p) (kvh_sid (kvd_head ?doc)) = Inr b) ?es vs"
    and kv: "kv = zip (map ke_key ?es) vs" unfolding decrypt_kv_entries_iff [OF dist] by blast
  have len: "length vs = length ?es" using list_all2_lengthD [OF vs] by simp
  have "\<exists>b. map_of kv (ke_key e) = Some b \<and> decrypt_entry ?J ?C (ke_value e) (ke_key e)
      AEAD_XCHACHA20_POLY1305 (kkp_key_schedule p) (kvh_sid (kvd_head ?doc)) = Inr b" if mem: "e \<in> set ?es" for e
  proof -
    obtain i where i: "i < length ?es" "?es ! i = e" using mem by (metis in_set_conv_nth)
    have "map_of (zip (map ke_key ?es) vs) (map ke_key ?es ! i) = Some (vs ! i)"
      using i len dist by (intro map_of_zip_nth) auto
    then show ?thesis using list_all2_nthD [OF vs i(1)] i by (simp add: kv)
  qed
  moreover have "dom (map_of kv) = ke_key ` set ?es" using len by (simp add: kv)
  ultimately show "\<exists>mk ks. session_unwrap_master_key E (session_of ctx v) = Inr mk \<and> length mk = 32 \<and>
      kv_schedule_extract ?J ?C mk (kvh_sid (kvd_head ?doc)) = Inr ks \<and>
      (\<forall>e\<in>set ?es. \<exists>b. map_of kv (ke_key e) = Some b \<and>
         decrypt_entry ?J ?C (ke_value e) (ke_key e) AEAD_XCHACHA20_POLY1305 ks (kvh_sid (kvd_head ?doc)) = Inr b) \<and>
      dom (map_of kv) = ke_key ` set ?es"
    using unwrap possession p unwrapped_key_length [OF unwrap]
    by (intro exI [of _ mk] exI [of _ "kkp_key_schedule p"])
      (simp add: session_unwrap_master_key_def unwrap_master_key_from_verified_def session_of_def Let_def)
qed

lemma unset_entry_opens:
  "draft_opens E ks sid d M \<Longrightarrow> draft_opens E ks sid (unset_entry k d) (M(k := None))"
  unfolding draft_opens_def by (intro conjI draft_inv_unset) (auto simp: unset_entry_def)

lemma unset_entry_head: "dr_head (unset_entry k d) = dr_head d"
  by (simp add: unset_entry_def)

lemma set_entries_members:
  assumes "e \<in> set (dr_entries (set_entries toks d))" and "distinct (map fst toks)"
  shows "(e \<in> set (dr_entries d) \<and> de_key e \<notin> fst ` set toks) \<or> (de_key e, de_token e) \<in> set toks"
proof (cases "e \<in> (\<lambda>(k, t). Encoded k t) ` set toks")
  case True
  then show ?thesis by auto
next
  case False
  with assms(1) obtain e0 where e0: "e0 \<in> set (dr_entries d)"
    and e: "e = (case map_of toks (de_key e0) of Some t \<Rightarrow> Encoded (de_key e0) t | None \<Rightarrow> e0)"
    by (auto simp: set_entries_def set_entry_list_eq)
  show ?thesis
    using e0 e by (cases "map_of toks (de_key e0)") (auto simp: map_of_eq_None_iff dest: map_of_SomeD)
qed

lemma set_entries_keys:
  "de_key ` set (dr_entries (set_entries toks d)) = de_key ` set (dr_entries d) \<union> fst ` set toks"
proof -
  let ?new = "filter (\<lambda>(k, _). k \<notin> de_key ` set (dr_entries d)) toks"
  have "map de_key (dr_entries (set_entries toks d)) = map de_key (dr_entries d) @ map fst (sort_key fst ?new)"
    by (simp add: set_entries_def set_entry_list_eq)
  then have "de_key ` set (dr_entries (set_entries toks d)) = de_key ` set (dr_entries d) \<union> fst ` set ?new"
    by (metis list.set_map set_append set_sort)
  also have "\<dots> = de_key ` set (dr_entries d) \<union> fst ` set toks" by force
  finally show ?thesis .
qed

lemma set_entries_adds:
  assumes "(k, t) \<in> set toks" and "distinct (map fst toks)"
  shows "\<exists>e\<in>set (dr_entries (set_entries toks d)). de_key e = k \<and> de_token e = t"
proof (cases "k \<in> de_key ` set (dr_entries d)")
  case True
  then obtain e where "e \<in> set (dr_entries d)" "de_key e = k" by blast
  moreover have "map_of toks k = Some t" using assms by simp
  ultimately show ?thesis
    by (auto simp: set_entries_def set_entry_list_eq intro!: bexI [of _ "Encoded k t"] image_eqI [of _ _ e])
next
  case False
  then have "(k, t) \<in> set (sort_key fst (filter (\<lambda>(k, _). k \<notin> de_key ` set (dr_entries d)) toks))"
    using assms(1) by auto
  then show ?thesis
    by (intro bexI [of _ "Encoded k t"]) (force simp: set_entries_def set_entry_list_eq)+
qed

lemma set_entries_opens:
  assumes d: "draft_opens E ks sid d M" and toks: "distinct (map fst toks)" "dom M' = fst ` set toks"
    and opens: "\<And>k t. (k, t) \<in> set toks \<Longrightarrow> \<exists>b. M' k = Some b \<and> token_opens E ks sid k t b"
  shows "draft_opens E ks sid (set_entries toks d) (M ++ M')"
proof -
  have each: "\<exists>b. (M ++ M') (de_key e) = Some b \<and> token_opens E ks sid (de_key e) (de_token e) b"
    if mem: "e \<in> set (dr_entries (set_entries toks d))" for e
  proof (cases "(de_key e, de_token e) \<in> set toks")
    case True
    then show ?thesis using opens by force
  next
    case False
    with set_entries_members [OF mem toks(1)] have "e \<in> set (dr_entries d)" "M' (de_key e) = None"
      using toks(2) by auto
    then show ?thesis using d by (auto simp: draft_opens_def map_add_def)
  qed
  then show ?thesis
    using d toks(2) draft_inv_set [OF _ toks(1), of d] set_entries_keys [of toks d]
    by (auto simp: draft_opens_def)
qed

lemma map_of_rel:
  "list_all2 (\<lambda>(k, v) (k', t). k' = k \<and> R k v t) xs ys \<Longrightarrow> rel_option (R k) (map_of xs k) (map_of ys k)"
  by (induction rule: list_all2_induct) (auto split: prod.splits)

lemma build_entry_tokens_Inr:
  assumes "build_entry_tokens J C nonce entries mk sid = Inr toks" and "kv_schedule_extract J C mk sid = Inr ks"
  shows "distinct (map fst toks)" and "fst ` set toks = fst ` set entries"
    and "(k, t) \<in> set toks \<Longrightarrow> \<exists>i val w. map_of (rev entries) k = Some val \<and>
      encrypt_entry J C (nonce i) k val ks sid False = Inr w \<and> token_encode J (se_kv_entry w) = Inr t"
proof -
  from assms obtain es0 where toks: "toks = hash_collect es0" and all: "list_all2 (\<lambda>(i, key, val) e.
      res_bind (encrypt_entry J C (nonce i) key val ks sid False) (\<lambda>w.
        res_map (Pair key) (token_encode J (se_kv_entry w))) = Inr e) (zip [0..<length entries] entries) es0"
    by (auto simp: build_entry_tokens_def collect_res_Inr split_def)
  let ?R = "\<lambda>k val t. \<exists>i w. encrypt_entry J C (nonce i) k val ks sid False = Inr w \<and> token_encode J (se_kv_entry w) = Inr t"
  have len: "length es0 = length entries" using list_all2_lengthD [OF all] by simp
  have "(\<lambda>(k, v) (k', t). k' = k \<and> ?R k v t) (entries ! i) (es0 ! i)" if "i < length entries" for i
    using list_all2_nthD2 [OF all, of i] that len
    by (auto simp: split_def intro!: exI [of _ i])
  then have rel: "list_all2 (\<lambda>(k, v) (k', t). k' = k \<and> ?R k v t) entries es0"
    using len by (simp add: list_all2_conv_all_nth)
  show dist: "distinct (map fst toks)" unfolding toks by (rule hash_collect_distinct)
  have "map fst es0 = map fst entries"
    using rel len by (intro nth_equalityI) (auto simp: list_all2_conv_all_nth split_def)
  then show "fst ` set toks = fst ` set entries"
    using hash_collect_keys [of es0] by (metis list.set_map toks)
  assume "(k, t) \<in> set toks"
  then have "map_of (rev es0) k = Some t" using dist by (simp add: toks flip: map_of_hash_collect)
  then show "\<exists>i val w. map_of (rev entries) k = Some val \<and>
      encrypt_entry J C (nonce i) k val ks sid False = Inr w \<and> token_encode J (se_kv_entry w) = Inr t"
    using map_of_rel [of ?R "rev entries" "rev es0" k] rel
    by (cases "map_of (rev entries) k") auto
qed

text \<open>
  A rewrite of what the editor can read keeps the session id and the algorithm; its text holds what
  the entries of its draft open to.
\<close>

lemma editor_draft_opens:
  assumes "editor_reads E ctx content v kv" and "build_unsigned (oe_json E) (session_of ctx v) head = Inr d"
    and "session_unwrap_master_key E (session_of ctx v) = Inr mk"
  shows "length mk = 32" and "\<exists>ks. kv_schedule_extract (oe_json E) (oe_crypto E) mk
      (kvh_sid (kvd_head (vd_document v))) = Inr ks \<and>
    draft_opens E ks (kvh_sid (kvd_head (vd_document v))) d (map_of kv)"
proof -
  have d: "dr_entries d = map (\<lambda>e. Preserved (ke_key e) (ke_token e) (ke_value e)) (kvd_entries (vd_document v))"
    using assms(2) by (auto simp: build_unsigned_def builder_from_document_def session_of_def session_document_def)
  have keys: "map de_key (dr_entries d) = map ke_key (kvd_entries (vd_document v))" by (simp add: d)
  have entries: "distinct (map ke_key (kvd_entries (vd_document v)))"
    "\<forall>e\<in>set (kvd_entries (vd_document v)). is_valid_key_name (ke_key e) \<and>
      parse_kv_entry_token (oe_json E) (ke_token e) = Inr (ke_value e)"
    using assms(1) verified_entries unfolding editor_reads_def by blast+
  from editor_session(2) [OF assms(1)] assms(3) obtain ks where ks: "length mk = 32"
    "kv_schedule_extract (oe_json E) (oe_crypto E) mk (kvh_sid (kvd_head (vd_document v))) = Inr ks"
    and each: "\<forall>e\<in>set (kvd_entries (vd_document v)). \<exists>b. map_of kv (ke_key e) = Some b \<and>
       decrypt_entry (oe_json E) (oe_crypto E) (ke_value e) (ke_key e) AEAD_XCHACHA20_POLY1305 ks
         (kvh_sid (kvd_head (vd_document v))) = Inr b"
    and dom: "dom (map_of kv) = ke_key ` set (kvd_entries (vd_document v))" by auto
  show "length mk = 32" by (rule ks(1))
  have "draft_opens E ks (kvh_sid (kvd_head (vd_document v))) d (map_of kv)"
    unfolding draft_opens_def draft_inv_def keys
  proof (intro conjI ballI)
    show "distinct (map ke_key (kvd_entries (vd_document v)))" by (rule entries(1))
    show "dom (map_of kv) = de_key ` set (dr_entries d)" using dom keys by (metis list.set_map)
    fix e assume "e \<in> set (dr_entries d)"
    then show "\<exists>b. map_of kv (de_key e) = Some b \<and>
        token_opens E ks (kvh_sid (kvd_head (vd_document v))) (de_key e) (de_token e) b"
      using entries(2) each by (auto simp: d token_opens_def)
  qed
  with ks(2) show "\<exists>ks. kv_schedule_extract (oe_json E) (oe_crypto E) mk (kvh_sid (kvd_head (vd_document v))) = Inr ks \<and>
      draft_opens E ks (kvh_sid (kvd_head (vd_document v))) d (map_of kv)" by blast
qed

lemma rewritten_draft_Inr:
  assumes "rewritten_draft E F (session_of ctx v) recipients mutate = Inr (d, mk)"
  shows "\<exists>head d0 d1 ws. session_unwrap_master_key E (session_of ctx v) = Inr mk \<and>
    build_unsigned (oe_json E) (session_of ctx v) head = Inr d0 \<and> dr_head d0 = head \<and>
    kvh_sid head = kvh_sid (kvd_head (vd_document v)) \<and> kvh_aead head = kvh_aead (kvd_head (vd_document v)) \<and>
    mutate d0 (session_of ctx v) mk = Inr d1 \<and>
    build_wraps_for_recipients (oe_json E) (oe_crypto E) (fv_seal F) recipients
      (kvh_sid (kvd_head (vd_document v))) mk KvWrap = Inr ws \<and>
    d = set_wrap \<lparr>kw_wrap = ws, kw_removed_recipients = kw_removed_recipients (kvd_wrap (vd_document v))\<rparr> d1"
proof -
  let ?head = "\<lambda>ts. (kvd_head (vd_document v))\<lparr>kvh_updated_at := ts\<rparr>"
  have document: "session_document (session_of ctx v) = vd_document v"
    by (simp add: session_document_def session_of_def)
  from assms obtain ts d0 d1 ws where "session_unwrap_master_key E (session_of ctx v) = Inr mk"
    "build_unsigned (oe_json E) (session_of ctx v) (?head ts) = Inr d0"
    "mutate d0 (session_of ctx v) mk = Inr d1"
    "build_wraps_for_recipients (oe_json E) (oe_crypto E) (fv_seal F) recipients
      (kvh_sid (kvd_head (vd_document v))) mk KvWrap = Inr ws"
    "d = set_wrap \<lparr>kw_wrap = ws, kw_removed_recipients = kw_removed_recipients (kvd_wrap (vd_document v))\<rparr> d1"
    by (auto simp: rewritten_draft_def build_updated_header_def build_current_wrap_def document Let_def)
  moreover from this(2) have "dr_head d0 = ?head ts"
    by (auto simp: build_unsigned_def builder_from_document_def)
  ultimately show ?thesis by (intro exI [of _ "?head ts"] exI [of _ d0] exI [of _ d1] exI [of _ ws]) simp
qed

lemma rewrite_holds:
  assumes reads: "editor_reads E ctx content v kv"
    and wr: "rewrite_existing_kv_content E F content recipients ctx mutate = Inr text"
    and ok: "signer_consistent E (kwc_key_ctx ctx)" "hmac_ok (oe_crypto E)" "recipients_ok (oe_crypto E) recipients"
    and carried: "\<And>d mk. rewritten_draft E F (session_of ctx v) recipients mutate = Inr (d, mk) \<Longrightarrow>
      written_carried E (kwc_key_ctx ctx) d mk text"
    and mutate: "\<And>d0 d1 mk ks. mutate d0 (session_of ctx v) mk = Inr d1 \<Longrightarrow>
      (\<And>e w. e \<in> set (dr_entries d1) \<Longrightarrow> token_encode (oe_json E) (se_kv_entry w) = Inr (de_token e) \<Longrightarrow>
         parse_kv_entry_token (oe_json E) (de_token e) = Inr w) \<Longrightarrow>
      kv_schedule_extract (oe_json E) (oe_crypto E) mk (kvh_sid (kvd_head (vd_document v))) = Inr ks \<Longrightarrow>
      draft_opens E ks (kvh_sid (kvd_head (vd_document v))) d0 (map_of kv) \<Longrightarrow>
      dr_head d1 = dr_head d0 \<and> draft_opens E ks (kvh_sid (kvd_head (vd_document v))) d1 M"
  shows "kv_holds E recipients text M"
proof -
  let ?sid = "kvh_sid (kvd_head (vd_document v))" and ?J = "oe_json E" and ?C = "oe_crypto E"
  from wr obtain d mk where draft: "rewritten_draft E F (session_of ctx v) recipients mutate = Inr (d, mk)"
    and sign: "session_sign E (session_of ctx v) d mk = Inr text"
    by (auto simp: rewrite_existing_kv_content_def editor_session(1) [OF reads])
  from sign obtain sc where sc: "env_signing_context E (kwc_key_ctx ctx) = Inr sc"
    and signed: "sign_unsigned_kv_document ?J ?C d mk sc = Inr text"
    by (auto simp: session_sign_def session_of_def)
  from rewritten_draft_Inr [OF draft] obtain head d0 d1 ws where
    mk: "session_unwrap_master_key E (session_of ctx v) = Inr mk"
    and d0: "build_unsigned ?J (session_of ctx v) head = Inr d0" "dr_head d0 = head"
    and head: "kvh_sid head = ?sid" "kvh_aead head = kvh_aead (kvd_head (vd_document v))"
    and d1: "mutate d0 (session_of ctx v) mk = Inr d1"
    and ws: "build_wraps_for_recipients ?J ?C (fv_seal F) recipients ?sid mk KvWrap = Inr ws"
    and d: "d = set_wrap \<lparr>kw_wrap = ws, kw_removed_recipients = kw_removed_recipients (kvd_wrap (vd_document v))\<rparr> d1"
    by blast
  note carried = carried [OF draft]
  from editor_draft_opens [OF reads d0(1) mk] obtain ks where len: "length mk = 32"
    and ks: "kv_schedule_extract ?J ?C mk ?sid = Inr ks" and opens: "draft_opens E ks ?sid d0 (map_of kv)" by blast
  have same: "dr_entries d = dr_entries d1" "dr_head d = dr_head d1" by (simp_all add: d set_wrap_def)
  have "dr_head d1 = dr_head d0 \<and> draft_opens E ks ?sid d1 M"
    using token_of_entry_parses [OF carried] by (intro mutate [OF d1 _ ks opens]) (auto simp: same)
  then have d_opens: "draft_opens E ks ?sid d M" and d_head: "dr_head d = head"
    by (simp_all add: draft_opens_def draft_inv_def same d0(2))
  have aead: "kvh_aead head = AEAD_XCHACHA20_POLY1305" using reads head(2) by (simp add: editor_reads_def)
  show ?thesis
  proof (rule written_map_holds [OF signed sc ok(1,2) carried _ _ len ok(3)])
    show "ws_token (dr_wrap d) = None" "build_wraps_for_recipients ?J ?C (fv_seal F) recipients
        (kvh_sid (dr_head d)) mk KvWrap = Inr (kw_wrap (ws_data (dr_wrap d)))"
      using ws by (simp_all add: d_head head(1)) (simp_all add: d set_wrap_def ws_decoded_def)
    show "kv_schedule_extract ?J ?C mk (kvh_sid (dr_head d)) = Inr ks" using ks by (simp add: d_head head(1))
    show "draft_opens E ks (kvh_sid (dr_head d)) d M" using d_opens by (simp add: d_head head(1))
    show "kvh_aead (dr_head d) = AEAD_XCHACHA20_POLY1305" by (simp add: d_head aead)
  qed
qed

lemma parse_kv_document_wrap:
  "parse_kv_document J body = Inr d \<Longrightarrow>
     \<exists>token. find_map wrap_token_of (kvd_lines d) = Some token \<and> parse_kv_wrap_token J token = Inr (kvd_wrap d)"
  by (auto simp: parse_kv_document_def extract_kv_header_tokens_def)

lemma rewrite_errors_pass:
  assumes "editor_reads E ctx content v kv" and "oe_timestamp E = Inr ts"
  shows "\<exists>d0 mk. rewrite_existing_kv_content E F content recipients ctx mutate =
    res_bind (res_bind (mutate d0 (session_of ctx v) mk) (\<lambda>d.
      res_bind (build_current_wrap (oe_json E) (oe_crypto E) (fv_seal F) (kvh_sid (kvd_head (vd_document v)))
        recipients mk (kw_removed_recipients (kvd_wrap (vd_document v)))) (\<lambda>w. Inr (set_wrap w d, mk))))
    (\<lambda>(d, mk). session_sign E (session_of ctx v) d mk)"
proof -
  have document: "session_document (session_of ctx v) = vd_document v"
    by (simp add: session_document_def session_of_def)
  from editor_session(2) [OF assms(1)] obtain mk where mk: "session_unwrap_master_key E (session_of ctx v) = Inr mk"
    by blast
  from assms(1) obtain body where "parse_kv_document (oe_json E) body = Inr (vd_document v)"
    by (cases content) (auto simp: editor_reads_def verify_kv_content_def verify_kv_document_def
        verify_signature_with_loaded_key_def verify_loaded_kv_signature_def)
  then obtain token where "find_map wrap_token_of (kvd_lines (vd_document v)) = Some token"
    "parse_kv_wrap_token (oe_json E) token = Inr (kvd_wrap (vd_document v))"
    using parse_kv_document_wrap by blast
  then obtain d0 where "build_unsigned (oe_json E) (session_of ctx v)
      ((kvd_head (vd_document v))\<lparr>kvh_updated_at := ts\<rparr>) = Inr d0"
    by (simp add: build_unsigned_def builder_from_document_def wrap_source_from_lines_def resolve_wrap_source_def document)
  with mk assms(2) show ?thesis
    by (intro exI [of _ d0] exI [of _ mk])
      (simp add: rewrite_existing_kv_content_def editor_session(1) [OF assms(1)] rewritten_draft_def
        build_updated_header_def document Let_def)
qed

text \<open>
  C1. A write to an existing file that the writer can read updates the map it holds: every recipient
  of the new text decrypts it to the old map overridden by the assignments.
\<close>

theorem set_updates_map:
  assumes "editor_reads E ctx content v kv"
    and "set_kv_entry_with_recipients E F (Some content) entries recipients ctx = Inr (KvEncContent text)"
    and "signer_consistent E (kwc_key_ctx ctx)" and "hmac_ok (oe_crypto E)" and "aead_ok (oe_crypto E)"
    and "fresh_ok F" and "recipients_ok (oe_crypto E) recipients" and "entries_ok entries"
    and "\<And>d mk. rewritten_draft E F (session_of ctx v) recipients (set_entries_mutation E F entries) = Inr (d, mk) \<Longrightarrow>
      written_carried E (kwc_key_ctx ctx) d mk text"
  shows "kv_holds E recipients text (map_of kv ++ assigned entries)"
proof (rule rewrite_holds [OF assms(1) _ assms(3,4,7,9)])
  show "rewrite_existing_kv_content E F content recipients ctx (set_entries_mutation E F entries) = Inr text"
    using assms(2) by (auto simp: set_kv_entry_with_recipients_def set_kv_existing_file_def)
  fix d0 d1 mk ks
  let ?sid = "kvh_sid (kvd_head (vd_document v))"
  assume "set_entries_mutation E F entries d0 (session_of ctx v) mk = Inr d1"
    and carried: "\<And>e w. e \<in> set (dr_entries d1) \<Longrightarrow> token_encode (oe_json E) (se_kv_entry w) = Inr (de_token e) \<Longrightarrow>
      parse_kv_entry_token (oe_json E) (de_token e) = Inr w"
    and ks: "kv_schedule_extract (oe_json E) (oe_crypto E) mk ?sid = Inr ks"
    and opens: "draft_opens E ks ?sid d0 (map_of kv)"
  then obtain toks where toks: "build_entry_tokens (oe_json E) (oe_crypto E) (fv_nonce F) entries mk ?sid = Inr toks"
    and d1: "d1 = set_entries toks d0"
    by (auto simp: set_entries_mutation_def session_document_def session_of_def)
  note built = build_entry_tokens_Inr [OF toks ks]
  have "\<exists>b. assigned entries k = Some b \<and> token_opens E ks ?sid k t b" if mem: "(k, t) \<in> set toks" for k t
  proof -
    obtain i val w where w: "map_of (rev entries) k = Some val"
      "encrypt_entry (oe_json E) (oe_crypto E) (fv_nonce F i) k val ks ?sid False = Inr w"
      "token_encode (oe_json E) (se_kv_entry w) = Inr t" using built(3) [OF mem] by blast
    have ok: "is_valid_key_name k" "length val \<le> MAX_PLAINTEXT_INPUT_SIZE"
      using map_of_SomeD [OF w(1)] assms(8) by (auto simp: entries_ok_def)
    have "decrypt_entry (oe_json E) (oe_crypto E) w k AEAD_XCHACHA20_POLY1305 ks ?sid = Inr (as_bytes val)"
      using assms(5,6) ok(2) w(2) by (intro sealed_entry_opens(1)) (auto simp: fresh_ok_def)
    moreover obtain e where "e \<in> set (dr_entries d1)" "de_token e = t"
      using set_entries_adds [OF mem built(1)] d1 by blast
    then have "parse_kv_entry_token (oe_json E) t = Inr w" using carried w(3) by blast
    ultimately show ?thesis using ok(1) by (simp add: assigned_def w(1) token_opens_def)
  qed
  moreover have "dom (assigned entries) = fst ` set toks"
    unfolding built(2) by (force simp: assigned_def dom_map_of_conv_image_fst dom_def map_of_eq_None_iff)
  ultimately show "dr_head d1 = dr_head d0 \<and> draft_opens E ks ?sid d1 (map_of kv ++ assigned entries)"
    using set_entries_opens [OF opens built(1)] by (simp add: d1 set_entries_def)
qed

text \<open>
  C6. Removing an entry: a text only comes back when the key was in the file, and it holds the old
  map without the key.
\<close>

theorem unset_removes_key:
  assumes "editor_reads E ctx content v kv"
    and "unset_kv_entry_with_recipients E F content key recipients ctx = Inr text"
    and "signer_consistent E (kwc_key_ctx ctx)" and "hmac_ok (oe_crypto E)"
    and "recipients_ok (oe_crypto E) recipients"
    and "\<And>d mk. rewritten_draft E F (session_of ctx v) recipients (unset_entry_mutation key) = Inr (d, mk) \<Longrightarrow>
      written_carried E (kwc_key_ctx ctx) d mk text"
  shows "kv_holds E recipients text ((map_of kv)(key := None))"
  by (rule rewrite_holds [OF assms(1) assms(2) [unfolded unset_kv_entry_with_recipients_def] assms(3-6)])
    (auto simp: unset_entry_mutation_def unset_entry_opens unset_entry_head split: if_splits)

text \<open>
  C36. A key that is not in the file is refused with the error the callers recognise by its recovery
  code, and no other key is: for a key that is in the file the removal is only refused by the
  wrapping or the signing that follow.
\<close>

theorem unset_absent_key_refused:
  assumes "editor_reads E ctx content v kv" and "oe_timestamp E = Inr ts"
  shows "if key \<in> fst ` set kv
    then \<exists>d mk. unset_kv_entry_with_recipients E F content key recipients ctx =
      res_bind (build_current_wrap (oe_json E) (oe_crypto E) (fv_seal F) (kvh_sid (kvd_head (vd_document v)))
        recipients mk (kw_removed_recipients (kvd_wrap (vd_document v)))) (\<lambda>w.
      session_sign E (session_of ctx v) (set_wrap w d) mk)
    else unset_kv_entry_with_recipients E F content key recipients ctx = Inl build_key_not_found_error"
proof -
  have keys: "key \<in> fst ` set kv \<longleftrightarrow> contains_key (kvd_lines (session_document (session_of ctx v))) key"
  proof -
    have "key \<in> fst ` set kv \<longleftrightarrow> key \<in> dom (map_of kv)" by (simp add: dom_map_of_conv_image_fst)
    also have "\<dots> \<longleftrightarrow> key \<in> ke_key ` set (kvd_entries (vd_document v))"
      using editor_session(2) [OF assms(1)] by auto
    also have "\<dots> \<longleftrightarrow> contains_key (kvd_lines (vd_document v)) key"
      using assms(1) verified_entries(3) unfolding editor_reads_def by blast
    finally show ?thesis by (simp add: session_document_def session_of_def)
  qed
  from rewrite_errors_pass [OF assms, of F recipients "unset_entry_mutation key"]
  obtain d0 mk where "unset_kv_entry_with_recipients E F content key recipients ctx =
    res_bind (res_bind (unset_entry_mutation key d0 (session_of ctx v) mk) (\<lambda>d.
      res_bind (build_current_wrap (oe_json E) (oe_crypto E) (fv_seal F) (kvh_sid (kvd_head (vd_document v)))
        recipients mk (kw_removed_recipients (kvd_wrap (vd_document v)))) (\<lambda>w. Inr (set_wrap w d, mk))))
    (\<lambda>(d, mk). session_sign E (session_of ctx v) d mk)"
    unfolding unset_kv_entry_with_recipients_def by blast
  then show ?thesis
    unfolding keys
    by (auto simp: unset_entry_mutation_def intro!: exI [of _ "unset_entry key d0"] exI [of _ mk])
      (cases "build_current_wrap (oe_json E) (oe_crypto E) (fv_seal F) (kvh_sid (kvd_head (vd_document v)))
        recipients mk (kw_removed_recipients (kvd_wrap (vd_document v)))"; simp)
qed

end
