(* ===== verification/File_Ops.thy ===== *)
theory File_Ops
  imports Kv_Ops
begin

text \<open>
  Encrypting and decrypting file-enc documents (\<open>feature/encrypt.rs\<close>, \<open>feature/encrypt/file.rs\<close>,
  \<open>feature/decrypt/file.rs\<close>). The pretty printer of \<open>serde_json\<close> is the argument \<open>P\<close>; the payload
  uses the first nonce of the fresh values.
\<close>

section \<open>Encrypting\<close>

definition validate_recipient_members :: "string list \<Rightarrow> public_key list \<Rightarrow> unit res" where
  "validate_recipient_members recipient_handles members =
     (if length recipient_handles \<noteq> length members then Inl (plain_error InvalidArgument)
      else if list_ex (\<lambda>(recipient_handle, member). recipient_handle \<noteq> pk_subject_handle (pk_protected member))
                (zip recipient_handles members)
      then Inl (plain_error InvalidArgument) else Inr ())"

definition encrypt_payload ::
  "json_lib \<Rightarrow> crypto_lib \<Rightarrow> u8 list \<Rightarrow> u8 list \<Rightarrow> u8 list \<Rightarrow> uuid \<Rightarrow>
   (file_payload_header \<times> file_payload_ciphertext) res" where
  "encrypt_payload J C nonce plaintext key sid =
     (let payload_protected =
            \<lparr>fph_format = FILE_PAYLOAD_V1, fph_sid = sid, fph_aead = AEAD_XCHACHA20_POLY1305\<rparr> in
      res_bind (encrypt_file_payload_content J C nonce plaintext key payload_protected) (\<lambda>encrypted.
      Inr (payload_protected, encrypted)))"

definition encrypt_content_into_payload ::
  "json_lib \<Rightarrow> crypto_lib \<Rightarrow> fresh_values \<Rightarrow> u8 list \<Rightarrow> uuid \<Rightarrow>
   (u8 list \<times> file_payload \<times> u8 list) res" where
  "encrypt_content_into_payload J C F content sid =
     (let master_key = fv_master_key F in
      res_bind (file_schedule_extract J C master_key sid) (\<lambda>schedule.
      res_bind (file_derive_content_key J C schedule) (\<lambda>xchacha_key.
      res_bind (file_derive_mac_key J C schedule) (\<lambda>mac_key.
      res_bind (encrypt_payload J C (fv_nonce F 0) content xchacha_key sid) (\<lambda>(payload_protected, encrypted).
      Inr (master_key, \<lparr>fp_protected = payload_protected, fp_encrypted = encrypted\<rparr>, mac_key))))))"

definition build_file_enc_document_protected ::
  "uuid \<Rightarrow> wrap_item list \<Rightarrow> file_payload \<Rightarrow> string \<Rightarrow> file_enc_protected" where
  "build_file_enc_document_protected sid wrap payload timestamp =
     \<lparr>fe_format = FILE_ENC_V1, fe_sid = sid, fe_wrap = wrap, fe_removed_recipients = None,
      fe_payload = payload, fe_created_at = timestamp, fe_updated_at = timestamp\<rparr>"

definition assemble_file_enc_protected ::
  "json_lib \<Rightarrow> crypto_lib \<Rightarrow> entropy \<Rightarrow> uuid \<Rightarrow> u8 list \<Rightarrow> public_key list \<Rightarrow> file_payload \<Rightarrow> string \<Rightarrow>
   file_enc_protected res" where
  "assemble_file_enc_protected J C rnd sid master_key members payload timestamp =
     res_bind (build_wraps_for_recipients J C rnd members sid master_key FileWrap) (\<lambda>wrap.
     Inr (build_file_enc_document_protected sid wrap payload timestamp))"

definition finalize_file_document_signature ::
  "json_lib \<Rightarrow> crypto_lib \<Rightarrow> file_enc_protected \<Rightarrow> u8 list \<Rightarrow> signing_context \<Rightarrow> file_enc_document res" where
  "finalize_file_document_signature J C protected mac_key signing =
     res_bind (sign_file_document J C protected mac_key (sc_signing_key signing) (sc_signer_kid signing)
                 (sc_signer_pub signing)) (\<lambda>signature.
     Inr \<lparr>fed_protected = protected, fed_signature = signature\<rparr>)"

definition encrypt_file_document ::
  "op_env \<Rightarrow> fresh_values \<Rightarrow> u8 list \<Rightarrow> string list \<Rightarrow> public_key list \<Rightarrow> signing_context \<Rightarrow>
   file_enc_document res" where
  "encrypt_file_document E F content recipient_handles members signing =
     (let J = oe_json E; C = oe_crypto E; sid = fv_sid F in
      res_bind (validate_recipient_members recipient_handles members) (\<lambda>_.
      res_bind (oe_timestamp E) (\<lambda>timestamp.
      res_bind (encrypt_content_into_payload J C F content sid) (\<lambda>(master_key, payload, mac_key).
      res_bind (assemble_file_enc_protected J C (fv_seal F) sid master_key members payload timestamp) (\<lambda>protected.
      finalize_file_document_signature J C protected mac_key signing)))))"

text \<open>\<open>dedup_by\<close> keeps the first member of each run of equal handles.\<close>

fun dedup_by_handle :: "public_key list \<Rightarrow> public_key list" where
  "dedup_by_handle (a # b # ms) =
     (if pk_subject_handle (pk_protected b) = pk_subject_handle (pk_protected a)
      then dedup_by_handle (a # ms) else a # dedup_by_handle (b # ms))"
| "dedup_by_handle ms = ms"

definition members_ordered :: "public_key list \<Rightarrow> public_key list" where
  "members_ordered members = dedup_by_handle (sort_key (\<lambda>m. pk_subject_handle (pk_protected m)) members)"

definition encrypt_file_content ::
  "op_env \<Rightarrow> (json \<Rightarrow> string) \<Rightarrow> fresh_values \<Rightarrow> u8 list \<Rightarrow> public_key list \<Rightarrow> signing_context \<Rightarrow> string res" where
  "encrypt_file_content E P F content members signing =
     (let ordered = members_ordered members;
          recipient_ids = map (\<lambda>m. pk_subject_handle (pk_protected m)) ordered in
      res_bind (encrypt_file_document E F content recipient_ids ordered signing) (\<lambda>doc.
      Inr (P (se_file_enc (oe_json E) doc))))"

section \<open>Decrypting\<close>

definition validate_file_enc_document_format :: "file_enc_document verified_document \<Rightarrow> unit res" where
  "validate_file_enc_document_format verified_doc =
     (if fe_format (fed_protected (vd_document verified_doc)) \<noteq> FILE_ENC_V1
      then Inl (plain_error Parse) else Inr ())"

definition validate_file_enc_document_payload :: "file_enc_document verified_document \<Rightarrow> unit res" where
  "validate_file_enc_document_payload verified_doc =
     (let header = fp_protected (fe_payload (fed_protected (vd_document verified_doc))) in
      if fph_format header \<noteq> FILE_PAYLOAD_V1 then Inl (plain_error Parse)
      else if fph_aead header \<noteq> AEAD_XCHACHA20_POLY1305 then Inl (plain_error Crypto) else Inr ())"

definition decrypt_file_payload ::
  "json_lib \<Rightarrow> crypto_lib \<Rightarrow> file_enc_document verified_document \<Rightarrow> u8 list \<Rightarrow> u8 list res" where
  "decrypt_file_payload J C verified_doc content_key =
     (let payload = fe_payload (fed_protected (vd_document verified_doc)) in
      res_bind (build_file_payload_aad J (fp_protected payload)) (\<lambda>aad.
      res_bind (decode_base64url_nopad_array 24 (fpc_nonce (fp_encrypted payload))) (\<lambda>nonce.
      res_bind (decode_base64url_nopad (fpc_ct (fp_encrypted payload))) (\<lambda>ciphertext.
      xchacha_decrypt C content_key nonce aad ciphertext))))"

definition decrypt_file_document_with_context ::
  "json_lib \<Rightarrow> crypto_lib \<Rightarrow> file_enc_document verified_document \<Rightarrow> string \<Rightarrow> crypto_context \<Rightarrow>
   (u8 list \<times> decryption_key_info) res" where
  "decrypt_file_document_with_context J C verified_doc member_handle cc =
     (let protected = fed_protected (vd_document verified_doc) in
      res_bind (validate_file_enc_document_format verified_doc) (\<lambda>_.
      res_bind (validate_file_enc_document_payload verified_doc) (\<lambda>_.
      if fph_sid (fp_protected (fe_payload protected)) \<noteq> fe_sid protected then Inl (plain_error Crypto)
      else res_bind (unwrap_master_key_for_file_with_context J C verified_doc member_handle cc)
        (\<lambda>(content_key, key_info).
      res_bind (verify_file_key_possession J C verified_doc content_key) (\<lambda>possession.
      res_bind (decrypt_file_payload J C (fkp_document possession) (fkp_content_key possession)) (\<lambda>plaintext.
      Inr (plaintext, key_info)))))))"

section \<open>A signed document is opened by whoever unwraps its key\<close>

text \<open>
  The document is one the JSON libraries carry: its printed text is within the limits and parses
  back to the value that was printed, and the schema accepts it.
\<close>

definition file_text_carried :: "json_lib \<Rightarrow> (json \<Rightarrow> string) \<Rightarrow> file_enc_document \<Rightarrow> bool" where
  "file_text_carried J P d \<longleftrightarrow>
     (let j = se_file_enc J d in
      validate_json_limits (from_bytes (as_bytes (P j))) = Inr () \<and>
      parse_json_value J (as_bytes (P j)) = Inr j \<and> jl_schema J SchemaFileEnc j = Inr () \<and>
      jl_uuid_parse J (jl_uuid_show J (fe_sid (fed_protected d))) = Some (fe_sid (fed_protected d)))"

text \<open>The payload of \<open>p\<close> is sealed under the key that \<open>mk\<close> schedules, and opens to \<open>content\<close>.\<close>

definition payload_opens :: "json_lib \<Rightarrow> crypto_lib \<Rightarrow> file_enc_protected \<Rightarrow> u8 list \<Rightarrow> u8 list \<Rightarrow> bool" where
  "payload_opens J C p mk content \<longleftrightarrow>
     fe_format p = FILE_ENC_V1 \<and>
     fp_protected (fe_payload p) =
       \<lparr>fph_format = FILE_PAYLOAD_V1, fph_sid = fe_sid p, fph_aead = AEAD_XCHACHA20_POLY1305\<rparr> \<and>
     (\<exists>ks key nonce ct. file_schedule_extract J C mk (fe_sid p) = Inr ks \<and>
        file_derive_content_key J C ks = Inr key \<and>
        decode_base64url_nopad_array 24 (fpc_nonce (fp_encrypted (fe_payload p))) = Inr nonce \<and>
        decode_base64url_nopad (fpc_ct (fp_encrypted (fe_payload p))) = Inr ct \<and>
        cl_aead_open C key nonce (jl_jcs J (se_file_payload_header J (fp_protected (fe_payload p)))) ct = Some content)"

lemma sealed_payload_opens:
  assumes "aead_ok C" and "length nonce = 24" and "length content \<le> MAX_PLAINTEXT_INPUT_SIZE"
    and "file_schedule_extract J C mk (fe_sid p) = Inr ks" and "file_derive_content_key J C ks = Inr key"
    and "encrypt_file_payload_content J C nonce content key (fp_protected (fe_payload p)) = Inr (fp_encrypted (fe_payload p))"
    and "fe_format p = FILE_ENC_V1" and "fp_protected (fe_payload p) =
       \<lparr>fph_format = FILE_PAYLOAD_V1, fph_sid = fe_sid p, fph_aead = AEAD_XCHACHA20_POLY1305\<rparr>"
  shows "payload_opens J C p mk content"
proof -
  let ?aad = "jl_jcs J (se_file_payload_header J (fp_protected (fe_payload p)))"
  from assms(6) obtain ct where ct: "cl_aead_seal C key nonce ?aad content = Some ct"
    and enc: "fp_encrypted (fe_payload p) = \<lparr>fpc_nonce = encode_base64url_nopad nonce, fpc_ct = encode_base64url_nopad ct\<rparr>"
    by (cases "cl_aead_seal C key nonce ?aad content")
      (auto simp: encrypt_file_payload_content_def binding_total xchacha_encrypt_def)
  have len: "length ct = length content + AEAD_TAG_LENGTH" and opens: "cl_aead_open C key nonce ?aad ct = Some content"
    using assms(1) ct by (auto simp: aead_ok_def)
  have "decode_base64url_nopad (encode_base64url_nopad ct) = Inr ct"
    using len assms(3) by (intro url.dec_enc plaintext_limit_fits) simp
  then show ?thesis
    unfolding payload_opens_def
    using assms(2,4,5,7,8) opens enc by (intro conjI exI [of _ ks] exI [of _ key] exI [of _ nonce] exI [of _ ct])
      (simp_all add: decode_encode_nonce)
qed

lemma de_se_file_enc:
  assumes "jl_uuid_parse J (jl_uuid_show J (fe_sid (fed_protected d))) = Some (fe_sid (fed_protected d))"
    and "fph_sid (fp_protected (fe_payload (fed_protected d))) = fe_sid (fed_protected d)"
    and "kpp_valid (sig_mac (fed_signature d))"
  shows "de_file_enc J (se_file_enc J d) = Some d"
  using de_se_file_protected [OF assms(1,2)] de_se_artifact_signature [OF assms(3)]
  by (simp add: de_file_enc_def se_file_enc_def)

lemma file_text_parses:
  assumes "file_text_carried J P d" and "validate_wrap_items (fe_wrap (fed_protected d)) = Inr ()"
    and "kpp_valid (sig_mac (fed_signature d))"
    and "fph_sid (fp_protected (fe_payload (fed_protected d))) = fe_sid (fed_protected d)"
  shows "file_content_parse J (FileEncContent (P (se_file_enc J d))) = Inr d"
  using assms de_se_file_enc [of J d]
  by (simp add: parse_file_enc_str_def parse_json_document_bytes_def file_text_carried_def Let_def
      deserialize_json_value_def)

lemma signed_file_opens:
  assumes sign: "finalize_file_document_signature (oe_json E) (oe_crypto E) p mac sc = Inr d"
    and sc: "env_signing_context E cc = Inr sc" "signer_consistent E cc" "hmac_ok (oe_crypto E)"
    and mac: "file_schedule_extract (oe_json E) (oe_crypto E) mk (fe_sid p) = Inr ks"
      "file_derive_mac_key (oe_json E) (oe_crypto E) ks = Inr mac"
    and carried: "file_text_carried (oe_json E) P d" and wraps: "validate_wrap_items (fe_wrap p) = Inr ()"
    and payload: "payload_opens (oe_json E) (oe_crypto E) p mk content"
  shows "\<exists>v. verify_file_content (oe_json E) (oe_crypto E) (oe_rfc3339 E) (oe_now E)
      (FileEncContent (P (se_file_enc (oe_json E) d))) = Inr v \<and> vd_document v = d \<and> fed_protected d = p \<and>
    (\<forall>handle reader info. unwrap_master_key_for_file_with_context (oe_json E) (oe_crypto E) v handle reader = Inr (mk, info) \<longrightarrow>
       decrypt_file_document_with_context (oe_json E) (oe_crypto E) v handle reader = Inr (content, info))"
proof -
  let ?J = "oe_json E" and ?C = "oe_crypto E" and ?T = "oe_rfc3339 E" and ?now = "oe_now E"
  from sign obtain body sg where body: "build_file_signature_bytes ?J p = Inr body" and d: "d = \<lparr>fed_protected = p, fed_signature = sg\<rparr>"
    and sg: "sign_file_document ?J ?C p mac (sc_signing_key sc) (sc_signer_kid sc) (sc_signer_pub sc) = Inr sg"
    by (auto simp: finalize_file_document_signature_def sign_file_document_def)
  have expected: "sg = expected_signature ?J ?C body mac sc"
    using sg sign_file_document_eq [OF sc(3) body] by (cases sc) simp
  have valid: "kpp_valid (sig_mac sg)" by (simp add: expected possession_proof_built [OF sc(3)])
  have parse: "file_content_parse ?J (FileEncContent (P (se_file_enc ?J d))) = Inr d"
    using carried wraps valid payload by (intro file_text_parses) (simp_all add: d payload_opens_def)
  obtain loaded where loaded: "build_verifying_key_from_signature ?J ?C ?T ?now sg = Inr loaded"
    "svk_verifying_key loaded = lki_sig_x (cc_local_key_identity cc)" "sc_signing_key sc = cc_signing_key cc"
    using signing_context_key [OF sc(1,2), of sg] by (auto simp: expected)
  then have "ed25519_pair ?C (sc_signing_key sc) (svk_verifying_key loaded)"
    using sc(2) by (simp add: signer_consistent_def)
  then have "verify_file_signature ?J ?C p (svk_verifying_key loaded) sg = Inr ()"
    using expected_signature_verifies [OF _ expected] by (simp add: verify_file_signature_def body)
  then obtain v where v: "verify_file_content ?J ?C ?T ?now (FileEncContent (P (se_file_enc ?J d))) = Inr v" "vd_document v = d"
    using parse loaded(1) wraps
    by (simp add: verify_file_content_def verify_file_document_def verify_signature_with_loaded_key_def
        verify_loaded_file_signature_def build_signature_verification_proof_def d)
  obtain ks' key nonce ct where ks': "file_schedule_extract ?J ?C mk (fe_sid p) = Inr ks'"
    and key: "file_derive_content_key ?J ?C ks' = Inr key"
    and sealed: "decode_base64url_nopad_array 24 (fpc_nonce (fp_encrypted (fe_payload p))) = Inr nonce"
      "decode_base64url_nopad (fpc_ct (fp_encrypted (fe_payload p))) = Inr ct"
      "cl_aead_open ?C key nonce (jl_jcs ?J (se_file_payload_header ?J (fp_protected (fe_payload p)))) ct = Some content"
    using payload by (auto simp: payload_opens_def)
  have "verify_file_key_possession ?J ?C v mk =
      Inr \<lparr>fkp_document = v, fkp_master_key = mk, fkp_content_key = key\<rparr>"
    using mac ks' key body
    by (simp add: verify_file_key_possession_def Let_def v(2) d expected possession_proof_verifies)
  moreover have "decrypt_file_payload ?J ?C v key = Inr content"
    using sealed by (simp add: decrypt_file_payload_def Let_def v(2) d binding_total xchacha_decrypt_def)
  ultimately have "decrypt_file_document_with_context ?J ?C v handle reader = Inr (content, info)"
    if "unwrap_master_key_for_file_with_context ?J ?C v handle reader = Inr (mk, info)" for handle reader info
    using that payload
    by (simp add: decrypt_file_document_with_context_def Let_def validate_file_enc_document_format_def
        validate_file_enc_document_payload_def v(2) d payload_opens_def)
  then show ?thesis using v by (intro exI [of _ v]) (simp add: d)
qed

section \<open>Encrypted files reach their recipients\<close>

abbreviation handle_of :: "public_key \<Rightarrow> string" where
  "handle_of m \<equiv> pk_subject_handle (pk_protected m)"

lemma dedup_by_handle_props:
  "sorted (map handle_of ms) \<Longrightarrow>
   distinct (map handle_of (dedup_by_handle ms)) \<and> set (dedup_by_handle ms) \<subseteq> set ms \<and>
   handle_of ` set (dedup_by_handle ms) = handle_of ` set ms \<and> sorted (map handle_of (dedup_by_handle ms)) \<and>
   (ms \<noteq> [] \<longrightarrow> dedup_by_handle ms \<noteq> [] \<and> hd (dedup_by_handle ms) = hd ms)"
proof (induction ms rule: dedup_by_handle.induct)
  case (1 a b ms)
  show ?case
  proof (cases "handle_of b = handle_of a")
    case True
    then show ?thesis using 1 by auto
  next
    case False
    have "sorted (map handle_of (b # ms))" using "1.prems" by simp
    note IH = "1.IH"(2) [OF False this]
    have "handle_of a \<noteq> handle_of m" if "m \<in> set (b # ms)" for m
      using that "1.prems" False by (auto dest: order_antisym)
    moreover have "handle_of a \<le> handle_of m" if "m \<in> set (b # ms)" for m
      using that "1.prems" by auto
    ultimately show ?thesis using False IH by auto
  qed
qed auto

lemma members_ordered_props:
  "distinct (map handle_of (members_ordered members))" "set (members_ordered members) \<subseteq> set members"
  "handle_of ` set (members_ordered members) = handle_of ` set members"
  using dedup_by_handle_props [of "sort_key handle_of members"] by (simp_all add: members_ordered_def)

text \<open>
  The abstract value of a file-enc document: a signed text that every one of its members, with a
  context that holds its key, decrypts to the content.
\<close>

definition file_holds :: "op_env \<Rightarrow> public_key list \<Rightarrow> string \<Rightarrow> u8 list \<Rightarrow> bool" where
  "file_holds E members text content \<longleftrightarrow>
     (\<exists>v. verify_file_content (oe_json E) (oe_crypto E) (oe_rfc3339 E) (oe_now E) (FileEncContent text) = Inr v \<and>
       (\<forall>m\<in>set members. \<forall>cc. holds_key (oe_crypto E) cc m \<longrightarrow>
          (\<exists>info. decrypt_file_document_with_context (oe_json E) (oe_crypto E) v (handle_of m) cc = Inr (content, info))))"

text \<open>
  The reader unwraps the master key \<open>mk\<close> of the document and decrypts the content.
\<close>

definition opens_with ::
  "op_env \<Rightarrow> file_enc_document verified_document \<Rightarrow> string \<Rightarrow> crypto_context \<Rightarrow> u8 list \<Rightarrow> u8 list \<Rightarrow> bool" where
  "opens_with E v handle reader mk content \<longleftrightarrow>
     (\<exists>info. unwrap_master_key_for_file_with_context (oe_json E) (oe_crypto E) v handle reader = Inr (mk, info) \<and>
        decrypt_file_document_with_context (oe_json E) (oe_crypto E) v handle reader = Inr (content, info))"

lemma encrypt_file_document_Inr:
  assumes "encrypt_file_document E F content handles members sc = Inr d" and "aead_ok (oe_crypto E)" "fresh_ok F"
    and "length content \<le> MAX_PLAINTEXT_INPUT_SIZE"
  shows "\<exists>p ks mac ws. file_schedule_extract (oe_json E) (oe_crypto E) (fv_master_key F) (fe_sid p) = Inr ks \<and>
    file_derive_mac_key (oe_json E) (oe_crypto E) ks = Inr mac \<and>
    build_wraps_for_recipients (oe_json E) (oe_crypto E) (fv_seal F) members (fe_sid p) (fv_master_key F) FileWrap = Inr ws \<and>
    fe_wrap p = ws \<and> payload_opens (oe_json E) (oe_crypto E) p (fv_master_key F) content \<and>
    finalize_file_document_signature (oe_json E) (oe_crypto E) p mac sc = Inr d"
proof -
  let ?J = "oe_json E" and ?C = "oe_crypto E" and ?mk = "fv_master_key F" and ?sid = "fv_sid F"
  let ?header = "\<lparr>fph_format = FILE_PAYLOAD_V1, fph_sid = ?sid, fph_aead = AEAD_XCHACHA20_POLY1305\<rparr>"
  from assms(1) obtain ts ks key mac enc ws where ks: "file_schedule_extract ?J ?C ?mk ?sid = Inr ks"
    and key: "file_derive_content_key ?J ?C ks = Inr key" and mac: "file_derive_mac_key ?J ?C ks = Inr mac"
    and enc: "encrypt_file_payload_content ?J ?C (fv_nonce F 0) content key ?header = Inr enc"
    and ws: "build_wraps_for_recipients ?J ?C (fv_seal F) members ?sid ?mk FileWrap = Inr ws"
    and sign: "finalize_file_document_signature ?J ?C (build_file_enc_document_protected ?sid ws
      \<lparr>fp_protected = ?header, fp_encrypted = enc\<rparr> ts) mac sc = Inr d"
    by (auto simp: encrypt_file_document_def encrypt_content_into_payload_def encrypt_payload_def
        assemble_file_enc_protected_def Let_def)
  let ?p = "build_file_enc_document_protected ?sid ws \<lparr>fp_protected = ?header, fp_encrypted = enc\<rparr> ts"
  have p: "fe_sid ?p = ?sid" "fe_wrap ?p = ws" "fe_format ?p = FILE_ENC_V1" "fp_protected (fe_payload ?p) = ?header"
    "fp_encrypted (fe_payload ?p) = enc" by (simp_all add: build_file_enc_document_protected_def)
  have "payload_opens ?J ?C ?p ?mk content"
    using assms(2-4) ks key enc
    by (intro sealed_payload_opens [of _ "fv_nonce F 0"]) (simp_all add: p fresh_ok_def)
  then show ?thesis
    using ks mac ws sign by (intro exI [of _ ?p] exI [of _ ks] exI [of _ mac] exI [of _ ws]) (simp add: p)
qed

lemma encrypted_document_opens:
  assumes enc: "encrypt_file_document E F content handles ms sc = Inr d"
    and "env_signing_context E cc = Inr sc" and "signer_consistent E cc"
    and "hmac_ok (oe_crypto E)" and "aead_ok (oe_crypto E)" and "fresh_ok F"
    and "length content \<le> MAX_PLAINTEXT_INPUT_SIZE" and members: "recipients_ok (oe_crypto E) ms"
    and carried: "file_text_carried (oe_json E) P d"
  shows "\<exists>v. verify_file_content (oe_json E) (oe_crypto E) (oe_rfc3339 E) (oe_now E)
      (FileEncContent (P (se_file_enc (oe_json E) d))) = Inr v \<and> vd_document v = d \<and>
    (\<forall>m\<in>set ms. \<forall>reader. holds_key (oe_crypto E) reader m \<longrightarrow>
       opens_with E v (handle_of m) reader (fv_master_key F) content)"
proof -
  let ?J = "oe_json E" and ?C = "oe_crypto E" and ?mk = "fv_master_key F"
  from encrypt_file_document_Inr [OF enc assms(5,6,7)] obtain p ks mac ws where
    ks: "file_schedule_extract ?J ?C ?mk (fe_sid p) = Inr ks" "file_derive_mac_key ?J ?C ks = Inr mac"
    and ws: "build_wraps_for_recipients ?J ?C (fv_seal F) ms (fe_sid p) ?mk FileWrap = Inr ws" "fe_wrap p = ws"
    and payload: "payload_opens ?J ?C p ?mk content"
    and sign: "finalize_file_document_signature ?J ?C p mac sc = Inr d" by blast
  have len: "length ?mk = 32" using assms(6) by (simp add: fresh_ok_def)
  have all: "file_wrap.wraps_all ?J ?C (fv_seal F) ms (fe_sid p) ?mk = Inr ws" and count: "length ms \<le> MAX_WRAP_ITEMS"
    using ws(1) by (simp_all add: build_wraps_eq)
  have ok: "\<forall>m\<in>set ms. labels_valid m \<and> (\<exists>sk. kem_pair ?C m sk)" and dist: "distinct (map handle_of ms)"
    using members by (simp_all add: recipients_ok_def)
  have valid: "validate_wrap_items (fe_wrap p) = Inr ()"
    using file_wrap.wraps_all_valid [OF all len ok dist count] ws(2) by simp
  from signed_file_opens [OF sign assms(2,3,4) ks carried valid payload]
  obtain v where v: "verify_file_content ?J ?C (oe_rfc3339 E) (oe_now E) (FileEncContent (P (se_file_enc ?J d))) = Inr v"
    "vd_document v = d" "fed_protected d = p"
    and opens: "\<forall>handle reader info. unwrap_master_key_for_file_with_context ?J ?C v handle reader = Inr (?mk, info) \<longrightarrow>
      decrypt_file_document_with_context ?J ?C v handle reader = Inr (content, info)" by blast
  have "opens_with E v (handle_of m) reader ?mk content" if "m \<in> set ms" "holds_key ?C reader m" for m reader
    using file_recipient_unwraps [OF all len ok dist count that, of v] opens v(2,3) ws(2) by (simp add: opens_with_def)
  then show ?thesis using v(1,2) by blast
qed

text \<open>
  C4. An encrypted file reaches its recipients: what \<open>encrypt_file_content\<close> prints for a set of
  verified members, which may repeat, is verified, is addressed to exactly their handles, and is
  decrypted by every member it was sealed for to the content that was encrypted.
\<close>

theorem encrypted_file_holds_content:
  assumes "encrypt_file_content E P F content members sc = Inr text"
    and "env_signing_context E cc = Inr sc" and "signer_consistent E cc"
    and "hmac_ok (oe_crypto E)" and "aead_ok (oe_crypto E)" and "fresh_ok F"
    and "length content \<le> MAX_PLAINTEXT_INPUT_SIZE"
    and "\<forall>m\<in>set members. labels_valid m \<and> (\<exists>sk. kem_pair (oe_crypto E) m sk)"
    and "\<And>d. encrypt_file_document E F content (map handle_of (members_ordered members))
      (members_ordered members) sc = Inr d \<Longrightarrow> file_text_carried (oe_json E) P d"
  shows "file_holds E (members_ordered members) text content \<and>
    distinct (map handle_of (members_ordered members)) \<and>
    handle_of ` set (members_ordered members) = handle_of ` set members"
proof -
  let ?J = "oe_json E" and ?ms = "members_ordered members"
  from assms(1) obtain d where enc: "encrypt_file_document E F content (map handle_of ?ms) ?ms sc = Inr d"
    and printed: "text = P (se_file_enc ?J d)"
    by (auto simp: encrypt_file_content_def Let_def)
  have "recipients_ok (oe_crypto E) ?ms"
    using assms(8) members_ordered_props [of members] by (auto simp: recipients_ok_def)
  from encrypted_document_opens [OF enc assms(2-7) this assms(9) [OF enc]]
  have "file_holds E ?ms text content" unfolding file_holds_def printed opens_with_def by blast
  then show ?thesis using members_ordered_props by blast
qed

end
