(* ===== verification/Rewrap.thy ===== *)
theory Rewrap
  imports File_Ops
begin

text \<open>
  Changing the recipients of an encrypted artifact (\<open>feature/rewrap.rs\<close>, \<open>feature/recipient.rs\<close>,
  \<open>feature/disclosure.rs\<close>): the history of removed recipients, the resolution of recipients in the
  snapshot of target members, the plan of a rewrap and the contract of the executors that apply it.
\<close>

section \<open>The history of removed recipients\<close>

definition build_unique_removed_recipients :: "removed_recipient list \<Rightarrow> removed_recipient list" where
  "build_unique_removed_recipients source =
     foldl (\<lambda>deduped removed.
        if list_ex (\<lambda>existing. rr_kid existing = rr_kid removed) deduped then deduped
        else deduped @ [removed]) [] source"

fun position :: "('a \<Rightarrow> bool) \<Rightarrow> 'a list \<Rightarrow> nat option" where
  "position P [] = None"
| "position P (x # xs) = (if P x then Some 0 else map_option Suc (position P xs))"

definition upsert_removed_recipient :: "removed_recipient list \<Rightarrow> removed_recipient \<Rightarrow> removed_recipient list" where
  "upsert_removed_recipient rs removed =
     (case position (\<lambda>existing. rr_kid existing = rr_kid removed) rs of
        Some index \<Rightarrow> build_unique_removed_recipients (rs[index := removed])
      | None \<Rightarrow> rs @ [removed])"

fun fold_res :: "('a \<Rightarrow> 's \<Rightarrow> 's res) \<Rightarrow> 'a list \<Rightarrow> 's \<Rightarrow> 's res" where
  "fold_res f [] s = Inr s"
| "fold_res f (x # xs) s = res_bind (f x s) (fold_res f xs)"

definition add_to_removed_history ::
  "op_env \<Rightarrow> removed_recipient list option \<Rightarrow> string \<Rightarrow> string \<Rightarrow> removed_recipient list option res" where
  "add_to_removed_history E removed_recipients recipient_handle k =
     res_bind (oe_timestamp E) (\<lambda>timestamp.
     let removed = \<lparr>rr_recipient_handle = recipient_handle, rr_kid = k, rr_removed_at = timestamp\<rparr> in
     Inr (Some (case removed_recipients of
       Some rs \<Rightarrow> upsert_removed_recipient rs removed
     | None \<Rightarrow> [removed])))"

definition merge_removed_history ::
  "removed_recipient list option \<Rightarrow> removed_recipient list option \<Rightarrow> removed_recipient list option" where
  "merge_removed_history target source =
     (case source of
        None \<Rightarrow> target
      | Some old_removed \<Rightarrow> (case target of
          Some new_list \<Rightarrow> Some (foldl (\<lambda>new_list removed.
            if list_ex (\<lambda>existing. rr_kid existing = rr_kid removed) new_list then new_list
            else new_list @ [removed]) (build_unique_removed_recipients new_list) old_removed)
        | None \<Rightarrow> Some (build_unique_removed_recipients old_removed)))"

section \<open>Recipients\<close>

definition check_recipient_exists :: "string list \<Rightarrow> string \<Rightarrow> bool" where
  "check_recipient_exists current_recipients recipient_handle \<longleftrightarrow>
     list_ex (\<lambda>recipient. recipient = recipient_handle) current_recipients"

definition validate_not_empty_recipients :: "string list \<Rightarrow> unit res" where
  "validate_not_empty_recipients recipients =
     (if recipients = [] then Inl (plain_error Config) else Inr ())"

definition resolve_snapshot_verified_recipients ::
  "public_key list \<Rightarrow> string list \<Rightarrow> public_key list res" where
  "resolve_snapshot_verified_recipients target_members member_handles =
     collect_res (\<lambda>member_handle.
       ok_or (plain_error NotFound) (find (\<lambda>member. handle_of member = member_handle) target_members))
       member_handles"

definition filter_existing_recipients :: "public_key list \<Rightarrow> string list \<Rightarrow> public_key list" where
  "filter_existing_recipients recipients current_recipients =
     filter (\<lambda>member. \<not> check_recipient_exists current_recipients (handle_of member)) recipients"

definition resolve_new_snapshot_recipients ::
  "public_key list \<Rightarrow> string list \<Rightarrow> string list \<Rightarrow> public_key list res" where
  "resolve_new_snapshot_recipients target_members recipient_handles current_recipients =
     res_bind (resolve_snapshot_verified_recipients target_members recipient_handles) (\<lambda>recipients.
     Inr (filter_existing_recipients recipients current_recipients))"

text \<open>\<open>build_wrap i\<close> seals the \<open>i\<close>-th wrap that is built.\<close>

definition build_new_wrap_items ::
  "string list \<Rightarrow> nat \<Rightarrow> string list \<Rightarrow> public_key list \<Rightarrow> (nat \<Rightarrow> public_key \<Rightarrow> wrap_item res) \<Rightarrow>
   wrap_item list res" where
  "build_new_wrap_items current_recipients current_wrap_count new_recipients target_members build_wrap =
     res_bind (resolve_new_snapshot_recipients target_members new_recipients current_recipients) (\<lambda>attested_pubkeys.
     res_bind (validate_wrap_count (current_wrap_count + length attested_pubkeys)) (\<lambda>_.
     collect_res (\<lambda>(i, member). build_wrap i member) (zip [0..<length attested_pubkeys] attested_pubkeys)))"

definition resolve_verified_recipients ::
  "op_env \<Rightarrow> (member_handle list \<Rightarrow> public_key list res) \<Rightarrow> public_key list option \<Rightarrow> string list \<Rightarrow>
   public_key list res" where
  "resolve_verified_recipients E pub_key_source target_members recipient_handles =
     (case target_members of
        Some members \<Rightarrow> resolve_snapshot_verified_recipients members recipient_handles
      | None \<Rightarrow> verify_recipient_public_keys_from_source (oe_json E) (oe_crypto E) (oe_rfc3339 E) (oe_now E)
          pub_key_source recipient_handles)"

definition replace_recipient_wrap_items ::
  "wrap_item list \<Rightarrow> string list \<Rightarrow> public_key list \<Rightarrow> (nat \<Rightarrow> public_key \<Rightarrow> wrap_item res) \<Rightarrow> wrap_item list res" where
  "replace_recipient_wrap_items wrap_items recipient_handles target_members build_wrap =
     res_bind (resolve_snapshot_verified_recipients target_members recipient_handles) (\<lambda>refreshed_members.
     res_bind (collect_res (\<lambda>(i, member). build_wrap i member) (zip [0..<length refreshed_members] refreshed_members))
       (\<lambda>refreshed.
     Inr (filter (\<lambda>wrap. wi_recipient_handle wrap \<notin> set recipient_handles) wrap_items @ refreshed)))"

section \<open>The plan of a rewrap\<close>

record rewrap_options =
  ro_rotate_key :: bool
  ro_clear_disclosure_history :: bool

record rewrap_context =
  rc_options :: rewrap_options
  rc_member_handle :: string
  rc_key_ctx :: crypto_context
  rc_target_members :: "public_key list"

record rewrap_operation_plan =
  rp_remove_recipients :: "string list"
  rp_stale_recipient_handles :: "string list"
  rp_add_recipients :: "string list"
  rp_rotate_key :: bool
  rp_clear_disclosure_history :: bool

definition build_rewrap_operation_plan ::
  "string list \<Rightarrow> string list \<Rightarrow> string list \<Rightarrow> rewrap_options \<Rightarrow> rewrap_operation_plan" where
  "build_rewrap_operation_plan current_recipients target_recipients stale_recipients options =
     \<lparr>rp_remove_recipients = filter (\<lambda>recipient. recipient \<notin> set target_recipients) current_recipients,
      rp_stale_recipient_handles = stale_recipients,
      rp_add_recipients = filter (\<lambda>recipient. recipient \<notin> set current_recipients) target_recipients,
      rp_rotate_key = ro_rotate_key options,
      rp_clear_disclosure_history = ro_clear_disclosure_history options\<rparr>"

text \<open>The trait of the executors, as the record of its methods on a state.\<close>

record 's rewrap_executor =
  rx_current_recipients :: "'s \<Rightarrow> string list"
  rx_add_recipients :: "string list \<Rightarrow> 's \<Rightarrow> 's res"
  rx_rewrite_recipient_wraps :: "string list \<Rightarrow> 's \<Rightarrow> 's res"
  rx_remove_recipients :: "string list \<Rightarrow> 's \<Rightarrow> 's res"
  rx_rotate_key :: "'s \<Rightarrow> 's res"
  rx_clear_disclosure_history :: "'s \<Rightarrow> 's res"
  rx_finalize :: "'s \<Rightarrow> string res"

definition apply_recipient_step :: "string list \<Rightarrow> (string list \<Rightarrow> 's \<Rightarrow> 's res) \<Rightarrow> 's \<Rightarrow> 's res" where
  "apply_recipient_step recipients apply_op executor =
     (if recipients = [] then Inr executor else apply_op recipients executor)"

definition apply_flag_step :: "bool \<Rightarrow> ('s \<Rightarrow> 's res) \<Rightarrow> 's \<Rightarrow> 's res" where
  "apply_flag_step enabled apply_op executor = (if \<not> enabled then Inr executor else apply_op executor)"

definition apply_rewrap_operation_plan ::
  "'s rewrap_executor \<Rightarrow> 's \<Rightarrow> rewrap_operation_plan \<Rightarrow> 's res" where
  "apply_rewrap_operation_plan X executor plan =
     res_bind (apply_recipient_step (rp_remove_recipients plan) (rx_remove_recipients X) executor) (\<lambda>executor.
     res_bind (apply_recipient_step (rp_stale_recipient_handles plan) (rx_rewrite_recipient_wraps X) executor) (\<lambda>executor.
     res_bind (apply_recipient_step (rp_add_recipients plan) (rx_add_recipients X) executor) (\<lambda>executor.
     res_bind (apply_flag_step (rp_rotate_key plan) (rx_rotate_key X) executor) (\<lambda>executor.
     apply_flag_step (rp_clear_disclosure_history plan) (rx_clear_disclosure_history X) executor))))"

definition rewrite_with_rewrap_operation_plan ::
  "'s rewrap_executor \<Rightarrow> 's \<Rightarrow> rewrap_operation_plan \<Rightarrow> string res" where
  "rewrite_with_rewrap_operation_plan X executor plan =
     res_bind (apply_rewrap_operation_plan X executor plan) (rx_finalize X)"

definition collect_stale_recipient_handles :: "wrap_item list \<Rightarrow> public_key list \<Rightarrow> string list" where
  "collect_stale_recipient_handles current_wrap target_members =
     List.map_filter (\<lambda>member.
       case find (\<lambda>wrap. wi_recipient_handle wrap = handle_of member) current_wrap of
         None \<Rightarrow> None
       | Some wrap \<Rightarrow> if wi_kid wrap \<noteq> pk_kid (pk_protected member) then Some (handle_of member) else None)
       target_members"

definition collect_target_member_handles :: "public_key list \<Rightarrow> string list" where
  "collect_target_member_handles target_members = sort (map handle_of target_members)"

text \<open>The adapter of a format: its verification, the wraps of a verified document, its executor.\<close>

definition rewrap_document_with_common_skeleton ::
  "'v res \<Rightarrow> ('v \<Rightarrow> wrap_item list) \<Rightarrow> ('v \<Rightarrow> rewrap_context \<Rightarrow> 's res) \<Rightarrow>
   (rewrap_context \<Rightarrow> 's rewrap_executor) \<Rightarrow> rewrap_options \<Rightarrow> string \<Rightarrow> crypto_context \<Rightarrow>
   public_key list \<Rightarrow> string res" where
  "rewrap_document_with_common_skeleton verified_content current_wrap_items build_executor operations
     options member_handle key_ctx target_members =
     (let all_members = collect_target_member_handles target_members in
      res_bind verified_content (\<lambda>verified.
      let stale_recipients = collect_stale_recipient_handles (current_wrap_items verified) target_members;
          ctx = \<lparr>rc_options = options, rc_member_handle = member_handle, rc_key_ctx = key_ctx,
                 rc_target_members = target_members\<rparr> in
      res_bind (build_executor verified ctx) (\<lambda>executor.
      let plan = build_rewrap_operation_plan (rx_current_recipients (operations ctx) executor) all_members
                   stale_recipients options in
      rewrite_with_rewrap_operation_plan (operations ctx) executor plan)))"

lemma find_member: "find P xs = Some x \<Longrightarrow> x \<in> set xs \<and> P x"
  by (auto simp: find_Some_iff)

lemma collected_stale:
  "set (collect_stale_recipient_handles ws targets) \<subseteq> wi_recipient_handle ` set ws \<inter> handle_of ` set targets"
  "distinct (map handle_of targets) \<Longrightarrow> distinct (collect_stale_recipient_handles ws targets)"
proof -
  define stale where "stale = (\<lambda>member. case find (\<lambda>wrap. wi_recipient_handle wrap = handle_of member) ws of
      None \<Rightarrow> False | Some wrap \<Rightarrow> wi_kid wrap \<noteq> pk_kid (pk_protected member))"
  have eq: "collect_stale_recipient_handles ws targets = map handle_of (filter stale targets)"
    by (induction targets) (auto simp: collect_stale_recipient_handles_def List.map_filter_def stale_def split: option.splits)
  have "handle_of m \<in> wi_recipient_handle ` set ws" if "stale m" for m
  proof -
    obtain w where "find (\<lambda>wrap. wi_recipient_handle wrap = handle_of m) ws = Some w"
      using \<open>stale m\<close> by (auto simp: stale_def split: option.splits)
    from find_member [OF this] show ?thesis by (metis image_eqI)
  qed
  then show "set (collect_stale_recipient_handles ws targets) \<subseteq> wi_recipient_handle ` set ws \<inter> handle_of ` set targets"
    by (auto simp: eq)
  show "distinct (map handle_of targets) \<Longrightarrow> distinct (collect_stale_recipient_handles ws targets)"
    by (simp add: eq distinct_map_filter)
qed

text \<open>The randomness of the wraps that are refreshed, of those that are added, and of a new key.\<close>

record rewrap_fresh =
  rf_stale :: entropy
  rf_add :: entropy
  rf_rotate :: fresh_values

definition rewrap_context_of :: "rewrap_options \<Rightarrow> string \<Rightarrow> crypto_context \<Rightarrow> public_key list \<Rightarrow> rewrap_context" where
  "rewrap_context_of options member_handle key_ctx target_members =
     \<lparr>rc_options = options, rc_member_handle = member_handle, rc_key_ctx = key_ctx, rc_target_members = target_members\<rparr>"

text \<open>The fresh values are of their lengths and the target members have keys and distinct, valid handles.\<close>

definition rewrap_setting :: "op_env \<Rightarrow> rewrap_fresh \<Rightarrow> rewrap_context \<Rightarrow> bool" where
  "rewrap_setting E F ctx \<longleftrightarrow>
     hmac_ok (oe_crypto E) \<and> aead_ok (oe_crypto E) \<and> fresh_ok (rf_rotate F) \<and>
     recipients_ok (oe_crypto E) (rc_target_members ctx)"

text \<open>The key is rotated when a recipient leaves or the caller asks for it.\<close>

definition key_must_change :: "rewrap_options \<Rightarrow> wrap_item list \<Rightarrow> public_key list \<Rightarrow> bool" where
  "key_must_change options ws targets \<longleftrightarrow>
     ro_rotate_key options \<or> \<not> wi_recipient_handle ` set ws \<subseteq> handle_of ` set targets"

definition has_current_wrap :: "wrap_item list \<Rightarrow> public_key \<Rightarrow> bool" where
  "has_current_wrap ws m \<longleftrightarrow>
     (\<exists>w\<in>set ws. wi_recipient_handle w = handle_of m \<and> wi_kid w = pk_kid (pk_protected m))"

lemma not_stale_is_current:
  assumes "h \<in> wi_recipient_handle ` set ws" and "h = handle_of m" and "m \<in> set targets"
    and "h \<notin> set (collect_stale_recipient_handles ws targets)" and "distinct (map wi_recipient_handle ws)"
  shows "has_current_wrap ws m"
proof -
  obtain w where w: "find (\<lambda>wrap. wi_recipient_handle wrap = handle_of m) ws = Some w"
    using assms(1,2) by (metis (mono_tags, lifting) find_None_iff imageE option.exhaust)
  have "wi_kid w = pk_kid (pk_protected m)"
  proof (rule ccontr)
    assume "wi_kid w \<noteq> pk_kid (pk_protected m)"
    then have "h \<in> set (collect_stale_recipient_handles ws targets)"
      using assms(2,3) w by (force simp: collect_stale_recipient_handles_def List.map_filter_def)
    with assms(4) show False ..
  qed
  then show ?thesis using find_member [OF w] by (auto simp: has_current_wrap_def)
qed

section \<open>The contract of an executor\<close>

text \<open>
  What each method does to the set of recipients: \<open>good\<close> is an invariant the methods keep, \<open>rotated\<close>
  says that the key is no longer the one the artifact had, and \<open>refreshed\<close> are the recipients whose
  wraps were made from the target members.
\<close>

locale recipient_rewriter =
  fixes X :: "'s rewrap_executor" and good :: "'s \<Rightarrow> bool" and rotated :: "'s \<Rightarrow> bool"
    and refreshed :: "'s \<Rightarrow> string set"
  assumes rotated_refreshed: "good s \<Longrightarrow> rotated s \<Longrightarrow> set (rx_current_recipients X s) \<subseteq> refreshed s"
    and after_remove: "good s \<Longrightarrow> \<not> rotated s \<Longrightarrow> rs \<noteq> [] \<Longrightarrow> set rs \<subseteq> set (rx_current_recipients X s) \<Longrightarrow>
      rx_remove_recipients X rs s = Inr s' \<Longrightarrow>
      good s' \<and> rotated s' \<and> set (rx_current_recipients X s') = set (rx_current_recipients X s) - set rs"
    and after_rewrite: "good s \<Longrightarrow> set rs \<subseteq> set (rx_current_recipients X s) \<Longrightarrow> distinct rs \<Longrightarrow>
      rx_rewrite_recipient_wraps X rs s = Inr s' \<Longrightarrow>
      good s' \<and> rotated s' = rotated s \<and> refreshed s \<union> set rs \<subseteq> refreshed s' \<and>
      set (rx_current_recipients X s') = set (rx_current_recipients X s)"
    and after_add: "good s \<Longrightarrow> set rs \<inter> set (rx_current_recipients X s) = {} \<Longrightarrow> distinct rs \<Longrightarrow>
      rx_add_recipients X rs s = Inr s' \<Longrightarrow>
      good s' \<and> rotated s' = rotated s \<and> refreshed s \<union> set rs \<subseteq> refreshed s' \<and>
      set (rx_current_recipients X s') = set (rx_current_recipients X s) \<union> set rs"
    and after_rotate: "good s \<Longrightarrow> rx_rotate_key X s = Inr s' \<Longrightarrow>
      good s' \<and> rotated s' \<and> set (rx_current_recipients X s') = set (rx_current_recipients X s)"
    and after_clear: "good s \<Longrightarrow> rx_clear_disclosure_history X s = Inr s' \<Longrightarrow>
      good s' \<and> rotated s' = rotated s \<and> refreshed s \<subseteq> refreshed s' \<and>
      set (rx_current_recipients X s') = set (rx_current_recipients X s)"
begin

text \<open>A plan turns the recipients into the targets, and rotates the key when somebody leaves.\<close>

lemma plan_reaches_targets:
  assumes "good s" and "\<not> rotated s" and "distinct targets"
    and "plan = build_rewrap_operation_plan (rx_current_recipients X s) targets stale options"
    and "set stale \<subseteq> set (rx_current_recipients X s) \<inter> set targets" and "distinct stale"
    and "apply_rewrap_operation_plan X s plan = Inr s'"
  shows "good s' \<and> set (rx_current_recipients X s') = set targets \<and>
    (rotated s' \<longleftrightarrow> \<not> set (rx_current_recipients X s) \<subseteq> set targets \<or> ro_rotate_key options) \<and>
    set stale \<union> (set targets - set (rx_current_recipients X s)) \<subseteq> refreshed s'"
proof -
  let ?cur = "rx_current_recipients X"
  let ?gone = "filter (\<lambda>recipient. recipient \<notin> set targets) (?cur s)"
  let ?new = "filter (\<lambda>recipient. recipient \<notin> set (?cur s)) targets"
  let ?made = "set stale \<union> (set targets - set (?cur s))"
  from assms(4,7) obtain s1 s2 s3 s4 where
    s1: "apply_recipient_step ?gone (rx_remove_recipients X) s = Inr s1"
    and s2: "apply_recipient_step stale (rx_rewrite_recipient_wraps X) s1 = Inr s2"
    and s3: "apply_recipient_step ?new (rx_add_recipients X) s2 = Inr s3"
    and s4: "apply_flag_step (ro_rotate_key options) (rx_rotate_key X) s3 = Inr s4"
    and s5: "apply_flag_step (ro_clear_disclosure_history options) (rx_clear_disclosure_history X) s4 = Inr s'"
    by (auto simp: apply_rewrap_operation_plan_def build_rewrap_operation_plan_def)
  have 1: "good s1 \<and> set (?cur s1) = set (?cur s) \<inter> set targets \<and> (rotated s1 \<longleftrightarrow> ?gone \<noteq> [])"
  proof (cases "?gone = []")
    case True
    then have "s1 = s" "set (?cur s) \<subseteq> set targets"
      using s1 by (auto simp: apply_recipient_step_def filter_empty_conv)
    then show ?thesis using assms(1,2) True by blast
  next
    case False
    then have "rx_remove_recipients X ?gone s = Inr s1" using s1 by (simp only: apply_recipient_step_def if_False)
    from after_remove [OF assms(1,2) False _ this] have "good s1" "rotated s1" "set (?cur s1) = set (?cur s) - set ?gone"
      by simp_all
    then show ?thesis using False by (simp del: filter_empty_conv) blast
  qed
  have 2: "good s2 \<and> set (?cur s2) = set (?cur s1) \<and> rotated s2 = rotated s1 \<and> set stale \<subseteq> refreshed s2"
  proof (cases "stale = []")
    case True
    then show ?thesis using s2 1 by (simp add: apply_recipient_step_def)
  next
    case False
    then have "rx_rewrite_recipient_wraps X stale s1 = Inr s2" using s2 by (simp add: apply_recipient_step_def)
    from after_rewrite [OF _ _ assms(6) this] show ?thesis using 1 assms(5) by blast
  qed
  have disj: "set ?new \<inter> set (?cur s2) = {}" "distinct ?new" using 1 2 assms(3) by auto
  have 3: "good s3 \<and> set (?cur s3) = set (?cur s2) \<union> set ?new \<and> rotated s3 = rotated s2 \<and> ?made \<subseteq> refreshed s3"
  proof (cases "?new = []")
    case True
    then have "s3 = s2" "set targets - set (?cur s) = {}"
      using s3 by (auto simp: apply_recipient_step_def filter_empty_conv)
    with True 2 show ?thesis by (simp only: list.set Un_empty_right simp_thms)
  next
    case False
    then have "rx_add_recipients X ?new s2 = Inr s3" using s3 by (simp only: apply_recipient_step_def if_False)
    from after_add [OF _ disj this] 2 show ?thesis by auto
  qed
  have all: "set (?cur s3) = set targets" using 1 2 3 by auto
  have made: "?made \<subseteq> set targets" using assms(5) by blast
  have 4: "good s4 \<and> set (?cur s4) = set targets \<and> (rotated s4 \<longleftrightarrow> rotated s3 \<or> ro_rotate_key options) \<and> ?made \<subseteq> refreshed s4"
  proof (cases "ro_rotate_key options")
    case True
    then have "rx_rotate_key X s3 = Inr s4" using s4 by (simp add: apply_flag_step_def)
    moreover have "good s3" using 3 by (elim conjE)
    ultimately have s4: "good s4" "rotated s4" "set (?cur s4) = set targets" using after_rotate all by simp_all
    have "?made \<subseteq> refreshed s4" using made rotated_refreshed [OF s4(1,2)] unfolding s4(3) by (rule subset_trans)
    then show ?thesis using s4 True by (intro conjI) simp_all
  next
    case False
    then have "s4 = s3" using s4 by (simp add: apply_flag_step_def)
    then show ?thesis using 3 all False by simp
  qed
  have 5: "good s' \<and> set (?cur s') = set targets \<and> rotated s' = rotated s4 \<and> ?made \<subseteq> refreshed s'"
  proof (cases "ro_clear_disclosure_history options")
    case True
    then have "rx_clear_disclosure_history X s4 = Inr s'" using s5 by (simp add: apply_flag_step_def)
    from after_clear [OF _ this] show ?thesis using 4 by blast
  next
    case False
    then have "s' = s4" using s5 by (simp add: apply_flag_step_def)
    then show ?thesis using 4 by simp
  qed
  have "?gone = [] \<longleftrightarrow> set (?cur s) \<subseteq> set targets" by (auto simp: filter_empty_conv)
  moreover have "rotated s1 \<longleftrightarrow> ?gone \<noteq> []" using 1 by (elim conjE)
  moreover have "rotated s2 = rotated s1" using 2 by (elim conjE)
  moreover have "rotated s3 = rotated s2" using 3 by (elim conjE)
  moreover have "rotated s4 \<longleftrightarrow> rotated s3 \<or> ro_rotate_key options" using 4 by (elim conjE)
  moreover have "rotated s' = rotated s4" using 5 by (elim conjE)
  ultimately have "rotated s' \<longleftrightarrow> \<not> set (?cur s) \<subseteq> set targets \<or> ro_rotate_key options"
    by (simp only: simp_thms de_Morgan_conj disj_assoc)
  then show ?thesis using 5 by (elim conjE) (intro conjI)
qed

end

section \<open>Wraps that are kept and wraps that are made\<close>

lemma parsed_wrap_lookup:
  assumes valid: "validate_wrap_items ws = Inr ()" and w: "w \<in> set ws"
  shows "\<exists>rs r. WrapSet_parse ws = Inr rs \<and> RecipientWrap_parse w = Inr r \<and>
    self_wrap_kid rs (MemberHandle (wi_recipient_handle w)) = Some (Kid (wi_kid w)) \<and>
    (\<forall>k. find_by_kid_for_member rs k (MemberHandle (wi_recipient_handle w)) =
       (if k = Kid (wi_kid w) then Inr r else Inl (plain_error Crypto)))"
proof -
  let ?h = "MemberHandle (wi_recipient_handle w)"
  have items: "list_all wrap_item_ok ws" "distinct (map wi_recipient_handle ws)"
    using valid by (simp_all add: validate_wrap_items_iff)
  then have "\<forall>w\<in>set ws. \<exists>r. RecipientWrap_parse w = Inr r"
    by (auto simp: list_all_iff wrap_item_ok_def validate_wrap_item_def RecipientWrap_parse_def)
  then obtain f where f: "\<forall>w\<in>set ws. RecipientWrap_parse w = Inr (f w)" by metis
  then have parsed: "WrapSet_parse ws = Inr (map f ws)"
    using valid by (simp add: WrapSet_parse_def collect_res_map [where g = f])
  have labels: "rw_recipient_handle (f v) = MemberHandle (wi_recipient_handle v)" "rw_kid (f v) = Kid (wi_kid v)"
    if "v \<in> set ws" for v using f that RecipientWrap_parse_labels by blast+
  obtain i where i: "i < length ws" "w = ws ! i" using w by (auto simp: in_set_conv_nth)
  have only: "wi_recipient_handle (ws ! j) \<noteq> wi_recipient_handle w" if "j < i" for j
    using items(2) that i by (auto simp: distinct_conv_nth)
  have unique: "v = w" if "v \<in> set ws" "wi_recipient_handle v = wi_recipient_handle w" for v
    using items(2) that w by (auto simp: distinct_map dest: inj_onD)
  have self: "find (\<lambda>r. rw_recipient_handle r = ?h) (map f ws) = Some (f w)"
    using labels only i by (auto simp: find_Some_iff intro!: exI [of _ i])
  have both: "find (\<lambda>r. rw_kid r = k \<and> rw_recipient_handle r = ?h) (map f ws) =
      (if k = Kid (wi_kid w) then Some (f w) else None)" for k
    using labels only i unique w by (auto simp: find_Some_iff find_None_iff intro!: exI [of _ i])
  show ?thesis
    using parsed f w self both labels(2) [OF w]
    by (intro exI [of _ "map f ws"] exI [of _ "f w"])
      (auto simp: self_wrap_kid_def find_by_kid_for_member_def split: option.split)
qed

text \<open>Two lists of wraps that share the wrap of a recipient give it the same key choice and the same wrap.\<close>

lemma kept_wrap_selection:
  assumes "w \<in> set ws" and "w \<in> set ws'" and "validate_wrap_items ws = Inr ()" and "validate_wrap_items ws' = Inr ()"
  shows "\<exists>rs rs'. WrapSet_parse ws = Inr rs \<and> WrapSet_parse ws' = Inr rs' \<and>
    select_local_decryption_key reader rs' (wi_recipient_handle w) = select_local_decryption_key reader rs (wi_recipient_handle w) \<and>
    (\<forall>k. find_by_kid_for_member rs' k (MemberHandle (wi_recipient_handle w)) =
       find_by_kid_for_member rs k (MemberHandle (wi_recipient_handle w)))"
proof -
  let ?h = "MemberHandle (wi_recipient_handle w)"
  from parsed_wrap_lookup [OF assms(3,1)] obtain rs r where 1: "WrapSet_parse ws = Inr rs"
    "RecipientWrap_parse w = Inr r" "self_wrap_kid rs ?h = Some (Kid (wi_kid w))"
    "\<forall>k. find_by_kid_for_member rs k ?h = (if k = Kid (wi_kid w) then Inr r else Inl (plain_error Crypto))" by blast
  from parsed_wrap_lookup [OF assms(4,2)] obtain rs' r' where 2: "WrapSet_parse ws' = Inr rs'"
    "RecipientWrap_parse w = Inr r'" "self_wrap_kid rs' ?h = Some (Kid (wi_kid w))"
    "\<forall>k. find_by_kid_for_member rs' k ?h = (if k = Kid (wi_kid w) then Inr r' else Inl (plain_error Crypto))" by blast
  have "select_local_decryption_key reader rs' (wi_recipient_handle w) =
      select_local_decryption_key reader rs (wi_recipient_handle w)"
    using 1(3) 2(3) by (cases "validate_member_handle (wi_recipient_handle w)")
      (simp_all add: select_local_decryption_key_def MemberHandle_new_def)
  then show ?thesis using 1 2 by auto
qed

lemma resolve_snapshot_Inr:
  assumes "resolve_snapshot_verified_recipients targets handles = Inr ms"
  shows "map handle_of ms = handles" and "set ms \<subseteq> set targets"
proof -
  have all: "list_all2 (\<lambda>h m. find (\<lambda>member. handle_of member = h) targets = Some m) handles ms"
    using assms unfolding resolve_snapshot_verified_recipients_def collect_res_Inr
    by (rule list_all2_mono) (auto simp: ok_or_def split: option.splits)
  show "map handle_of ms = handles"
    using all by (induction rule: list_all2_induct) (auto simp: find_Some_iff)
  show "set ms \<subseteq> set targets"
    using all by (induction rule: list_all2_induct) (auto simp: find_Some_iff)
qed

context wrap_scheme begin

text \<open>A wrap made for a target, and the wraps of an artifact between two keys of the rewrap.\<close>

definition sealed_for :: "public_key list \<Rightarrow> uuid \<Rightarrow> u8 list \<Rightarrow> wrap_item \<Rightarrow> bool" where
  "sealed_for targets sid mk w \<longleftrightarrow> (\<exists>m\<in>set targets. \<exists>rnd. wrap rnd m sid mk = Inr w)"

definition mixed :: "public_key list \<Rightarrow> wrap_item set \<Rightarrow> uuid \<Rightarrow> u8 list \<Rightarrow> wrap_item list \<Rightarrow> bool" where
  "mixed targets kept sid mk ws \<longleftrightarrow>
     validate_wrap_items ws = Inr () \<and> (\<forall>w\<in>set ws. w \<in> kept \<or> sealed_for targets sid mk w)"

definition made_for :: "public_key list \<Rightarrow> uuid \<Rightarrow> u8 list \<Rightarrow> wrap_item list \<Rightarrow> string set" where
  "made_for targets sid mk ws = wi_recipient_handle ` {w \<in> set ws. sealed_for targets sid mk w}"

lemma mixed_filter: "mixed targets kept sid mk ws \<Longrightarrow> mixed targets kept sid mk (filter P ws)"
  by (auto simp: mixed_def validate_wrap_items_iff distinct_map_filter list_all_iff
      intro: le_trans [OF length_filter_le])

lemma built_wraps:
  assumes "collect_res (\<lambda>(i, m). wrap (rnd i) m sid mk) (zip [0..<length ms] ms) = Inr new"
    and "set ms \<subseteq> set targets"
  shows "map wi_recipient_handle new = map handle_of ms" and "\<forall>w\<in>set new. sealed_for targets sid mk w"
proof -
  have all: "wraps_all rnd ms sid mk = Inr new" using assms(1) by (simp add: wraps_all_def)
  then show "map wi_recipient_handle new = map handle_of ms" using wraps_all_labels by blast
  show "\<forall>w\<in>set new. sealed_for targets sid mk w"
    using all assms(2) by (fastforce simp: wraps_all_nth in_set_conv_nth sealed_for_def)
qed

lemma sealed_items_ok:
  assumes "\<forall>m\<in>set targets. labels_valid m \<and> (\<exists>sk. pair m sk)" and "length mk = 32" and "sealed_for targets sid mk w"
  shows "wrap_item_ok w"
  using assms wrap_item_valid unfolding sealed_for_def by blast

lemma replaced_wraps:
  assumes "replace_recipient_wrap_items ws hs targets (\<lambda>i m. wrap (rnd i) m sid mk) = Inr ws'"
    and mixed: "mixed targets kept sid mk ws" and hs: "distinct hs" "set hs \<subseteq> wi_recipient_handle ` set ws"
    and ok: "\<forall>m\<in>set targets. labels_valid m \<and> (\<exists>sk. pair m sk)" "length mk = 32"
  shows "mixed targets kept sid mk ws'" and "wi_recipient_handle ` set ws' = wi_recipient_handle ` set ws"
    and "made_for targets sid mk ws \<union> set hs \<subseteq> made_for targets sid mk ws'"
proof -
  let ?rest = "filter (\<lambda>w. wi_recipient_handle w \<notin> set hs) ws"
  from assms(1) obtain ms new where ms: "resolve_snapshot_verified_recipients targets hs = Inr ms"
    and new: "collect_res (\<lambda>(i, m). wrap (rnd i) m sid mk) (zip [0..<length ms] ms) = Inr new"
    and ws': "ws' = ?rest @ new"
    by (auto simp: replace_recipient_wrap_items_def)
  note built = built_wraps [OF new resolve_snapshot_Inr(2) [OF ms]]
  have labels: "map wi_recipient_handle new = hs" using built(1) resolve_snapshot_Inr(1) [OF ms] by simp
  then have "length new = length hs" by (metis length_map)
  then have handles: "wi_recipient_handle ` set new = set hs" using labels by (metis list.set_map)
  have valid: "validate_wrap_items ws = Inr ()" using mixed by (simp add: mixed_def)
  then have dist: "distinct (map wi_recipient_handle ws)" and len: "length ws \<le> MAX_WRAP_ITEMS"
    by (simp_all add: validate_wrap_items_iff)
  have "length ?rest + length hs \<le> length ws"
  proof -
    have "card (wi_recipient_handle ` set ws) = length ws"
      using dist by (metis distinct_card length_map list.set_map)
    moreover have "distinct (map wi_recipient_handle ?rest)" using dist by (rule distinct_map_filter)
    then have "card (wi_recipient_handle ` set ?rest) = length ?rest"
      by (metis distinct_card length_map list.set_map)
    moreover have "card (wi_recipient_handle ` set ?rest \<union> set hs) =
        card (wi_recipient_handle ` set ?rest) + card (set hs)"
      by (rule card_Un_disjoint) auto
    moreover have "wi_recipient_handle ` set ?rest \<union> set hs \<subseteq> wi_recipient_handle ` set ws" using hs(2) by auto
    then have "card (wi_recipient_handle ` set ?rest \<union> set hs) \<le> card (wi_recipient_handle ` set ws)"
      by (intro card_mono) simp_all
    ultimately show ?thesis using distinct_card [OF hs(1)] by simp
  qed
  then have count: "length ws' \<le> MAX_WRAP_ITEMS" using len by (simp add: ws' \<open>length new = length hs\<close>)
  have "distinct (map wi_recipient_handle ws')"
    using dist hs(1) by (auto simp: ws' labels distinct_map_filter)
  moreover have "list_all wrap_item_ok ws'"
    using valid sealed_items_ok [OF ok] built(2) by (auto simp: ws' validate_wrap_items_iff list_all_iff)
  ultimately show "mixed targets kept sid mk ws'"
    using count mixed built(2) by (auto simp: mixed_def validate_wrap_items_iff ws')
  show "wi_recipient_handle ` set ws' = wi_recipient_handle ` set ws"
    using hs(2) handles by (auto simp: ws')
  show "made_for targets sid mk ws \<union> set hs \<subseteq> made_for targets sid mk ws'"
    using built(2) handles by (fastforce simp: made_for_def ws')
qed

lemma added_wraps:
  assumes "build_new_wrap_items (map wi_recipient_handle ws) (length ws) hs targets (\<lambda>i m. wrap (rnd i) m sid mk) = Inr new"
    and mixed: "mixed targets kept sid mk ws" and hs: "distinct hs" "set hs \<inter> wi_recipient_handle ` set ws = {}"
    and ok: "\<forall>m\<in>set targets. labels_valid m \<and> (\<exists>sk. pair m sk)" "length mk = 32"
  shows "mixed targets kept sid mk (ws @ new)"
    and "wi_recipient_handle ` set (ws @ new) = wi_recipient_handle ` set ws \<union> set hs"
    and "made_for targets sid mk ws \<union> set hs \<subseteq> made_for targets sid mk (ws @ new)"
proof -
  from assms(1) obtain ms where ms: "resolve_snapshot_verified_recipients targets hs = Inr ms"
    and new: "collect_res (\<lambda>(i, m). wrap (rnd i) m sid mk) (zip [0..<length ms] ms) = Inr new"
    and count: "length ws + length ms \<le> MAX_WRAP_ITEMS"
  proof -
    from assms(1) obtain ms0 where ms0: "resolve_snapshot_verified_recipients targets hs = Inr ms0"
      by (auto simp: build_new_wrap_items_def resolve_new_snapshot_recipients_def)
    have "filter_existing_recipients ms0 (map wi_recipient_handle ws) = ms0"
    proof -
      have "handle_of m \<in> set hs" if "m \<in> set ms0" for m
        using resolve_snapshot_Inr(1) [OF ms0] that by (metis image_eqI list.set_map)
      then show ?thesis
        using hs(2) by (auto simp: filter_existing_recipients_def check_recipient_exists_def list_ex_iff filter_id_conv)
    qed
    then show ?thesis
      using assms(1) ms0 that by (auto simp: build_new_wrap_items_def resolve_new_snapshot_recipients_def)
  qed
  note built = built_wraps [OF new resolve_snapshot_Inr(2) [OF ms]]
  have labels: "map wi_recipient_handle new = hs" using built(1) resolve_snapshot_Inr(1) [OF ms] by simp
  then have handles: "wi_recipient_handle ` set new = set hs" by (metis list.set_map)
  have len: "length new = length ms" using built(1) by (metis length_map)
  have valid: "validate_wrap_items ws = Inr ()" using mixed by (simp add: mixed_def)
  have "distinct (map wi_recipient_handle (ws @ new))"
    using valid hs by (auto simp: validate_wrap_items_iff labels)
  moreover have "list_all wrap_item_ok (ws @ new)"
    using valid sealed_items_ok [OF ok] built(2) by (auto simp: validate_wrap_items_iff list_all_iff)
  ultimately show "mixed targets kept sid mk (ws @ new)"
    using count len mixed built(2) by (auto simp: mixed_def validate_wrap_items_iff)
  show "wi_recipient_handle ` set (ws @ new) = wi_recipient_handle ` set ws \<union> set hs" using handles by auto
  show "made_for targets sid mk ws \<union> set hs \<subseteq> made_for targets sid mk (ws @ new)"
    using built(2) handles by (fastforce simp: made_for_def)
qed

lemma rotated_wraps:
  assumes "wraps_all rnd ms sid mk = Inr ws" and "set ms \<subseteq> set targets" and "distinct (map handle_of ms)"
    and "length ms \<le> MAX_WRAP_ITEMS" and ok: "\<forall>m\<in>set targets. labels_valid m \<and> (\<exists>sk. pair m sk)" "length mk = 32"
  shows "mixed targets {} sid mk ws" and "wi_recipient_handle ` set ws = handle_of ` set ms"
    and "made_for targets sid mk ws = handle_of ` set ms"
proof -
  have built: "map wi_recipient_handle ws = map handle_of ms" "\<forall>w\<in>set ws. sealed_for targets sid mk w"
    using built_wraps [of rnd sid mk ms ws targets] assms(1,2) by (simp_all add: wraps_all_def)
  show "mixed targets {} sid mk ws"
    using wraps_all_valid [OF assms(1) ok(2) _ assms(3,4)] ok(1) assms(2) built(2) by (auto simp: mixed_def)
  show handles: "wi_recipient_handle ` set ws = handle_of ` set ms" using built(1) by (metis list.set_map)
  have "{w \<in> set ws. sealed_for targets sid mk w} = set ws" using built(2) by blast
  then show "made_for targets sid mk ws = handle_of ` set ms" using handles by (simp add: made_for_def)
qed

lemma made_wrap_opens:
  assumes "validate_wrap_items ws = Inr ()" and "m \<in> set targets" and "distinct (map handle_of targets)"
    and "handle_of m \<in> made_for targets sid mk ws" and "pair m sk" and "length mk = 32"
  shows "\<exists>rs r. WrapSet_parse ws = Inr rs \<and>
    self_wrap_kid rs (MemberHandle (handle_of m)) = Some (Kid (pk_kid (pk_protected m))) \<and>
    find_by_kid_for_member rs (Kid (pk_kid (pk_protected m))) (MemberHandle (handle_of m)) = Inr r \<and>
    unwrap sid r sk = Inr mk"
proof -
  from assms(4) obtain w m' rnd where w: "w \<in> set ws" "wi_recipient_handle w = handle_of m" "m' \<in> set targets"
    "wrap rnd m' sid mk = Inr w" by (auto simp: made_for_def sealed_for_def)
  have "handle_of m' = handle_of m" using wrap_labels [OF w(4)] w(2) by simp
  then have "m' = m" using assms(2,3) w(3) by (auto simp: distinct_map dest: inj_onD)
  with w(4) have wrap: "wrap rnd m sid mk = Inr w" by simp
  from parsed_wrap_lookup [OF assms(1) w(1)] show ?thesis
    using unwrap_wrap [OF wrap assms(6,5)] wrap_labels [OF wrap] by auto
qed

end

end
