(* ===== verification/Rewrap_Kv.thy ===== *)
theory Rewrap_Kv
  imports Rewrap
begin

text \<open>
  The rewrap of a kv-enc document (\<open>feature/rewrap/kv.rs\<close>, \<open>feature/rewrap/kv_op\<close>,
  \<open>feature/kv/rewrite_session\<close>). Recipients that leave and a rotation re-encrypt the whole map under a
  fresh key; recipients that join or change their key only get new wraps.
\<close>

section \<open>Re-encrypting a session\<close>

definition merge_removed_history_from_old :: "op_env \<Rightarrow> kv_wrap \<Rightarrow> string list \<Rightarrow> kv_wrap \<Rightarrow> kv_wrap res" where
  "merge_removed_history_from_old E old_wrap removed_recipients new_wrap =
     res_bind (fold_res (\<lambda>recipient_handle history.
         case find (\<lambda>wrap. wi_recipient_handle wrap = recipient_handle) (kw_wrap old_wrap) of
           Some wrap_item \<Rightarrow> add_to_removed_history E history recipient_handle (wi_kid wrap_item)
         | None \<Rightarrow> Inr history) removed_recipients (kw_removed_recipients new_wrap)) (\<lambda>history.
     Inr (new_wrap\<lparr>kw_removed_recipients := merge_removed_history history (kw_removed_recipients old_wrap)\<rparr>))"

record kv_recipient_rewrite_request =
  rq_new_recipients :: "string list"
  rq_removed_recipients :: "string list"
  rq_disclosed :: bool
  rq_preserve_removed_history :: bool

definition preserved_history ::
  "op_env \<Rightarrow> rewrite_session \<Rightarrow> kv_recipient_rewrite_request \<Rightarrow> kv_wrap \<Rightarrow> kv_wrap res" where
  "preserved_history E session request new_wrap =
     (if rq_preserve_removed_history request
      then merge_removed_history_from_old E (kvd_wrap (session_document session)) (rq_removed_recipients request) new_wrap
      else Inr new_wrap)"

definition rewrap_kv_with_recipients ::
  "op_env \<Rightarrow> (member_handle list \<Rightarrow> public_key list res) \<Rightarrow> fresh_values \<Rightarrow> rewrite_session \<Rightarrow>
   public_key list option \<Rightarrow> kv_recipient_rewrite_request \<Rightarrow> string res" where
  "rewrap_kv_with_recipients E pub_key_source F session target_members request =
     res_bind (resolve_verified_recipients E pub_key_source target_members (rq_new_recipients request)) (\<lambda>verified_members.
     res_bind (decrypt_all_values E session) (\<lambda>decrypted_content.
     encrypt_kv_map_with_key_context E F decrypted_content verified_members (rs_key_ctx session) (rq_disclosed request)
       (preserved_history E session request)))"

section \<open>Operations on the wraps\<close>

definition add_kv_recipients ::
  "op_env \<Rightarrow> entropy \<Rightarrow> uuid \<Rightarrow> string list \<Rightarrow> u8 list \<Rightarrow> public_key list \<Rightarrow> kv_wrap \<Rightarrow> kv_wrap res" where
  "add_kv_recipients E rnd sid new_recipients master_key target_members wrap_data =
     res_bind (build_new_wrap_items (extract_recipients_from_wrap wrap_data) (length (kw_wrap wrap_data)) new_recipients
        target_members (\<lambda>i attested. build_wrap_item_for_kv (oe_json E) (oe_crypto E) (rnd i) attested sid master_key))
       (\<lambda>wrap_items.
     Inr (wrap_data\<lparr>kw_wrap := kw_wrap wrap_data @ wrap_items\<rparr>))"

definition rewrite_kv_recipient_wraps ::
  "op_env \<Rightarrow> entropy \<Rightarrow> uuid \<Rightarrow> string list \<Rightarrow> u8 list \<Rightarrow> public_key list \<Rightarrow> kv_wrap \<Rightarrow> kv_wrap res" where
  "rewrite_kv_recipient_wraps E rnd sid refreshed_recipients master_key target_members wrap_data =
     res_bind (replace_recipient_wrap_items (kw_wrap wrap_data) refreshed_recipients target_members
        (\<lambda>i member. build_wrap_item_for_kv (oe_json E) (oe_crypto E) (rnd i) member sid master_key)) (\<lambda>wrap_items.
     Inr (wrap_data\<lparr>kw_wrap := wrap_items\<rparr>))"

section \<open>The executor\<close>

datatype kv_master_key_state = KvOriginal | KvRotated

record kv_executor =
  kx_session :: rewrite_session
  kx_doc :: kv_draft
  kx_master_key_state :: kv_master_key_state

definition kx_wrap :: "kv_executor \<Rightarrow> kv_wrap" where "kx_wrap s = ws_data (dr_wrap (kx_doc s))"

definition new_from_verified ::
  "op_env \<Rightarrow> kv_enc_document verified_document \<Rightarrow> rewrap_context \<Rightarrow> kv_executor res" where
  "new_from_verified E verified ctx =
     (let session = \<lparr>rs_verified = verified, rs_member_handle = rc_member_handle ctx, rs_key_ctx = rc_key_ctx ctx\<rparr> in
      res_bind (build_unsigned (oe_json E) session (kvd_head (session_document session))) (\<lambda>doc.
      Inr \<lparr>kx_session = session, kx_doc = doc, kx_master_key_state = KvOriginal\<rparr>))"

definition rebuild_from_content :: "op_env \<Rightarrow> rewrap_context \<Rightarrow> string \<Rightarrow> kv_executor \<Rightarrow> kv_executor res" where
  "rebuild_from_content E ctx content s =
     res_bind (session_load E (KvEncContent content) (rc_member_handle ctx) (rc_key_ctx ctx)) (\<lambda>session.
     res_bind (build_unsigned (oe_json E) session (kvd_head (session_document session))) (\<lambda>doc.
     Inr (s\<lparr>kx_session := session, kx_doc := doc, kx_master_key_state := KvRotated\<rparr>)))"

definition update_timestamp :: "op_env \<Rightarrow> kv_executor \<Rightarrow> kv_executor res" where
  "update_timestamp E s =
     res_bind (oe_timestamp E) (\<lambda>timestamp. Inr (s\<lparr>kx_doc := set_updated_at timestamp (kx_doc s)\<rparr>))"

definition kv_add_recipients ::
  "op_env \<Rightarrow> rewrap_fresh \<Rightarrow> rewrap_context \<Rightarrow> string list \<Rightarrow> kv_executor \<Rightarrow> kv_executor res" where
  "kv_add_recipients E F ctx recipients s =
     (let sid = kvh_sid (dr_head (kx_doc s)) in
      res_bind (session_unwrap_master_key E (kx_session s)) (\<lambda>master_key.
      res_bind (add_kv_recipients E (rf_add F) sid recipients master_key (rc_target_members ctx) (kx_wrap s)) (\<lambda>w.
      update_timestamp E (s\<lparr>kx_doc := wrap_mut (\<lambda>_. w) (kx_doc s)\<rparr>))))"

definition kv_rewrite_recipient_wraps ::
  "op_env \<Rightarrow> rewrap_fresh \<Rightarrow> rewrap_context \<Rightarrow> string list \<Rightarrow> kv_executor \<Rightarrow> kv_executor res" where
  "kv_rewrite_recipient_wraps E F ctx recipients s =
     (let sid = kvh_sid (dr_head (kx_doc s)) in
      res_bind (session_unwrap_master_key E (kx_session s)) (\<lambda>master_key.
      res_bind (rewrite_kv_recipient_wraps E (rf_stale F) sid recipients master_key (rc_target_members ctx) (kx_wrap s)) (\<lambda>w.
      update_timestamp E (s\<lparr>kx_doc := wrap_mut (\<lambda>_. w) (kx_doc s)\<rparr>))))"

definition kv_remove_recipients ::
  "op_env \<Rightarrow> (member_handle list \<Rightarrow> public_key list res) \<Rightarrow> rewrap_fresh \<Rightarrow> rewrap_context \<Rightarrow> string list \<Rightarrow>
   kv_executor \<Rightarrow> kv_executor res" where
  "kv_remove_recipients E pub_key_source F ctx recipients s =
     (let current_recipients = filter (\<lambda>recipient. recipient \<notin> set recipients) (extract_recipients_from_wrap (kx_wrap s)) in
      res_bind (validate_not_empty_recipients current_recipients) (\<lambda>_.
      res_bind (rewrap_kv_with_recipients E pub_key_source (rf_rotate F) (kx_session s) (Some (rc_target_members ctx))
         \<lparr>rq_new_recipients = current_recipients, rq_removed_recipients = recipients, rq_disclosed = True,
          rq_preserve_removed_history = True\<rparr>) (\<lambda>new_content.
      rebuild_from_content E ctx new_content s)))"

definition kv_rotate_key ::
  "op_env \<Rightarrow> (member_handle list \<Rightarrow> public_key list res) \<Rightarrow> rewrap_fresh \<Rightarrow> rewrap_context \<Rightarrow>
   kv_executor \<Rightarrow> kv_executor res" where
  "kv_rotate_key E pub_key_source F ctx s =
     (if kx_master_key_state s = KvRotated then Inr s
      else res_bind (rewrap_kv_with_recipients E pub_key_source (rf_rotate F) (kx_session s) (Some (rc_target_members ctx))
         \<lparr>rq_new_recipients = extract_recipients_from_wrap (kx_wrap s), rq_removed_recipients = [],
          rq_disclosed = session_disclosed (kx_session s), rq_preserve_removed_history = False\<rparr>) (\<lambda>new_content.
      rebuild_from_content E ctx new_content s))"

definition kv_clear_disclosure_history :: "op_env \<Rightarrow> kv_executor \<Rightarrow> kv_executor res" where
  "kv_clear_disclosure_history E s =
     res_bind (clear_disclosed_flags (oe_json E)
        (wrap_mut (\<lambda>w. w\<lparr>kw_removed_recipients := None\<rparr>) (kx_doc s))) (\<lambda>doc.
     Inr (s\<lparr>kx_doc := doc\<rparr>))"

text \<open>What \<open>finalize\<close> signs, and with which master key.\<close>

definition kv_final_draft :: "op_env \<Rightarrow> kv_executor \<Rightarrow> (kv_draft \<times> u8 list) res" where
  "kv_final_draft E s =
     res_bind (update_timestamp E s) (\<lambda>s.
     res_bind (session_unwrap_master_key E (kx_session s)) (\<lambda>master_key.
     Inr (kx_doc s, master_key)))"

definition kv_executor_ops ::
  "op_env \<Rightarrow> (member_handle list \<Rightarrow> public_key list res) \<Rightarrow> rewrap_fresh \<Rightarrow> rewrap_context \<Rightarrow>
   kv_executor rewrap_executor" where
  "kv_executor_ops E pub_key_source F ctx =
     \<lparr>rx_current_recipients = (\<lambda>s. extract_recipients_from_wrap (kx_wrap s)),
      rx_add_recipients = kv_add_recipients E F ctx,
      rx_rewrite_recipient_wraps = kv_rewrite_recipient_wraps E F ctx,
      rx_remove_recipients = kv_remove_recipients E pub_key_source F ctx,
      rx_rotate_key = kv_rotate_key E pub_key_source F ctx,
      rx_clear_disclosure_history = kv_clear_disclosure_history E,
      rx_finalize = (\<lambda>s. res_bind (kv_final_draft E s) (\<lambda>(doc, master_key).
        session_sign E (kx_session s) doc master_key))\<rparr>"

definition rewrap_kv_document ::
  "op_env \<Rightarrow> (member_handle list \<Rightarrow> public_key list res) \<Rightarrow> rewrap_fresh \<Rightarrow> rewrap_options \<Rightarrow> kv_enc_content \<Rightarrow>
   string \<Rightarrow> crypto_context \<Rightarrow> public_key list \<Rightarrow> string res" where
  "rewrap_kv_document E pub_key_source F options content =
     rewrap_document_with_common_skeleton
       (verify_kv_content (oe_json E) (oe_crypto E) (oe_rfc3339 E) (oe_now E) content)
       (\<lambda>verified. kw_wrap (kvd_wrap (vd_document verified)))
       (\<lambda>verified ctx. new_from_verified E verified ctx) (kv_executor_ops E pub_key_source F) options"

section \<open>What a rewrap keeps\<close>

abbreviation "kv_wraps v \<equiv> kw_wrap (kvd_wrap (vd_document v))"
abbreviation "kv_sid v \<equiv> kvh_sid (kvd_head (vd_document v))"

text \<open>The reader unwraps the master key \<open>mk\<close> of the document and decrypts it to the map \<open>M\<close>.\<close>

definition kv_opens_with ::
  "op_env \<Rightarrow> kv_enc_document verified_document \<Rightarrow> string \<Rightarrow> crypto_context \<Rightarrow> u8 list \<Rightarrow>
   (string \<rightharpoonup> u8 list) \<Rightarrow> bool" where
  "kv_opens_with E v handle reader mk M \<longleftrightarrow>
     (\<exists>info kv. unwrap_master_key_for_kv_with_context (oe_json E) (oe_crypto E) (kv_sid v) (kv_wraps v) handle reader =
          Inr (mk, info) \<and>
        decrypt_kv_document_with_context (oe_json E) (oe_crypto E) v handle reader = Inr (kv, info) \<and> map_of kv = M)"

text \<open>
  The entries of the draft of a rewrap: tokens that were read, with their parsed values, or tokens
  that print a value.
\<close>

fun entry_seals :: "op_env \<Rightarrow> key_schedule \<Rightarrow> uuid \<Rightarrow> kv_document_entry \<Rightarrow> u8 list \<Rightarrow> bool" where
  "entry_seals E ks sid (Preserved key token w) bytes \<longleftrightarrow> is_valid_key_name key \<and>
     parse_kv_entry_token (oe_json E) token = Inr w \<and>
     decrypt_entry (oe_json E) (oe_crypto E) w key AEAD_XCHACHA20_POLY1305 ks sid = Inr bytes"
| "entry_seals E ks sid (Encoded key token) bytes \<longleftrightarrow> is_valid_key_name key \<and>
     (\<exists>w. token_encode (oe_json E) (se_kv_entry w) = Inr token \<and>
        decrypt_entry (oe_json E) (oe_crypto E) w key AEAD_XCHACHA20_POLY1305 ks sid = Inr bytes)"

definition draft_seals :: "op_env \<Rightarrow> key_schedule \<Rightarrow> uuid \<Rightarrow> kv_document_entry list \<Rightarrow> (string \<rightharpoonup> u8 list) \<Rightarrow> bool" where
  "draft_seals E ks sid es M \<longleftrightarrow> distinct (map de_key es) \<and> dom M = de_key ` set es \<and>
     (\<forall>e\<in>set es. \<exists>b. M (de_key e) = Some b \<and> entry_seals E ks sid e b)"

lemma draft_seals_opens:
  assumes "draft_seals E ks sid (dr_entries d) M" and "written_carried E cc d mk text"
  shows "draft_opens E ks sid d M"
proof -
  have "token_opens E ks sid (de_key e) (de_token e) b" if "e \<in> set (dr_entries d)" "entry_seals E ks sid e b" for e b
    using that token_of_entry_parses [OF assms(2) that(1)] by (cases e rule: kv_document_entry.exhaust) (auto simp: token_opens_def)
  then show ?thesis using assms(1) by (fastforce simp: draft_seals_def draft_opens_def draft_inv_def)
qed

lemma cleared_entry_seals:
  assumes "clear_disclosed_entry (oe_json E) e = Inr e'" and "entry_seals E ks sid e b"
  shows "entry_seals E ks sid e' b \<and> de_key e' = de_key e"
proof (cases e)
  case (Preserved k t w)
  have "decrypt_entry (oe_json E) (oe_crypto E) (w\<lparr>ev_disclosed := False\<rparr>) k a ks sid =
      decrypt_entry (oe_json E) (oe_crypto E) w k a ks sid" for a
    by (simp add: decrypt_entry_def)
  then have "\<exists>w'. token_encode (oe_json E) (se_kv_entry w') = Inr t' \<and>
      decrypt_entry (oe_json E) (oe_crypto E) w' k AEAD_XCHACHA20_POLY1305 ks sid = Inr b"
    if "token_encode (oe_json E) (se_kv_entry (w\<lparr>ev_disclosed := False\<rparr>)) = Inr t'" for t'
    using that Preserved assms(2) by (intro exI [of _ "w\<lparr>ev_disclosed := False\<rparr>"]) simp
  then show ?thesis
    using Preserved assms by (auto simp: clear_disclosed_entry_def split: if_splits)
qed (use assms in \<open>auto simp: clear_disclosed_entry_def\<close>)

lemma cleared_draft_seals:
  assumes "clear_disclosed_flags (oe_json E) d = Inr d'" and seals: "draft_seals E ks sid (dr_entries d) M"
  shows "draft_seals E ks sid (dr_entries d') M \<and> dr_head d' = dr_head d \<and> dr_wrap d' = dr_wrap d"
proof -
  from assms(1) obtain es where all: "list_all2 (\<lambda>e e'. clear_disclosed_entry (oe_json E) e = Inr e') (dr_entries d) es"
    and d': "d' = d\<lparr>dr_entries := es\<rparr>" by (auto simp: clear_disclosed_flags_def collect_res_Inr)
  have nth: "\<exists>b. M (de_key (es ! i)) = Some b \<and> entry_seals E ks sid (es ! i) b \<and> de_key (es ! i) = de_key (dr_entries d ! i)"
    if "i < length es" for i
  proof -
    have "clear_disclosed_entry (oe_json E) (dr_entries d ! i) = Inr (es ! i)" "dr_entries d ! i \<in> set (dr_entries d)"
      using all that by (auto simp: list_all2_conv_all_nth)
    then show ?thesis using seals cleared_entry_seals unfolding draft_seals_def by metis
  qed
  then have keys: "map de_key es = map de_key (dr_entries d)"
    using list_all2_lengthD [OF all] nth by (auto simp: list_eq_iff_nth_eq [of "map de_key es"])
  then have "de_key ` set es = de_key ` set (dr_entries d)" by (metis list.set_map)
  moreover have "\<forall>e\<in>set es. \<exists>b. M (de_key e) = Some b \<and> entry_seals E ks sid e b" using nth by (metis in_set_conv_nth)
  ultimately show ?thesis using seals keys by (simp add: draft_seals_def d')
qed

text \<open>The draft of a document whose entries open.\<close>

lemma parsed_lines: "parse_kv_document J body = Inr d \<Longrightarrow> parse_all body = Inr (kvd_lines d)"
  by (auto simp: parse_kv_document_def)

lemma verified_wraps_valid:
  assumes "verify_kv_content J C T now content = Inr v"
  shows "validate_wrap_items (kv_wraps v) = Inr ()"
    and "\<exists>token. find_map wrap_token_of (kvd_lines (vd_document v)) = Some token \<and> token_ok token \<and>
      parse_kv_wrap_token J token = Inr (kvd_wrap (vd_document v))"
proof -
  from assms obtain body where doc: "parse_kv_document J body = Inr (vd_document v)"
    by (cases content) (auto simp: verify_kv_content_def verify_kv_document_def
        verify_signature_with_loaded_key_def verify_loaded_kv_signature_def)
  from parse_kv_document_wrap [OF this] obtain token where
    token: "find_map wrap_token_of (kvd_lines (vd_document v)) = Some token"
      "parse_kv_wrap_token J token = Inr (kvd_wrap (vd_document v))" by blast
  show "validate_wrap_items (kv_wraps v) = Inr ()"
    using token(2) by (auto simp: parse_kv_wrap_token_def)
  have "Wrap token \<in> set ls" if "find_map wrap_token_of ls = Some token" for ls
    using that by (induction ls) (auto simp: wrap_token_of_def split: kv_enc_line.splits)
  then have "Wrap token \<in> set (kvd_lines (vd_document v))" using token(1) .
  moreover have "parse_all body = Inr (kvd_lines (vd_document v))" by (rule parsed_lines [OF doc])
  ultimately show "\<exists>token. find_map wrap_token_of (kvd_lines (vd_document v)) = Some token \<and> token_ok token \<and>
      parse_kv_wrap_token J token = Inr (kvd_wrap (vd_document v))"
    using token parsed_wrap_token_ok by blast
qed

lemma rebuilt_draft:
  assumes v: "verify_kv_content (oe_json E) (oe_crypto E) (oe_rfc3339 E) (oe_now E) content = Inr v"
    and session: "session_document session = vd_document v" and draft: "build_unsigned (oe_json E) session head = Inr d"
    and opens: "\<forall>e\<in>set (kvd_entries (vd_document v)). \<exists>b. M (ke_key e) = Some b \<and>
      decrypt_entry (oe_json E) (oe_crypto E) (ke_value e) (ke_key e) AEAD_XCHACHA20_POLY1305 ks (kv_sid v) = Inr b"
      "dom M = ke_key ` set (kvd_entries (vd_document v))"
  shows "draft_seals E ks (kv_sid v) (dr_entries d) M" and "dr_head d = head"
    and "ws_data (dr_wrap d) = kvd_wrap (vd_document v)"
    and "ws_token (dr_wrap d) = Some t \<Longrightarrow> token_ok t \<and> parse_kv_wrap_token (oe_json E) t = Inr (kvd_wrap (vd_document v))"
proof -
  from verified_wraps_valid(2) [OF v] draft obtain token where token: "token_ok token"
      "parse_kv_wrap_token (oe_json E) token = Inr (kvd_wrap (vd_document v))"
    and d: "d = \<lparr>dr_head = head, dr_wrap = ws_raw (kvd_wrap (vd_document v)) token,
      dr_entries = map (\<lambda>e. Preserved (ke_key e) (ke_token e) (ke_value e)) (kvd_entries (vd_document v))\<rparr>"
    by (auto simp: build_unsigned_def builder_from_document_def session wrap_source_from_lines_def resolve_wrap_source_def)
  show "dr_head d = head" "ws_data (dr_wrap d) = kvd_wrap (vd_document v)"
    "ws_token (dr_wrap d) = Some t \<Longrightarrow> token_ok t \<and> parse_kv_wrap_token (oe_json E) t = Inr (kvd_wrap (vd_document v))"
    using token by (auto simp: d ws_raw_def)
  have keys: "map de_key (dr_entries d) = map ke_key (kvd_entries (vd_document v))" by (simp add: d)
  then have "de_key ` set (dr_entries d) = ke_key ` set (kvd_entries (vd_document v))" by (metis list.set_map)
  then have "dom M = de_key ` set (dr_entries d)" using opens(2) by (simp only:)
  moreover have "distinct (map de_key (dr_entries d))" using verified_entries(1) [OF v] by (simp only: keys)
  moreover have "\<exists>b. M (de_key e) = Some b \<and> entry_seals E ks (kv_sid v) e b" if "e \<in> set (dr_entries d)" for e
    using that opens(1) verified_entries(2) [OF v] by (auto simp: d)
  ultimately show "draft_seals E ks (kv_sid v) (dr_entries d) M" by (simp add: draft_seals_def)
qed

text \<open>A handle without a wrap unwraps nothing.\<close>

lemma unwrap_needs_wrap:
  assumes "unwrap_master_key_for_kv_with_context J C sid ws h reader = Inr (mk, info)"
  shows "h \<in> wi_recipient_handle ` set ws" and "length mk = 32" and "validate_wrap_items ws = Inr ()"
proof -
  from assms obtain rs k r where rs: "WrapSet_parse ws = Inr rs" and handle: "MemberHandle_new h = Inr (MemberHandle h)"
    and r: "find_by_kid_for_member rs k (MemberHandle h) = Inr r"
    by (auto simp: unwrap_master_key_for_kv_with_context_def MemberHandle_new_def)
  then have "r \<in> set rs" "rw_recipient_handle r = MemberHandle h"
    by (auto simp: find_by_kid_for_member_def dest: find_member split: option.splits)
  moreover have "list_all2 (\<lambda>w r. RecipientWrap_parse w = Inr r) ws rs"
    using rs by (auto simp: WrapSet_parse_def collect_res_Inr)
  ultimately obtain i where "i < length ws" "RecipientWrap_parse (ws ! i) = Inr r"
    by (auto simp: list_all2_conv_all_nth in_set_conv_nth)
  then obtain w where "w \<in> set ws" "RecipientWrap_parse w = Inr r" using nth_mem by blast
  then show "h \<in> wi_recipient_handle ` set ws"
    using \<open>rw_recipient_handle r = MemberHandle h\<close> RecipientWrap_parse_labels [of w r] by auto
  show "length mk = 32" using assms by (rule unwrapped_key_length)
  show "validate_wrap_items ws = Inr ()" using rs by (auto simp: WrapSet_parse_def)
qed

lemma kept_kv_wrap_unwraps:
  assumes "w \<in> set ws" and "w \<in> set ws'" and "validate_wrap_items ws = Inr ()" and "validate_wrap_items ws' = Inr ()"
  shows "unwrap_master_key_for_kv_with_context J C sid ws' (wi_recipient_handle w) reader =
    unwrap_master_key_for_kv_with_context J C sid ws (wi_recipient_handle w) reader"
  using kept_wrap_selection [OF assms, of reader] by (cases "validate_member_handle (wi_recipient_handle w)")
    (auto simp: unwrap_master_key_for_kv_with_context_def MemberHandle_new_def)

lemma made_kv_wrap_unwraps:
  assumes "validate_wrap_items ws = Inr ()" and "length mk = 32"
    and "recipients_ok C targets" and "m \<in> set targets" and "holds_key C reader m"
    and "handle_of m \<in> kv_wrap.made_for J C targets sid mk ws"
  shows "unwrap_master_key_for_kv_with_context J C sid ws (handle_of m) reader =
    Inr (mk, resolution_info (active_decryption_key reader (cc_kid reader)))"
proof -
  from assms(5) obtain sk where sk: "decode_kem_secret_key (cc_private_key reader) = Inr sk" "kem_pair C m sk"
    by (auto simp: holds_key_def)
  have handle: "validate_member_handle (handle_of m) = Inr ()" and dist: "distinct (map handle_of targets)"
    using assms(3,4) by (auto simp: recipients_ok_def labels_valid_def)
  from kv_wrap.made_wrap_opens [OF assms(1,4) dist assms(6) sk(2) assms(2)] show ?thesis
    using sk(1) assms(5) handle
    by (auto simp: unwrap_master_key_for_kv_with_context_def MemberHandle_new_def select_active
        active_decryption_key_def holds_key_def)
qed

section \<open>The invariant of the executor\<close>

definition rewrap_session :: "rewrap_context \<Rightarrow> kv_enc_document verified_document \<Rightarrow> rewrite_session" where
  "rewrap_session ctx v = \<lparr>rs_verified = v, rs_member_handle = rc_member_handle ctx, rs_key_ctx = rc_key_ctx ctx\<rparr>"

text \<open>The requests a rewrap makes: recipients that leave are not among the members it encrypts for.\<close>

definition request_ok ::
  "rewrap_context \<Rightarrow> kv_enc_document verified_document \<Rightarrow> kv_recipient_rewrite_request \<Rightarrow> public_key list \<Rightarrow> bool" where
  "request_ok ctx v request members \<longleftrightarrow>
     members \<noteq> [] \<and> set members \<subseteq> set (rc_target_members ctx) \<and> distinct (map handle_of members) \<and>
     set (rq_removed_recipients request) \<subseteq>
       (wi_recipient_handle ` set (kv_wraps v) \<union> handle_of ` set (rc_target_members ctx)) - handle_of ` set members \<and>
     (rq_disclosed request \<longrightarrow> rq_removed_recipients request \<noteq> [] \<or> session_disclosed (rewrap_session ctx v))"

text \<open>
  What a rewrap of the verified document \<open>v\<close> starts from: the editor unwraps \<open>mk\<close> and reads \<open>M\<close>,
  holds the key the targets publish for it, and the text of a re-encryption for targets is one the
  JSON libraries carry.
\<close>

definition kv_rewrap_setting ::
  "op_env \<Rightarrow> rewrap_fresh \<Rightarrow> rewrap_context \<Rightarrow> kv_enc_document verified_document \<Rightarrow> u8 list \<Rightarrow>
   (string \<rightharpoonup> u8 list) \<Rightarrow> bool" where
  "kv_rewrap_setting E F ctx v mk M \<longleftrightarrow>
     rewrap_setting E F ctx \<and> signer_consistent E (rc_key_ctx ctx) \<and>
     (\<exists>content. verify_kv_content (oe_json E) (oe_crypto E) (oe_rfc3339 E) (oe_now E) content = Inr v) \<and>
     kvh_aead (kvd_head (vd_document v)) = AEAD_XCHACHA20_POLY1305 \<and>
     kv_opens_with E v (rc_member_handle ctx) (rc_key_ctx ctx) mk M \<and>
     (\<forall>b\<in>ran M. length b \<le> MAX_PLAINTEXT_INPUT_SIZE) \<and>
     (\<forall>m\<in>set (rc_target_members ctx). handle_of m = rc_member_handle ctx \<longrightarrow>
        holds_key (oe_crypto E) (rc_key_ctx ctx) m) \<and>
     (\<forall>request members vals d k sc text. decrypt_all_values E (rewrap_session ctx v) = Inr vals \<and>
        request_ok ctx v request members \<and>
        build_encrypted_kv E (rf_rotate F) vals members (rq_disclosed request)
          (preserved_history E (rewrap_session ctx v) request) = Inr (d, k) \<and>
        env_signing_context E (rc_key_ctx ctx) = Inr sc \<and>
        sign_unsigned_kv_document (oe_json E) (oe_crypto E) d k sc = Inr text \<longrightarrow>
        written_carried E (rc_key_ctx ctx) d k text)"

lemma opened_entries:
  assumes "verify_kv_content (oe_json E) (oe_crypto E) (oe_rfc3339 E) (oe_now E) content = Inr v"
    and "kvh_aead (kvd_head (vd_document v)) = AEAD_XCHACHA20_POLY1305"
    and "kv_opens_with E v (rc_member_handle ctx) (rc_key_ctx ctx) mk M"
  shows "session_unwrap_master_key E (rewrap_session ctx v) = Inr mk"
    and "\<exists>ks. kv_schedule_extract (oe_json E) (oe_crypto E) mk (kv_sid v) = Inr ks \<and>
      (\<forall>e\<in>set (kvd_entries (vd_document v)). \<exists>b. M (ke_key e) = Some b \<and>
         decrypt_entry (oe_json E) (oe_crypto E) (ke_value e) (ke_key e) AEAD_XCHACHA20_POLY1305 ks (kv_sid v) = Inr b) \<and>
      dom M = ke_key ` set (kvd_entries (vd_document v))"
proof -
  let ?ctx = "\<lparr>kwc_member_handle = rc_member_handle ctx, kwc_key_ctx = rc_key_ctx ctx\<rparr>"
  from assms(3) obtain info kv where unwrap: "unwrap_master_key_for_kv_with_context (oe_json E) (oe_crypto E) (kv_sid v)
      (kv_wraps v) (rc_member_handle ctx) (rc_key_ctx ctx) = Inr (mk, info)"
    and kv: "decrypt_kv_document_with_context (oe_json E) (oe_crypto E) v (rc_member_handle ctx) (rc_key_ctx ctx) = Inr (kv, info)"
      "map_of kv = M" by (auto simp: kv_opens_with_def)
  then have reads: "editor_reads E ?ctx content v kv" using assms(1,2) by (simp add: editor_reads_def)
  have session: "session_of ?ctx v = rewrap_session ctx v" by (simp add: session_of_def rewrap_session_def)
  from editor_session(2) [OF reads] kv(2) obtain mk' ks where mk': "session_unwrap_master_key E (rewrap_session ctx v) = Inr mk'"
    and ks: "kv_schedule_extract (oe_json E) (oe_crypto E) mk' (kv_sid v) = Inr ks"
    and each: "\<forall>e\<in>set (kvd_entries (vd_document v)). \<exists>b. M (ke_key e) = Some b \<and>
         decrypt_entry (oe_json E) (oe_crypto E) (ke_value e) (ke_key e) AEAD_XCHACHA20_POLY1305 ks (kv_sid v) = Inr b"
      "dom M = ke_key ` set (kvd_entries (vd_document v))" unfolding session by blast
  have "mk' = mk"
    using mk' unwrap by (auto simp: session_unwrap_master_key_def rewrap_session_def unwrap_master_key_from_verified_def
        verify_kv_key_possession_def Let_def)
  with mk' ks each show "session_unwrap_master_key E (rewrap_session ctx v) = Inr mk"
    "\<exists>ks. kv_schedule_extract (oe_json E) (oe_crypto E) mk (kv_sid v) = Inr ks \<and>
      (\<forall>e\<in>set (kvd_entries (vd_document v)). \<exists>b. M (ke_key e) = Some b \<and>
         decrypt_entry (oe_json E) (oe_crypto E) (ke_value e) (ke_key e) AEAD_XCHACHA20_POLY1305 ks (kv_sid v) = Inr b) \<and>
      dom M = ke_key ` set (kvd_entries (vd_document v))" by blast+
qed

lemma preserved_history_wraps: "preserved_history E s rq w = Inr w' \<Longrightarrow> kw_wrap w' = kw_wrap w"
  by (auto simp: preserved_history_def merge_removed_history_from_old_def split: if_splits)

lemma reencrypted:
  assumes setting: "kv_rewrap_setting E F ctx v mk M"
    and new: "rewrap_kv_with_recipients E S (rf_rotate F) (rewrap_session ctx v) (Some (rc_target_members ctx)) rq = Inr text"
    and request: "distinct (rq_new_recipients rq)" "rq_new_recipients rq \<noteq> []" "set (rq_removed_recipients rq) \<subseteq>
       (wi_recipient_handle ` set (kv_wraps v) \<union> handle_of ` set (rc_target_members ctx)) - set (rq_new_recipients rq)"
     "rq_disclosed rq \<longrightarrow> rq_removed_recipients rq \<noteq> [] \<or> session_disclosed (rewrap_session ctx v)"
  shows "\<exists>v' ks. verify_kv_content (oe_json E) (oe_crypto E) (oe_rfc3339 E) (oe_now E) (KvEncContent text) = Inr v' \<and>
    kvh_aead (kvd_head (vd_document v')) = AEAD_XCHACHA20_POLY1305 \<and>
    wi_recipient_handle ` set (kv_wraps v') = set (rq_new_recipients rq) \<and>
    kv_wrap.mixed (oe_json E) (oe_crypto E) (rc_target_members ctx) {} (kv_sid v') (fv_master_key (rf_rotate F)) (kv_wraps v') \<and>
    kv_schedule_extract (oe_json E) (oe_crypto E) (fv_master_key (rf_rotate F)) (kv_sid v') = Inr ks \<and>
    (\<forall>e\<in>set (kvd_entries (vd_document v')). \<exists>b. M (ke_key e) = Some b \<and>
       decrypt_entry (oe_json E) (oe_crypto E) (ke_value e) (ke_key e) AEAD_XCHACHA20_POLY1305 ks (kv_sid v') = Inr b) \<and>
    dom M = ke_key ` set (kvd_entries (vd_document v'))"
proof -
  let ?J = "oe_json E" and ?C = "oe_crypto E" and ?F = "rf_rotate F" and ?targets = "rc_target_members ctx"
  note set = setting [unfolded kv_rewrap_setting_def rewrap_setting_def recipients_ok_def]
  from new obtain ms vals sc d k where ms: "resolve_snapshot_verified_recipients ?targets (rq_new_recipients rq) = Inr ms"
    and vals: "decrypt_all_values E (rewrap_session ctx v) = Inr vals"
    and sc: "env_signing_context E (rc_key_ctx ctx) = Inr sc"
    and built: "build_encrypted_kv E ?F vals ms (rq_disclosed rq) (preserved_history E (rewrap_session ctx v) rq) = Inr (d, k)"
    and sign: "sign_unsigned_kv_document ?J ?C d k sc = Inr text"
    by (auto simp: rewrap_kv_with_recipients_def resolve_verified_recipients_def encrypt_kv_map_with_key_context_def
        encrypt_kv_map_with_wrap_mutation_def rewrap_session_def)
  note handles = resolve_snapshot_Inr [OF ms]
  have dms: "distinct (map handle_of ms)" using request(1) handles(1) by simp
  have "handle_of ` set ms = set (rq_new_recipients rq)" using handles(1) by (metis list.set_map)
  then have "request_ok ctx v rq ms" using request handles dms unfolding request_ok_def by auto
  then have carried: "written_carried E (rc_key_ctx ctx) d k text" using set vals built sc sign by blast
  from setting obtain content where content: "verify_kv_content ?J ?C (oe_rfc3339 E) (oe_now E) content = Inr v"
    and aead: "kvh_aead (kvd_head (vd_document v)) = AEAD_XCHACHA20_POLY1305"
    and opens: "kv_opens_with E v (rc_member_handle ctx) (rc_key_ctx ctx) mk M" by (auto simp: kv_rewrap_setting_def)
  from opens vals obtain kv info where kv: "decrypt_kv_document_with_context ?J ?C v (rc_member_handle ctx) (rc_key_ctx ctx) = Inr (kv, info)"
    "map_of kv = M" and decode: "decode_decrypted_kv_values kv = Inr vals"
    by (auto simp: kv_opens_with_def decrypt_all_values_def rewrap_session_def)
  have "distinct (map fst kv)"
    using kv(1) verified_entries(1) [OF content]
    by (auto simp: decrypt_kv_document_with_context_def Let_def decrypt_kv_entries_iff map_fst_zip_take intro: distinct_take)
  note decoded = decoded_values [OF decode this, unfolded kv(2)]
  have entries: "entries_ok vals"
  proof -
    have "is_valid_key_name x \<and> length y \<le> MAX_PLAINTEXT_INPUT_SIZE" if mem: "(x, y) \<in> set vals" for x y
    proof -
      have "assigned vals x = Some (as_bytes y)"
        using mem decoded(1) map_of_is_SomeI [of "rev vals" x y] by (simp add: assigned_def flip: rev_map)
      then have M: "M x = Some (as_bytes y)" by (simp only: decoded(2))
      then have "length (as_bytes y) \<le> MAX_PLAINTEXT_INPUT_SIZE" using set by (blast intro: ranI)
      moreover have "x \<in> ke_key ` set (kvd_entries (vd_document v))"
        using M opened_entries(2) [OF content aead opens] by (elim exE conjE) blast
      then have "is_valid_key_name x" using verified_entries(2) [OF content] by blast
      ultimately show ?thesis by simp
    qed
    then show ?thesis by (auto simp: entries_ok_def)
  qed
  have crypto: "aead_ok ?C" "fresh_ok ?F" "hmac_ok ?C" "signer_consistent E (rc_key_ctx ctx)" using set by blast+
  from encrypted_draft_opens [OF built crypto(1,2) entries decoded(1) carried] obtain ks ws where
    k: "k = fv_master_key ?F" "ws_token (dr_wrap d) = None" "kvh_sid (dr_head d) = fv_sid ?F"
      "kvh_aead (dr_head d) = AEAD_XCHACHA20_POLY1305"
    and ws: "build_wraps_for_recipients ?J ?C (fv_seal ?F) ms (fv_sid ?F) k KvWrap = Inr ws"
    and mut: "preserved_history E (rewrap_session ctx v) rq \<lparr>kw_wrap = ws, kw_removed_recipients = None\<rparr> = Inr (ws_data (dr_wrap d))"
    and ks: "kv_schedule_extract ?J ?C k (fv_sid ?F) = Inr ks"
    and draft: "draft_opens E ks (fv_sid ?F) d (assigned vals)" by blast
  have wrap: "kw_wrap (ws_data (dr_wrap d)) = ws" using preserved_history_wraps [OF mut] by simp
  have all: "kv_wrap.wraps_all ?J ?C (fv_seal ?F) ms (fv_sid ?F) k = Inr ws" and count: "length ms \<le> MAX_WRAP_ITEMS"
    using ws by (simp_all add: build_wraps_eq)
  have ok: "\<forall>m\<in>set ?targets. labels_valid m \<and> (\<exists>sk. kem_pair ?C m sk)" using set by blast
  have len: "length k = 32" using crypto(2) by (simp add: fresh_ok_def k)
  note made = kv_wrap.rotated_wraps [OF all handles(2) dms count ok len]
  have valid: "validate_wrap_items (kw_wrap (ws_data (dr_wrap d))) = Inr ()" using made(1) by (simp add: wrap kv_wrap.mixed_def)
  have "kv_schedule_extract ?J ?C k (kvh_sid (dr_head d)) = Inr ks" "draft_opens E ks (kvh_sid (dr_head d)) d M"
    using ks draft k decoded(2) by simp_all
  from signed_kv_opens [OF sign sc crypto(4,3) carried _ valid this k(4)] k(2)
  obtain v' where v': "verify_kv_content ?J ?C (oe_rfc3339 E) (oe_now E) (KvEncContent text) = Inr v'"
    "kvd_head (vd_document v') = dr_head d" "kvd_wrap (vd_document v') = ws_data (dr_wrap d)"
    "map ke_key (kvd_entries (vd_document v')) = map de_key (dr_entries d)"
    "list_all2 (\<lambda>e w. parse_kv_entry_token ?J (de_token e) = Inr w) (dr_entries d) (map ke_value (kvd_entries (vd_document v')))"
    by auto
  let ?es = "kvd_entries (vd_document v')"
  have each: "\<exists>b. M (ke_key e) = Some b \<and>
      decrypt_entry ?J ?C (ke_value e) (ke_key e) AEAD_XCHACHA20_POLY1305 ks (kv_sid v') = Inr b" if mem: "e \<in> set ?es" for e
  proof -
    obtain i where i: "i < length ?es" "e = ?es ! i" using mem by (auto simp: in_set_conv_nth)
    have "length ?es = length (dr_entries d)" using v'(4) by (metis length_map)
    moreover have "ke_key (?es ! i) = de_key (dr_entries d ! i)" using v'(4) i(1) calculation by (metis nth_map)
    moreover have "parse_kv_entry_token ?J (de_token (dr_entries d ! i)) = Inr (ke_value (?es ! i))"
      using v'(5) i(1) calculation(1) by (auto simp: list_all2_conv_all_nth)
    moreover have "dr_entries d ! i \<in> set (dr_entries d)" using i(1) calculation(1) by simp
    ultimately show ?thesis
      using draft i(2) by (fastforce simp: draft_opens_def token_opens_def decoded(2) v'(2) k(3))
  qed
  have "dom M = de_key ` set (dr_entries d)" using draft by (simp add: draft_opens_def decoded(2))
  then have dom: "dom M = ke_key ` set ?es" using v'(4) by (metis list.set_map)
  have "wi_recipient_handle ` set ws = set (rq_new_recipients rq)" using made(2) handles(1) by (metis list.set_map)
  then show ?thesis
    using v'(1-3) k made(1) ks each dom by (intro exI [of _ v'] exI [of _ ks]) (simp add: wrap)
qed

abbreviation "kx_rotated s \<equiv> kx_master_key_state s = KvRotated"
abbreviation "kx_sid s \<equiv> kvh_sid (dr_head (kx_doc s))"

definition kx_key :: "rewrap_fresh \<Rightarrow> u8 list \<Rightarrow> kv_executor \<Rightarrow> u8 list" where
  "kx_key F mk s = (if kx_rotated s then fv_master_key (rf_rotate F) else mk)"

definition kx_kept :: "kv_enc_document verified_document \<Rightarrow> kv_executor \<Rightarrow> wrap_item set" where
  "kx_kept v s = (if kx_rotated s then {} else set (kv_wraps v))"

definition kx_doc_ok ::
  "op_env \<Rightarrow> rewrap_fresh \<Rightarrow> rewrap_context \<Rightarrow> kv_enc_document verified_document \<Rightarrow> u8 list \<Rightarrow>
   (string \<rightharpoonup> u8 list) \<Rightarrow> kv_executor \<Rightarrow> bool" where
  "kx_doc_ok E F ctx v mk M s \<longleftrightarrow>
     kvh_aead (dr_head (kx_doc s)) = AEAD_XCHACHA20_POLY1305 \<and> kw_wrap (kx_wrap s) \<noteq> [] \<and>
     (\<exists>ks. kv_schedule_extract (oe_json E) (oe_crypto E) (kx_key F mk s) (kx_sid s) = Inr ks \<and>
        draft_seals E ks (kx_sid s) (dr_entries (kx_doc s)) M) \<and>
     (\<forall>t. ws_token (dr_wrap (kx_doc s)) = Some t \<longrightarrow> token_ok t \<and> parse_kv_wrap_token (oe_json E) t = Inr (kx_wrap s)) \<and>
     kv_wrap.mixed (oe_json E) (oe_crypto E) (rc_target_members ctx) (kx_kept v s) (kx_sid s) (kx_key F mk s) (kw_wrap (kx_wrap s))"

definition kv_good ::
  "op_env \<Rightarrow> rewrap_fresh \<Rightarrow> rewrap_context \<Rightarrow> kv_enc_document verified_document \<Rightarrow> u8 list \<Rightarrow>
   (string \<rightharpoonup> u8 list) \<Rightarrow> kv_executor \<Rightarrow> bool" where
  "kv_good E F ctx v mk M s \<longleftrightarrow>
     kv_rewrap_setting E F ctx v mk M \<and> rs_key_ctx (kx_session s) = rc_key_ctx ctx \<and>
     (\<not> kx_rotated s \<longrightarrow> kx_session s = rewrap_session ctx v \<and> kx_sid s = kv_sid v) \<and>
     (\<forall>k. session_unwrap_master_key E (kx_session s) = Inr k \<longrightarrow> k = kx_key F mk s) \<and> kx_doc_ok E F ctx v mk M s"

definition kx_refreshed :: "op_env \<Rightarrow> rewrap_fresh \<Rightarrow> rewrap_context \<Rightarrow> u8 list \<Rightarrow> kv_executor \<Rightarrow> string set" where
  "kx_refreshed E F ctx mk s =
     kv_wrap.made_for (oe_json E) (oe_crypto E) (rc_target_members ctx) (kx_sid s) (kx_key F mk s) (kw_wrap (kx_wrap s))"

lemma kv_setting_targets:
  "kv_rewrap_setting E F ctx v mk M \<Longrightarrow> recipients_ok (oe_crypto E) (rc_target_members ctx)"
  "kv_rewrap_setting E F ctx v mk M \<Longrightarrow>
   \<forall>m\<in>set (rc_target_members ctx). labels_valid m \<and> (\<exists>sk. kem_pair (oe_crypto E) m sk)"
  by (simp_all add: kv_rewrap_setting_def rewrap_setting_def recipients_ok_def)

lemma kv_good_key: "kv_good E F ctx v mk M s \<Longrightarrow> length (kx_key F mk s) = 32"
  by (auto simp: kv_good_def kx_key_def kv_rewrap_setting_def kv_opens_with_def rewrap_setting_def fresh_ok_def
      dest: unwrap_needs_wrap(2))

lemma kv_good_new:
  assumes "kv_rewrap_setting E F ctx v mk M" and "new_from_verified E v ctx = Inr s"
  shows "kv_good E F ctx v mk M s \<and> \<not> kx_rotated s \<and> kw_wrap (kx_wrap s) = kv_wraps v"
proof -
  note set = assms(1) [unfolded kv_rewrap_setting_def]
  from set obtain content where content: "verify_kv_content (oe_json E) (oe_crypto E) (oe_rfc3339 E) (oe_now E) content = Inr v"
    by blast
  have aead: "kvh_aead (kvd_head (vd_document v)) = AEAD_XCHACHA20_POLY1305"
    and opens: "kv_opens_with E v (rc_member_handle ctx) (rc_key_ctx ctx) mk M" using set by blast+
  note entries = opened_entries [OF content aead opens]
  from entries(2) obtain ks where ks: "kv_schedule_extract (oe_json E) (oe_crypto E) mk (kv_sid v) = Inr ks"
    and each: "\<forall>e\<in>set (kvd_entries (vd_document v)). \<exists>b. M (ke_key e) = Some b \<and>
       decrypt_entry (oe_json E) (oe_crypto E) (ke_value e) (ke_key e) AEAD_XCHACHA20_POLY1305 ks (kv_sid v) = Inr b"
      "dom M = ke_key ` set (kvd_entries (vd_document v))" by blast
  have document: "session_document (rewrap_session ctx v) = vd_document v"
    by (simp add: session_document_def rewrap_session_def)
  from assms(2) obtain d where d: "build_unsigned (oe_json E) (rewrap_session ctx v) (kvd_head (vd_document v)) = Inr d"
    and s: "s = \<lparr>kx_session = rewrap_session ctx v, kx_doc = d, kx_master_key_state = KvOriginal\<rparr>"
    by (auto simp: new_from_verified_def rewrap_session_def session_document_def Let_def)
  note draft = rebuilt_draft [OF content document d each]
  have "kv_wrap.mixed (oe_json E) (oe_crypto E) (rc_target_members ctx) (set (kv_wraps v)) (kv_sid v) mk (kv_wraps v)"
    using verified_wraps_valid(1) [OF content] by (simp add: kv_wrap.mixed_def)
  moreover have "kv_wraps v \<noteq> []" using opens unwrap_needs_wrap(1) by (fastforce simp: kv_opens_with_def)
  ultimately have "kx_doc_ok E F ctx v mk M s"
    unfolding kx_doc_ok_def using draft ks aead
    by (auto simp: s kx_key_def kx_kept_def kx_wrap_def)
  then show ?thesis
    using assms(1) entries(1) draft(2,3) by (simp add: kv_good_def s kx_key_def kx_wrap_def) (simp add: rewrap_session_def)
qed

lemma kv_good_wraps:
  fixes w ts s
  defines "s' \<equiv> s\<lparr>kx_doc := set_updated_at ts (wrap_mut (\<lambda>_. w) (kx_doc s))\<rparr>"
  assumes good: "kv_good E F ctx v mk M s"
    and "kv_wrap.mixed (oe_json E) (oe_crypto E) (rc_target_members ctx) (kx_kept v s) (kx_sid s) (kx_key F mk s) (kw_wrap w)"
    and "kw_wrap w \<noteq> []"
  shows "kv_good E F ctx v mk M s'" and "kx_rotated s' = kx_rotated s" and "kx_wrap s' = w" and "kx_sid s' = kx_sid s"
    and "kx_key F mk s' = kx_key F mk s"
proof -
  show same: "kx_rotated s' = kx_rotated s" "kx_wrap s' = w" "kx_sid s' = kx_sid s" "kx_key F mk s' = kx_key F mk s"
    by (simp_all add: s'_def kx_wrap_def set_updated_at_def wrap_mut_def ws_data_mut_def kx_key_def)
  have more: "kx_session s' = kx_session s" "dr_entries (kx_doc s') = dr_entries (kx_doc s)" "kx_kept v s' = kx_kept v s"
    "kvh_aead (dr_head (kx_doc s')) = kvh_aead (dr_head (kx_doc s))" "ws_token (dr_wrap (kx_doc s')) = None"
    by (simp_all add: s'_def set_updated_at_def wrap_mut_def ws_data_mut_def kx_kept_def)
  show "kv_good E F ctx v mk M s'"
    using good assms(3,4) by (simp add: kv_good_def kx_doc_ok_def same more)
qed

lemma kv_added:
  assumes good: "kv_good E F ctx v mk M s"
    and rs: "set rs \<inter> wi_recipient_handle ` set (kw_wrap (kx_wrap s)) = {}" "distinct rs"
    and step: "kv_add_recipients E F ctx rs s = Inr s'"
  shows "kv_good E F ctx v mk M s' \<and> kx_rotated s' = kx_rotated s \<and>
    kx_refreshed E F ctx mk s \<union> set rs \<subseteq> kx_refreshed E F ctx mk s' \<and>
    wi_recipient_handle ` set (kw_wrap (kx_wrap s')) = wi_recipient_handle ` set (kw_wrap (kx_wrap s)) \<union> set rs"
proof -
  from step obtain k new ts where k: "session_unwrap_master_key E (kx_session s) = Inr k"
    and new: "build_new_wrap_items (extract_recipients_from_wrap (kx_wrap s)) (length (kw_wrap (kx_wrap s))) rs (rc_target_members ctx)
      (\<lambda>i m. build_wrap_item_for_kv (oe_json E) (oe_crypto E) (rf_add F i) m (kx_sid s) k) = Inr new"
    and s': "s' = s\<lparr>kx_doc := set_updated_at ts (wrap_mut (\<lambda>_. (kx_wrap s)\<lparr>kw_wrap := kw_wrap (kx_wrap s) @ new\<rparr>) (kx_doc s))\<rparr>"
    by (auto simp: kv_add_recipients_def add_kv_recipients_def update_timestamp_def Let_def)
  have "k = kx_key F mk s" using good k by (simp add: kv_good_def)
  with new have new: "build_new_wrap_items (map wi_recipient_handle (kw_wrap (kx_wrap s))) (length (kw_wrap (kx_wrap s))) rs
      (rc_target_members ctx) (\<lambda>i m. build_wrap_item_for_kv (oe_json E) (oe_crypto E) (rf_add F i) m (kx_sid s) (kx_key F mk s)) = Inr new"
    by (simp add: extract_recipients_from_wrap_def)
  have mixed: "kv_wrap.mixed (oe_json E) (oe_crypto E) (rc_target_members ctx) (kx_kept v s) (kx_sid s) (kx_key F mk s) (kw_wrap (kx_wrap s))"
    and set: "kv_rewrap_setting E F ctx v mk M" using good by (simp_all add: kv_good_def kx_doc_ok_def)
  note added = kv_wrap.added_wraps [OF new mixed rs(2,1) kv_setting_targets(2) [OF set] kv_good_key [OF good]]
  have "kv_wrap.mixed (oe_json E) (oe_crypto E) (rc_target_members ctx) (kx_kept v s) (kx_sid s) (kx_key F mk s)
      (kw_wrap ((kx_wrap s)\<lparr>kw_wrap := kw_wrap (kx_wrap s) @ new\<rparr>))" using added(1) by simp
  moreover have "kw_wrap (kx_wrap s) \<noteq> []" using good by (simp add: kv_good_def kx_doc_ok_def)
  then have "kw_wrap ((kx_wrap s)\<lparr>kw_wrap := kw_wrap (kx_wrap s) @ new\<rparr>) \<noteq> []" by simp
  ultimately have w: "kv_good E F ctx v mk M s'" "kx_rotated s' = kx_rotated s"
    "kx_wrap s' = (kx_wrap s)\<lparr>kw_wrap := kw_wrap (kx_wrap s) @ new\<rparr>" "kx_sid s' = kx_sid s" "kx_key F mk s' = kx_key F mk s"
    unfolding s' using kv_good_wraps [OF good] by blast+
  show ?thesis using w added(2,3) by (simp add: kx_refreshed_def)
qed

lemma kv_rewritten:
  assumes good: "kv_good E F ctx v mk M s"
    and rs: "set rs \<subseteq> wi_recipient_handle ` set (kw_wrap (kx_wrap s))" "distinct rs"
    and step: "kv_rewrite_recipient_wraps E F ctx rs s = Inr s'"
  shows "kv_good E F ctx v mk M s' \<and> kx_rotated s' = kx_rotated s \<and>
    kx_refreshed E F ctx mk s \<union> set rs \<subseteq> kx_refreshed E F ctx mk s' \<and>
    wi_recipient_handle ` set (kw_wrap (kx_wrap s')) = wi_recipient_handle ` set (kw_wrap (kx_wrap s))"
proof -
  from step obtain k ws ts where k: "session_unwrap_master_key E (kx_session s) = Inr k"
    and new: "replace_recipient_wrap_items (kw_wrap (kx_wrap s)) rs (rc_target_members ctx)
      (\<lambda>i m. build_wrap_item_for_kv (oe_json E) (oe_crypto E) (rf_stale F i) m (kx_sid s) k) = Inr ws"
    and s': "s' = s\<lparr>kx_doc := set_updated_at ts (wrap_mut (\<lambda>_. (kx_wrap s)\<lparr>kw_wrap := ws\<rparr>) (kx_doc s))\<rparr>"
    by (auto simp: kv_rewrite_recipient_wraps_def rewrite_kv_recipient_wraps_def update_timestamp_def Let_def)
  have "k = kx_key F mk s" using good k by (simp add: kv_good_def)
  note new = new [unfolded this]
  have mixed: "kv_wrap.mixed (oe_json E) (oe_crypto E) (rc_target_members ctx) (kx_kept v s) (kx_sid s) (kx_key F mk s) (kw_wrap (kx_wrap s))"
    and set: "kv_rewrap_setting E F ctx v mk M" using good by (simp_all add: kv_good_def kx_doc_ok_def)
  note replaced = kv_wrap.replaced_wraps [OF new mixed rs(2,1) kv_setting_targets(2) [OF set] kv_good_key [OF good]]
  have "kv_wrap.mixed (oe_json E) (oe_crypto E) (rc_target_members ctx) (kx_kept v s) (kx_sid s) (kx_key F mk s)
      (kw_wrap ((kx_wrap s)\<lparr>kw_wrap := ws\<rparr>))" using replaced(1) by simp
  moreover have "kw_wrap (kx_wrap s) \<noteq> []" using good by (simp add: kv_good_def kx_doc_ok_def)
  then have "kw_wrap ((kx_wrap s)\<lparr>kw_wrap := ws\<rparr>) \<noteq> []" using replaced(2) by auto
  ultimately have w: "kv_good E F ctx v mk M s'" "kx_rotated s' = kx_rotated s"
    "kx_wrap s' = (kx_wrap s)\<lparr>kw_wrap := ws\<rparr>" "kx_sid s' = kx_sid s" "kx_key F mk s' = kx_key F mk s"
    unfolding s' using kv_good_wraps [OF good] by blast+
  show ?thesis using w replaced(2,3) by (simp add: kx_refreshed_def)
qed

lemma kv_rebuilt:
  assumes setting: "kv_rewrap_setting E F ctx v mk M"
    and new: "rewrap_kv_with_recipients E S (rf_rotate F) (rewrap_session ctx v) (Some (rc_target_members ctx)) rq = Inr text"
    and request: "distinct (rq_new_recipients rq)" "rq_new_recipients rq \<noteq> []" "set (rq_removed_recipients rq) \<subseteq>
       (wi_recipient_handle ` set (kv_wraps v) \<union> handle_of ` set (rc_target_members ctx)) - set (rq_new_recipients rq)"
     "rq_disclosed rq \<longrightarrow> rq_removed_recipients rq \<noteq> [] \<or> session_disclosed (rewrap_session ctx v)"
    and step: "rebuild_from_content E ctx text s = Inr s'"
  shows "kv_good E F ctx v mk M s' \<and> kx_rotated s' \<and>
    wi_recipient_handle ` set (kw_wrap (kx_wrap s')) = set (rq_new_recipients rq)"
proof -
  let ?J = "oe_json E" and ?C = "oe_crypto E" and ?mk = "fv_master_key (rf_rotate F)" and ?targets = "rc_target_members ctx"
  from reencrypted [OF setting new request] obtain v' ks where
    v': "verify_kv_content ?J ?C (oe_rfc3339 E) (oe_now E) (KvEncContent text) = Inr v'"
      "kvh_aead (kvd_head (vd_document v')) = AEAD_XCHACHA20_POLY1305"
      "wi_recipient_handle ` set (kv_wraps v') = set (rq_new_recipients rq)"
    and mixed: "kv_wrap.mixed ?J ?C ?targets {} (kv_sid v') ?mk (kv_wraps v')"
    and ks: "kv_schedule_extract ?J ?C ?mk (kv_sid v') = Inr ks"
    and each: "\<forall>e\<in>set (kvd_entries (vd_document v')). \<exists>b. M (ke_key e) = Some b \<and>
       decrypt_entry ?J ?C (ke_value e) (ke_key e) AEAD_XCHACHA20_POLY1305 ks (kv_sid v') = Inr b"
      "dom M = ke_key ` set (kvd_entries (vd_document v'))" by blast
  let ?session = "rewrap_session ctx v'"
  have document: "session_document ?session = vd_document v'" by (simp add: session_document_def rewrap_session_def)
  from step v'(1) obtain d where d: "build_unsigned ?J ?session (kvd_head (vd_document v')) = Inr d"
    and s': "s' = s\<lparr>kx_session := ?session, kx_doc := d, kx_master_key_state := KvRotated\<rparr>"
    by (auto simp: rebuild_from_content_def session_load_def rewrap_session_def session_document_def)
  note draft = rebuilt_draft [OF v'(1) document d each]
  have key: "k = ?mk" if k: "session_unwrap_master_key E ?session = Inr k" for k
  proof -
    from k obtain info where unwrap: "unwrap_master_key_for_kv_with_context ?J ?C (kv_sid v') (kv_wraps v')
        (rc_member_handle ctx) (rc_key_ctx ctx) = Inr (k, info)"
      by (auto simp: session_unwrap_master_key_def rewrap_session_def unwrap_master_key_from_verified_def
          verify_kv_key_possession_def Let_def)
    then have made: "rc_member_handle ctx \<in> kv_wrap.made_for ?J ?C ?targets (kv_sid v') ?mk (kv_wraps v')"
      using unwrap_needs_wrap(1) mixed by (fastforce simp: kv_wrap.made_for_def kv_wrap.mixed_def)
    then obtain m where m: "m \<in> set ?targets" "handle_of m = rc_member_handle ctx"
      by (auto simp: kv_wrap.made_for_def kv_wrap.sealed_for_def dest!: kv_wrap.wrap_labels)
    have holds: "holds_key ?C (rc_key_ctx ctx) m" using setting m by (simp add: kv_rewrap_setting_def)
    have len: "length ?mk = 32" using setting by (simp add: kv_rewrap_setting_def rewrap_setting_def fresh_ok_def)
    from made_kv_wrap_unwraps [OF unwrap_needs_wrap(3) [OF unwrap] len kv_setting_targets(1) [OF setting] m(1) holds]
    show ?thesis using made unwrap by (simp add: m(2))
  qed
  have "kv_wraps v' \<noteq> []" using v'(3) request(2) by auto
  then have "kx_doc_ok E F ctx v mk M s'"
    unfolding kx_doc_ok_def using draft ks v'(2) mixed
    by (auto simp: s' kx_key_def kx_kept_def kx_wrap_def)
  then show ?thesis
    using setting key draft(3) v'(3) by (simp add: kv_good_def s' kx_key_def kx_wrap_def) (simp add: rewrap_session_def)
qed

lemma kv_good_original:
  assumes "kv_good E F ctx v mk M s" and "\<not> kx_rotated s"
  shows "kx_session s = rewrap_session ctx v" and "kv_rewrap_setting E F ctx v mk M"
    and "distinct (extract_recipients_from_wrap (kx_wrap s))" "extract_recipients_from_wrap (kx_wrap s) \<noteq> []"
    and "set (extract_recipients_from_wrap (kx_wrap s)) \<subseteq>
      wi_recipient_handle ` set (kv_wraps v) \<union> handle_of ` set (rc_target_members ctx)"
proof -
  show "kx_session s = rewrap_session ctx v" "kv_rewrap_setting E F ctx v mk M"
    "distinct (extract_recipients_from_wrap (kx_wrap s))" "extract_recipients_from_wrap (kx_wrap s) \<noteq> []"
    using assms by (auto simp: kv_good_def kx_doc_ok_def kv_wrap.mixed_def validate_wrap_items_iff extract_recipients_from_wrap_def)
  have "wi_recipient_handle w \<in> handle_of ` set targets" if "kv_wrap.sealed_for (oe_json E) (oe_crypto E) targets sid k w"
    for targets sid k w using that kv_wrap.wrap_labels by (fastforce simp: kv_wrap.sealed_for_def)
  then show "set (extract_recipients_from_wrap (kx_wrap s)) \<subseteq>
      wi_recipient_handle ` set (kv_wraps v) \<union> handle_of ` set (rc_target_members ctx)"
    using assms by (fastforce simp: kv_good_def kx_doc_ok_def kv_wrap.mixed_def extract_recipients_from_wrap_def kx_kept_def)
qed

lemma kv_removed:
  assumes good: "kv_good E F ctx v mk M s" "\<not> kx_rotated s"
    and rs: "rs \<noteq> []" "set rs \<subseteq> wi_recipient_handle ` set (kw_wrap (kx_wrap s))" and step: "kv_remove_recipients E S F ctx rs s = Inr s'"
  shows "kv_good E F ctx v mk M s' \<and> kx_rotated s' \<and>
    wi_recipient_handle ` set (kw_wrap (kx_wrap s')) = wi_recipient_handle ` set (kw_wrap (kx_wrap s)) - set rs"
proof -
  note o = kv_good_original [OF good]
  let ?rest = "filter (\<lambda>recipient. recipient \<notin> set rs) (extract_recipients_from_wrap (kx_wrap s))"
  let ?rq = "\<lparr>rq_new_recipients = ?rest, rq_removed_recipients = rs, rq_disclosed = True, rq_preserve_removed_history = True\<rparr>"
  from step obtain body where rest: "?rest \<noteq> []"
    and new: "rewrap_kv_with_recipients E S (rf_rotate F) (rewrap_session ctx v) (Some (rc_target_members ctx)) ?rq = Inr body"
    and rebuild: "rebuild_from_content E ctx body s = Inr s'"
    by (auto simp: kv_remove_recipients_def o(1) Let_def validate_not_empty_recipients_def split: if_splits)
  have "distinct (rq_new_recipients ?rq)" "rq_new_recipients ?rq \<noteq> []" using o(3) rest by simp_all
  moreover have "set (rq_removed_recipients ?rq) \<subseteq> (wi_recipient_handle ` set (kv_wraps v) \<union> handle_of ` set (rc_target_members ctx)) -
      set (rq_new_recipients ?rq)"
    using subset_trans [OF rs(2) o(5) [unfolded extract_recipients_from_wrap_def set_map]] by auto
  moreover have "rq_disclosed ?rq \<longrightarrow> rq_removed_recipients ?rq \<noteq> [] \<or> session_disclosed (rewrap_session ctx v)"
    using rs(1) by simp
  ultimately have "kv_good E F ctx v mk M s' \<and> kx_rotated s' \<and>
      wi_recipient_handle ` set (kw_wrap (kx_wrap s')) = set (rq_new_recipients ?rq)"
    using kv_rebuilt [OF o(2) new _ _ _ _ rebuild] by blast
  then show ?thesis by (auto simp: extract_recipients_from_wrap_def)
qed

lemma kv_key_rotated:
  assumes good: "kv_good E F ctx v mk M s" and step: "kv_rotate_key E S F ctx s = Inr s'"
  shows "kv_good E F ctx v mk M s' \<and> kx_rotated s' \<and>
    wi_recipient_handle ` set (kw_wrap (kx_wrap s')) = wi_recipient_handle ` set (kw_wrap (kx_wrap s))"
proof (cases "kx_rotated s")
  case True
  then show ?thesis using assms by (simp add: kv_rotate_key_def)
next
  case False
  note o = kv_good_original [OF good False]
  let ?rq = "\<lparr>rq_new_recipients = extract_recipients_from_wrap (kx_wrap s), rq_removed_recipients = [],
    rq_disclosed = session_disclosed (rewrap_session ctx v), rq_preserve_removed_history = False\<rparr>"
  from step False obtain body where
    new: "rewrap_kv_with_recipients E S (rf_rotate F) (rewrap_session ctx v) (Some (rc_target_members ctx)) ?rq = Inr body"
    and rebuild: "rebuild_from_content E ctx body s = Inr s'"
    by (auto simp: kv_rotate_key_def o(1))
  from kv_rebuilt [OF o(2) new _ _ _ _ rebuild] o(3,4) show ?thesis by (simp add: extract_recipients_from_wrap_def)
qed

lemma kv_cleared:
  assumes good: "kv_good E F ctx v mk M s" and step: "kv_clear_disclosure_history E s = Inr s'"
  shows "kv_good E F ctx v mk M s' \<and> kx_rotated s' = kx_rotated s \<and>
    kx_refreshed E F ctx mk s \<subseteq> kx_refreshed E F ctx mk s' \<and>
    wi_recipient_handle ` set (kw_wrap (kx_wrap s')) = wi_recipient_handle ` set (kw_wrap (kx_wrap s))"
proof -
  let ?d = "wrap_mut (\<lambda>w. w\<lparr>kw_removed_recipients := None\<rparr>) (kx_doc s)"
  from step obtain d where d: "clear_disclosed_flags (oe_json E) ?d = Inr d" and s': "s' = s\<lparr>kx_doc := d\<rparr>"
    by (auto simp: kv_clear_disclosure_history_def)
  have before: "dr_entries ?d = dr_entries (kx_doc s)" "dr_head ?d = dr_head (kx_doc s)" "ws_token (dr_wrap ?d) = None"
    "ws_data (dr_wrap ?d) = (kx_wrap s)\<lparr>kw_removed_recipients := None\<rparr>"
    by (simp_all add: wrap_mut_def ws_data_mut_def kx_wrap_def)
  have same: "dr_head d = dr_head (kx_doc s)" "dr_wrap d = dr_wrap ?d"
    using d by (auto simp: clear_disclosed_flags_def before)
  from good obtain ks where ks: "kv_schedule_extract (oe_json E) (oe_crypto E) (kx_key F mk s) (kx_sid s) = Inr ks"
    "draft_seals E ks (kx_sid s) (dr_entries ?d) M" by (auto simp: kv_good_def kx_doc_ok_def before)
  have "kx_wrap s' = (kx_wrap s)\<lparr>kw_removed_recipients := None\<rparr>" by (simp add: s' kx_wrap_def same before [unfolded kx_wrap_def])
  moreover have "kx_key F mk s' = kx_key F mk s" "kx_kept v s' = kx_kept v s" "kx_sid s' = kx_sid s"
    by (simp_all add: s' kx_key_def kx_kept_def same)
  moreover have "kx_doc_ok E F ctx v mk M s'"
    unfolding kx_doc_ok_def
  proof (intro conjI)
    show "\<exists>ks. kv_schedule_extract (oe_json E) (oe_crypto E) (kx_key F mk s') (kx_sid s') = Inr ks \<and>
        draft_seals E ks (kx_sid s') (dr_entries (kx_doc s')) M"
      using ks cleared_draft_seals [OF d ks(2)] calculation(2,4) by (intro exI [of _ ks]) (simp add: s')
    show "kw_wrap (kx_wrap s') \<noteq> []" using calculation(1) good by (simp add: kv_good_def kx_doc_ok_def)
    show "kvh_aead (dr_head (kx_doc s')) = AEAD_XCHACHA20_POLY1305"
      using good by (simp add: s' same kv_good_def kx_doc_ok_def)
    show "\<forall>t. ws_token (dr_wrap (kx_doc s')) = Some t \<longrightarrow> token_ok t \<and> parse_kv_wrap_token (oe_json E) t = Inr (kx_wrap s')"
      by (simp add: s' same before)
    show "kv_wrap.mixed (oe_json E) (oe_crypto E) (rc_target_members ctx) (kx_kept v s') (kx_sid s') (kx_key F mk s') (kw_wrap (kx_wrap s'))"
      using good calculation by (simp add: kv_good_def kx_doc_ok_def)
  qed
  moreover have "kx_session s' = kx_session s" "kx_master_key_state s' = kx_master_key_state s" by (simp_all add: s')
  ultimately show ?thesis using good by (simp add: kv_good_def kx_refreshed_def)
qed

lemma kv_rotated_refreshed:
  assumes "kv_good E F ctx v mk M s" and "kx_rotated s"
  shows "wi_recipient_handle ` set (kw_wrap (kx_wrap s)) \<subseteq> kx_refreshed E F ctx mk s"
  using assms by (auto simp: kv_good_def kx_doc_ok_def kx_refreshed_def kv_wrap.mixed_def kv_wrap.made_for_def kx_kept_def)

lemma kv_ops_simps:
  "rx_current_recipients (kv_executor_ops E S F ctx) s = map wi_recipient_handle (kw_wrap (kx_wrap s))"
  "rx_add_recipients (kv_executor_ops E S F ctx) = kv_add_recipients E F ctx"
  "rx_rewrite_recipient_wraps (kv_executor_ops E S F ctx) = kv_rewrite_recipient_wraps E F ctx"
  "rx_remove_recipients (kv_executor_ops E S F ctx) = kv_remove_recipients E S F ctx"
  "rx_rotate_key (kv_executor_ops E S F ctx) = kv_rotate_key E S F ctx"
  "rx_clear_disclosure_history (kv_executor_ops E S F ctx) = kv_clear_disclosure_history E"
  by (simp_all add: kv_executor_ops_def extract_recipients_from_wrap_def)

interpretation kv_rewriter: recipient_rewriter "kv_executor_ops E S F ctx" "kv_good E F ctx v mk M"
    "\<lambda>s. kx_rotated s" "kx_refreshed E F ctx mk" for E S F ctx v mk M
  by (unfold_locales, unfold kv_ops_simps set_map)
    (assumption | rule kv_rotated_refreshed kv_removed kv_rewritten kv_added kv_key_rotated kv_cleared)+

section \<open>A rewrapped document reaches its targets\<close>

lemma kv_finalized:
  assumes good: "kv_good E F ctx v mk M s" and final: "kv_final_draft E s = Inr (d, k)"
    and sign: "session_sign E (kx_session s) d k = Inr text" and carried: "written_carried E (rc_key_ctx ctx) d k text"
  shows "\<exists>v'. verify_kv_content (oe_json E) (oe_crypto E) (oe_rfc3339 E) (oe_now E) (KvEncContent text) = Inr v' \<and>
    kv_wraps v' = kw_wrap (kx_wrap s) \<and> kv_sid v' = kx_sid s \<and>
    (\<forall>handle reader info. unwrap_master_key_for_kv_with_context (oe_json E) (oe_crypto E) (kv_sid v') (kv_wraps v') handle reader =
        Inr (kx_key F mk s, info) \<longrightarrow> kv_opens_with E v' handle reader (kx_key F mk s) M)"
proof -
  let ?J = "oe_json E" and ?C = "oe_crypto E"
  from final obtain ts where d: "d = set_updated_at ts (kx_doc s)" and "session_unwrap_master_key E (kx_session s) = Inr k"
    by (auto simp: kv_final_draft_def update_timestamp_def)
  then have k: "k = kx_key F mk s" using good by (simp add: kv_good_def)
  have same: "kvh_sid (dr_head d) = kx_sid s" "kvh_aead (dr_head d) = kvh_aead (dr_head (kx_doc s))"
    "dr_wrap d = dr_wrap (kx_doc s)" "dr_entries d = dr_entries (kx_doc s)"
    by (simp_all add: d set_updated_at_def)
  from good obtain ks where ks: "kv_schedule_extract ?J ?C k (kvh_sid (dr_head d)) = Inr ks"
    and seals: "draft_seals E ks (kvh_sid (dr_head d)) (dr_entries d) M"
    and aead: "kvh_aead (dr_head d) = AEAD_XCHACHA20_POLY1305"
    and token: "\<And>t. ws_token (dr_wrap d) = Some t \<Longrightarrow> token_ok t \<and> parse_kv_wrap_token ?J t = Inr (ws_data (dr_wrap d))"
    and valid: "validate_wrap_items (kw_wrap (ws_data (dr_wrap d))) = Inr ()"
    by (auto simp: kv_good_def kx_doc_ok_def same k kx_wrap_def kv_wrap.mixed_def)
  from sign good obtain sc where sc: "env_signing_context E (rc_key_ctx ctx) = Inr sc"
    and signed: "sign_unsigned_kv_document ?J ?C d k sc = Inr text"
    by (auto simp: session_sign_def kv_good_def)
  have ok: "signer_consistent E (rc_key_ctx ctx)" "hmac_ok ?C"
    using good by (simp_all add: kv_good_def kv_rewrap_setting_def rewrap_setting_def)
  from signed_kv_opens [OF signed sc ok carried token valid ks draft_seals_opens [OF seals carried] aead]
  show ?thesis by (auto simp: kv_opens_with_def same kx_wrap_def k)
qed

definition kv_plan_applied ::
  "op_env \<Rightarrow> (member_handle list \<Rightarrow> public_key list res) \<Rightarrow> rewrap_fresh \<Rightarrow> rewrap_context \<Rightarrow>
   kv_enc_document verified_document \<Rightarrow> kv_executor res" where
  "kv_plan_applied E S F ctx v =
     (let ops = kv_executor_ops E S F ctx; targets = rc_target_members ctx in
      res_bind (new_from_verified E v ctx) (\<lambda>s.
      apply_rewrap_operation_plan ops s
        (build_rewrap_operation_plan (rx_current_recipients ops s) (collect_target_member_handles targets)
           (collect_stale_recipient_handles (kv_wraps v) targets) (rc_options ctx))))"

lemma rewrap_kv_eq:
  assumes "verify_kv_content (oe_json E) (oe_crypto E) (oe_rfc3339 E) (oe_now E) content = Inr v"
  shows "rewrap_kv_document E S F options content h cc targets =
    res_bind (kv_plan_applied E S F (rewrap_context_of options h cc targets) v) (\<lambda>s.
    res_bind (kv_final_draft E s) (\<lambda>(d, k). session_sign E (kx_session s) d k))"
proof (cases "new_from_verified E v (rewrap_context_of options h cc targets)")
  case (Inl e)
  then show ?thesis using assms
    by (simp add: rewrap_kv_document_def rewrap_document_with_common_skeleton_def kv_plan_applied_def
        rewrap_context_of_def Let_def)
next
  case (Inr s)
  have "rx_finalize (kv_executor_ops E S F ctx) = (\<lambda>s. res_bind (kv_final_draft E s) (\<lambda>(d, k). session_sign E (kx_session s) d k))"
    for ctx by (simp add: kv_executor_ops_def)
  then show ?thesis using assms Inr
    by (simp add: rewrap_kv_document_def rewrap_document_with_common_skeleton_def kv_plan_applied_def
        rewrap_context_of_def rewrite_with_rewrap_operation_plan_def Let_def)
qed

lemma rewrap_kv_Inr:
  assumes "rewrap_kv_document E S F options (KvEncContent old) h cc targets = Inr text"
    and "verify_kv_content (oe_json E) (oe_crypto E) (oe_rfc3339 E) (oe_now E) (KvEncContent old) = Inr v"
  shows "\<exists>s d k. kv_plan_applied E S F (rewrap_context_of options h cc targets) v = Inr s \<and>
    kv_final_draft E s = Inr (d, k) \<and> session_sign E (kx_session s) d k = Inr text"
  using assms(1) unfolding rewrap_kv_eq [OF assms(2)] by auto

text \<open>
  C2. A rewrapped kv-enc document reaches exactly its targets: the text a rewrap returns is verified,
  names the target members as its recipients, and carries a fresh master key when a recipient left
  or the caller rotates, the old one otherwise. Every target that holds its key decrypts it to the
  map the editor could read; only a target whose wrap is kept as it is must have been able to unwrap
  it before.
\<close>

theorem kv_rewrap_reaches_targets:
  assumes "rewrap_kv_document E S F options (KvEncContent old) h cc targets = Inr text"
    and "verify_kv_content (oe_json E) (oe_crypto E) (oe_rfc3339 E) (oe_now E) (KvEncContent old) = Inr v"
    and "kv_rewrap_setting E F (rewrap_context_of options h cc targets) v mk M"
    and "\<And>s d k. kv_plan_applied E S F (rewrap_context_of options h cc targets) v = Inr s \<Longrightarrow>
      kv_final_draft E s = Inr (d, k) \<Longrightarrow> written_carried E cc d k text"
  shows "\<exists>v'. verify_kv_content (oe_json E) (oe_crypto E) (oe_rfc3339 E) (oe_now E) (KvEncContent text) = Inr v' \<and>
    wi_recipient_handle ` set (kv_wraps v') = handle_of ` set targets \<and>
    (let rotate = key_must_change options (kv_wraps v) targets;
         mk' = (if rotate then fv_master_key (rf_rotate F) else mk) in
     \<forall>m\<in>set targets. \<forall>reader. holds_key (oe_crypto E) reader m \<and>
       (\<not> rotate \<and> has_current_wrap (kv_wraps v) m \<longrightarrow> kv_opens_with E v (handle_of m) reader mk M) \<longrightarrow>
       kv_opens_with E v' (handle_of m) reader mk' M)"
proof -
  let ?ctx = "rewrap_context_of options h cc targets" and ?ws = "kv_wraps v" and ?J = "oe_json E" and ?C = "oe_crypto E"
  let ?ops = "kv_executor_ops E S F ?ctx"
  from rewrap_kv_Inr [OF assms(1,2)] obtain s d k where plan: "kv_plan_applied E S F ?ctx v = Inr s"
    and final: "kv_final_draft E s = Inr (d, k)" and sign: "session_sign E (kx_session s) d k = Inr text" by blast
  have ctx: "rc_target_members ?ctx = targets" "rc_key_ctx ?ctx = cc" "rc_options ?ctx = options"
    by (simp_all add: rewrap_context_of_def)
  have targets: "recipients_ok ?C targets" using kv_setting_targets(1) [OF assms(3)] by (simp add: ctx)
  then have dist: "distinct (map handle_of targets)" by (simp add: recipients_ok_def)
  from plan obtain s0 where s0: "new_from_verified E v ?ctx = Inr s0"
    and applied: "apply_rewrap_operation_plan ?ops s0 (build_rewrap_operation_plan (rx_current_recipients ?ops s0)
      (collect_target_member_handles targets) (collect_stale_recipient_handles ?ws targets) options) = Inr s"
    by (auto simp: kv_plan_applied_def ctx Let_def)
  from kv_good_new [OF assms(3) s0] have good0: "kv_good E F ?ctx v mk M s0" "\<not> kx_rotated s0"
    and cur0: "kw_wrap (kx_wrap s0) = ?ws" by simp_all
  have handles: "distinct (collect_target_member_handles targets)" "set (collect_target_member_handles targets) = handle_of ` set targets"
    using dist by (simp_all add: collect_target_member_handles_def)
  from kv_rewriter.plan_reaches_targets [OF good0 handles(1) refl _ _ applied]
  have after: "kv_good E F ?ctx v mk M s" "wi_recipient_handle ` set (kw_wrap (kx_wrap s)) = handle_of ` set targets"
    "kx_rotated s \<longleftrightarrow> key_must_change options ?ws targets"
    "set (collect_stale_recipient_handles ?ws targets) \<union> (handle_of ` set targets - wi_recipient_handle ` set ?ws) \<subseteq> kx_refreshed E F ?ctx mk s"
    using collected_stale(1) [of ?ws targets] collected_stale(2) [of targets ?ws] dist
    by (auto simp: cur0 handles kv_ops_simps key_must_change_def)
  have carried: "written_carried E (rc_key_ctx ?ctx) d k text" using assms(4) [OF plan final] by (simp add: ctx)
  from kv_finalized [OF after(1) final sign carried] obtain v' where
    v': "verify_kv_content ?J ?C (oe_rfc3339 E) (oe_now E) (KvEncContent text) = Inr v'"
      "kv_wraps v' = kw_wrap (kx_wrap s)" "kv_sid v' = kx_sid s"
    and opens: "\<And>handle reader info. unwrap_master_key_for_kv_with_context ?J ?C (kv_sid v') (kv_wraps v') handle reader =
        Inr (kx_key F mk s, info) \<Longrightarrow> kv_opens_with E v' handle reader (kx_key F mk s) M" by blast
  have key: "kx_key F mk s = (if key_must_change options ?ws targets then fv_master_key (rf_rotate F) else mk)"
    by (simp add: kx_key_def after(3))
  have mixed: "kv_wrap.mixed ?J ?C targets (kx_kept v s) (kx_sid s) (kx_key F mk s) (kv_wraps v')"
    using after(1) by (simp add: v'(2) kv_good_def kx_doc_ok_def ctx)
  then have valid': "validate_wrap_items (kv_wraps v') = Inr ()" by (simp add: kv_wrap.mixed_def)
  have valid: "validate_wrap_items ?ws = Inr ()" by (rule verified_wraps_valid(1) [OF assms(2)])
  have "kv_opens_with E v' (handle_of m) reader (kx_key F mk s) M"
    if m: "m \<in> set targets" and reader: "holds_key ?C reader m"
      and before: "\<not> key_must_change options ?ws targets \<and> has_current_wrap ?ws m \<longrightarrow>
        kv_opens_with E v (handle_of m) reader mk M" for m reader
  proof (cases "handle_of m \<in> kx_refreshed E F ?ctx mk s")
    case True
    then have "handle_of m \<in> kv_wrap.made_for ?J ?C targets (kv_sid v') (kx_key F mk s) (kv_wraps v')"
      by (simp add: kx_refreshed_def ctx v'(2,3))
    from made_kv_wrap_unwraps [OF valid' kv_good_key [OF after(1)] targets m reader this]
    show ?thesis by (rule opens)
  next
    case False
    have keep: "\<not> key_must_change options ?ws targets" "\<not> kx_rotated s"
      using kv_rotated_refreshed [OF after(1)] after(2,3) m False by auto
    have "handle_of m \<in> wi_recipient_handle ` set ?ws" "handle_of m \<notin> set (collect_stale_recipient_handles ?ws targets)"
      using after(4) m False by blast+
    then have "has_current_wrap ?ws m"
      using valid not_stale_is_current [OF _ refl m] by (simp add: validate_wrap_items_iff)
    then have old: "kv_opens_with E v (handle_of m) reader mk M" using before keep by simp
    obtain w where w: "w \<in> set (kv_wraps v')" "wi_recipient_handle w = handle_of m"
      using after(2) m unfolding v'(2) by (metis imageE image_eqI)
    have "\<not> kv_wrap.sealed_for ?J ?C targets (kx_sid s) (kx_key F mk s) w"
      using False w unfolding kx_refreshed_def ctx kv_wrap.made_for_def v'(2) by (metis (mono_tags, lifting) image_eqI mem_Collect_eq)
    then have "w \<in> set ?ws" using mixed w(1) keep by (auto simp: kv_wrap.mixed_def kx_kept_def)
    from kept_kv_wrap_unwraps [OF this w(1) valid valid'] w(2) have
      "unwrap_master_key_for_kv_with_context ?J ?C (kv_sid v') (kv_wraps v') (handle_of m) reader =
       unwrap_master_key_for_kv_with_context ?J ?C (kv_sid v') ?ws (handle_of m) reader" by simp
    moreover have "kx_key F mk s = mk" using key keep by simp
    moreover have "kv_sid v' = kv_sid v" using after(1) keep(2) by (simp add: v'(3) kv_good_def)
    ultimately show ?thesis using old opens by (auto simp: kv_opens_with_def)
  qed
  then show ?thesis
    using v'(1,2) after(2) unfolding Let_def key by (intro exI [of _ v']) simp
qed

end
