(* ===== verification/Rewrap_File.thy ===== *)
theory Rewrap_File
  imports Rewrap
begin

text \<open>
  The rewrap of a file-enc document (\<open>feature/rewrap/file.rs\<close>, \<open>feature/rewrap/file_op\<close>). The randomness
  of the wraps that are refreshed, of those that are added and of a new key are arguments.
\<close>

section \<open>The content key\<close>

datatype file_content_key_state = Unloaded | Original "u8 list" | Rotated "u8 list"

text \<open>The third arm of the match is \<open>unreachable!\<close>: nothing is known of the key before it is loaded.\<close>

fun key_as_ref :: "file_content_key_state \<Rightarrow> u8 list" where
  "key_as_ref (Original content_key) = content_key"
| "key_as_ref (Rotated content_key) = content_key"

fun is_rotated :: "file_content_key_state \<Rightarrow> bool" where
  "is_rotated (Rotated _) = True"
| "is_rotated _ = False"

definition unwrap_verified_file_content_key ::
  "json_lib \<Rightarrow> crypto_lib \<Rightarrow> file_enc_document verified_document \<Rightarrow> string \<Rightarrow> crypto_context \<Rightarrow> u8 list res" where
  "unwrap_verified_file_content_key J C verified member_handle key_ctx =
     res_bind (unwrap_master_key_for_file_with_context J C verified member_handle key_ctx) (\<lambda>(master_key, _).
     res_map fkp_master_key (verify_file_key_possession J C verified master_key))"

record file_executor =
  fx_protected :: file_enc_protected
  fx_verified :: "file_enc_document verified_document"
  fx_key :: file_content_key_state

definition file_executor_new :: "file_enc_document verified_document \<Rightarrow> file_executor" where
  "file_executor_new verified =
     \<lparr>fx_protected = fed_protected (vd_document verified), fx_verified = verified, fx_key = Unloaded\<rparr>"

definition ensure_content_key :: "op_env \<Rightarrow> rewrap_context \<Rightarrow> file_executor \<Rightarrow> file_executor res" where
  "ensure_content_key E ctx s =
     (if fx_key s = Unloaded
      then res_map (\<lambda>k. s\<lparr>fx_key := Original k\<rparr>)
        (unwrap_verified_file_content_key (oe_json E) (oe_crypto E) (fx_verified s) (rc_member_handle ctx) (rc_key_ctx ctx))
      else Inr s)"

section \<open>Operations on the recipients\<close>

definition recipients_with_kids :: "file_enc_protected \<Rightarrow> string list \<Rightarrow> (string \<times> string) list" where
  "recipients_with_kids protected recipients_to_remove =
     List.map_filter (\<lambda>recipient_handle.
       if \<not> check_recipient_exists (fe_recipients protected) recipient_handle then None
       else map_option (\<lambda>wrap_item. (recipient_handle, wi_kid wrap_item))
         (find (\<lambda>w. wi_recipient_handle w = recipient_handle) (fe_wrap protected)))
       recipients_to_remove"

definition remove_file_recipients :: "op_env \<Rightarrow> string list \<Rightarrow> file_enc_protected \<Rightarrow> file_enc_protected res" where
  "remove_file_recipients E recipients_to_remove protected =
     (let to_remove = recipients_with_kids protected recipients_to_remove in
      res_bind (fold_res (\<lambda>(recipient_handle, k) history. add_to_removed_history E history recipient_handle k)
                  to_remove (fe_removed_recipients protected)) (\<lambda>history.
      let wrap = fold (\<lambda>(recipient_handle, _). filter (\<lambda>w. wi_recipient_handle w \<noteq> recipient_handle))
                   to_remove (fe_wrap protected) in
      res_bind (validate_not_empty_recipients (map wi_recipient_handle wrap)) (\<lambda>_.
      Inr (protected\<lparr>fe_removed_recipients := history, fe_wrap := wrap\<rparr>))))"

definition add_file_recipients ::
  "op_env \<Rightarrow> entropy \<Rightarrow> u8 list \<Rightarrow> string list \<Rightarrow> public_key list \<Rightarrow> file_enc_protected \<Rightarrow> file_enc_protected res" where
  "add_file_recipients E rnd content_key new_recipients target_members protected =
     res_bind (build_new_wrap_items (fe_recipients protected) (length (fe_wrap protected)) new_recipients target_members
        (\<lambda>i attested. build_wrap_item_for_file (oe_json E) (oe_crypto E) (rnd i) attested (fe_sid protected) content_key))
       (\<lambda>wrap_items.
     Inr (protected\<lparr>fe_wrap := fe_wrap protected @ wrap_items\<rparr>))"

definition rewrite_file_recipient_wraps ::
  "op_env \<Rightarrow> entropy \<Rightarrow> u8 list \<Rightarrow> string list \<Rightarrow> public_key list \<Rightarrow> file_enc_protected \<Rightarrow> file_enc_protected res" where
  "rewrite_file_recipient_wraps E rnd content_key recipients_to_refresh target_members protected =
     res_bind (replace_recipient_wrap_items (fe_wrap protected) recipients_to_refresh target_members
        (\<lambda>i member. build_wrap_item_for_file (oe_json E) (oe_crypto E) (rnd i) member (fe_sid protected) content_key))
       (\<lambda>wrap_items.
     Inr (protected\<lparr>fe_wrap := wrap_items\<rparr>))"

definition rotate_file_key ::
  "op_env \<Rightarrow> fresh_values \<Rightarrow> file_enc_document verified_document \<Rightarrow> u8 list \<Rightarrow> public_key list \<Rightarrow>
   file_enc_protected \<Rightarrow> (u8 list \<times> file_enc_protected) res" where
  "rotate_file_key E F verified old_content_key target_members protected =
     (let J = oe_json E; C = oe_crypto E in
      res_bind (file_schedule_extract J C old_content_key (fe_sid protected)) (\<lambda>old_schedule.
      res_bind (file_derive_content_key J C old_schedule) (\<lambda>old_payload_key.
      res_bind (decrypt_file_payload J C verified old_payload_key) (\<lambda>plaintext.
      let new_content_key = fv_master_key F in
      res_bind (file_schedule_extract J C new_content_key (fe_sid protected)) (\<lambda>new_schedule.
      res_bind (file_derive_content_key J C new_schedule) (\<lambda>new_xchacha_key.
      res_bind (encrypt_file_payload_content J C (fv_nonce F 0) plaintext new_xchacha_key
                  (fp_protected (fe_payload protected))) (\<lambda>encrypted.
      res_bind (resolve_snapshot_verified_recipients target_members (fe_recipients protected)) (\<lambda>attested_pubkeys.
      res_bind (build_wraps_for_recipients J C (fv_seal F) attested_pubkeys (fe_sid protected) new_content_key FileWrap)
        (\<lambda>wrap.
      Inr (new_content_key,
        protected\<lparr>fe_payload := (fe_payload protected)\<lparr>fp_encrypted := encrypted\<rparr>, fe_wrap := wrap\<rparr>))))))))))"

section \<open>The executor\<close>

definition file_add_recipients ::
  "op_env \<Rightarrow> rewrap_fresh \<Rightarrow> rewrap_context \<Rightarrow> string list \<Rightarrow> file_executor \<Rightarrow> file_executor res" where
  "file_add_recipients E F ctx recipients s =
     res_bind (ensure_content_key E ctx s) (\<lambda>s.
     res_bind (add_file_recipients E (rf_add F) (key_as_ref (fx_key s)) recipients (rc_target_members ctx) (fx_protected s))
       (\<lambda>protected. Inr (s\<lparr>fx_protected := protected\<rparr>)))"

definition file_rewrite_recipient_wraps ::
  "op_env \<Rightarrow> rewrap_fresh \<Rightarrow> rewrap_context \<Rightarrow> string list \<Rightarrow> file_executor \<Rightarrow> file_executor res" where
  "file_rewrite_recipient_wraps E F ctx recipients s =
     res_bind (ensure_content_key E ctx s) (\<lambda>s.
     res_bind (rewrite_file_recipient_wraps E (rf_stale F) (key_as_ref (fx_key s)) recipients (rc_target_members ctx)
        (fx_protected s))
       (\<lambda>protected. Inr (s\<lparr>fx_protected := protected\<rparr>)))"

definition file_rotate_key :: "op_env \<Rightarrow> rewrap_fresh \<Rightarrow> rewrap_context \<Rightarrow> file_executor \<Rightarrow> file_executor res" where
  "file_rotate_key E F ctx s =
     (if is_rotated (fx_key s) then Inr s
      else res_bind (ensure_content_key E ctx s) (\<lambda>s.
        res_bind (rotate_file_key E (rf_rotate F) (fx_verified s) (key_as_ref (fx_key s)) (rc_target_members ctx)
           (fx_protected s))
          (\<lambda>(content_key, protected). Inr (s\<lparr>fx_protected := protected, fx_key := Rotated content_key\<rparr>))))"

definition file_remove_recipients ::
  "op_env \<Rightarrow> rewrap_fresh \<Rightarrow> rewrap_context \<Rightarrow> string list \<Rightarrow> file_executor \<Rightarrow> file_executor res" where
  "file_remove_recipients E F ctx recipients s =
     res_bind (remove_file_recipients E recipients (fx_protected s)) (\<lambda>protected.
     file_rotate_key E F ctx (s\<lparr>fx_protected := protected\<rparr>))"

definition file_clear_disclosure_history :: "file_executor \<Rightarrow> file_executor res" where
  "file_clear_disclosure_history s =
     Inr (s\<lparr>fx_protected := (fx_protected s)\<lparr>fe_removed_recipients := None\<rparr>\<rparr>)"

text \<open>The document \<open>finalize\<close> signs, before it is printed.\<close>

definition file_finalize_document :: "op_env \<Rightarrow> rewrap_context \<Rightarrow> file_executor \<Rightarrow> file_enc_document res" where
  "file_finalize_document E ctx s =
     (let J = oe_json E; C = oe_crypto E in
      res_bind (ensure_content_key E ctx s) (\<lambda>s.
      res_bind (oe_timestamp E) (\<lambda>timestamp.
      let protected = (fx_protected s)\<lparr>fe_updated_at := timestamp\<rparr> in
      res_bind (env_signing_context E (rc_key_ctx ctx)) (\<lambda>signing.
      res_bind (file_schedule_extract J C (key_as_ref (fx_key s)) (fe_sid protected)) (\<lambda>schedule.
      res_bind (file_derive_mac_key J C schedule) (\<lambda>mac_key.
      res_bind (sign_file_document J C protected mac_key (sc_signing_key signing) (sc_signer_kid signing)
                  (sc_signer_pub signing)) (\<lambda>signature.
      Inr \<lparr>fed_protected = protected, fed_signature = signature\<rparr>)))))))"

definition file_executor_ops ::
  "op_env \<Rightarrow> (json \<Rightarrow> string) \<Rightarrow> rewrap_fresh \<Rightarrow> rewrap_context \<Rightarrow> file_executor rewrap_executor" where
  "file_executor_ops E P F ctx =
     \<lparr>rx_current_recipients = (\<lambda>s. map wi_recipient_handle (fe_wrap (fx_protected s))),
      rx_add_recipients = file_add_recipients E F ctx,
      rx_rewrite_recipient_wraps = file_rewrite_recipient_wraps E F ctx,
      rx_remove_recipients = file_remove_recipients E F ctx,
      rx_rotate_key = file_rotate_key E F ctx,
      rx_clear_disclosure_history = file_clear_disclosure_history,
      rx_finalize = (\<lambda>s. res_map (\<lambda>doc. P (se_file_enc (oe_json E) doc)) (file_finalize_document E ctx s))\<rparr>"

definition rewrap_file_document ::
  "op_env \<Rightarrow> (json \<Rightarrow> string) \<Rightarrow> rewrap_fresh \<Rightarrow> rewrap_options \<Rightarrow> file_enc_content \<Rightarrow> string \<Rightarrow>
   crypto_context \<Rightarrow> public_key list \<Rightarrow> string res" where
  "rewrap_file_document E P F options content =
     rewrap_document_with_common_skeleton
       (verify_file_content (oe_json E) (oe_crypto E) (oe_rfc3339 E) (oe_now E) content)
       (\<lambda>verified. fe_wrap (fed_protected (vd_document verified)))
       (\<lambda>verified _. Inr (file_executor_new verified)) (file_executor_ops E P F) options"

section \<open>What a rewrap keeps\<close>

abbreviation "opened_protected v \<equiv> fed_protected (vd_document v)"

lemma payload_opens_cong:
  "fe_format q = fe_format p \<Longrightarrow> fe_sid q = fe_sid p \<Longrightarrow> fe_payload q = fe_payload p \<Longrightarrow>
   payload_opens J C q = payload_opens J C p"
  by (intro ext) (simp add: payload_opens_def)

lemma decrypted_payload_opens:
  assumes "decrypt_file_document_with_context J C v handle reader = Inr (content, info)"
    and "unwrap_master_key_for_file_with_context J C v handle reader = Inr (mk, info')"
  shows "payload_opens J C (opened_protected v) mk content"
proof -
  let ?p = "opened_protected v"
  from assms obtain pos where f: "fe_format ?p = FILE_ENC_V1" "fph_format (fp_protected (fe_payload ?p)) = FILE_PAYLOAD_V1"
    "fph_aead (fp_protected (fe_payload ?p)) = AEAD_XCHACHA20_POLY1305" "fph_sid (fp_protected (fe_payload ?p)) = fe_sid ?p"
    and pos: "verify_file_key_possession J C v mk = Inr pos"
    and opens: "decrypt_file_payload J C (fkp_document pos) (fkp_content_key pos) = Inr content"
    by (auto simp: decrypt_file_document_with_context_def Let_def validate_file_enc_document_format_def
        validate_file_enc_document_payload_def split: if_splits)
  from pos obtain ks key where ks: "file_schedule_extract J C mk (fe_sid ?p) = Inr ks"
    "file_derive_content_key J C ks = Inr key" and pos': "fkp_document pos = v" "fkp_content_key pos = key"
    by (auto simp: verify_file_key_possession_def Let_def)
  have "fp_protected (fe_payload ?p) =
      \<lparr>fph_format = FILE_PAYLOAD_V1, fph_sid = fe_sid ?p, fph_aead = AEAD_XCHACHA20_POLY1305\<rparr>"
    using f by simp
  moreover obtain nonce ct where "decode_base64url_nopad_array 24 (fpc_nonce (fp_encrypted (fe_payload ?p))) = Inr nonce"
    "decode_base64url_nopad (fpc_ct (fp_encrypted (fe_payload ?p))) = Inr ct"
    "cl_aead_open C key nonce (jl_jcs J (se_file_payload_header J (fp_protected (fe_payload ?p)))) ct = Some content"
    using opens unfolding pos'
    by (auto simp: decrypt_file_payload_def Let_def binding_total xchacha_decrypt_def ok_or_def split: option.splits)
  ultimately show ?thesis
    using f(1) ks unfolding payload_opens_def
    by (intro conjI exI [of _ ks] exI [of _ key] exI [of _ nonce] exI [of _ ct])
qed

definition current_key :: "u8 list \<Rightarrow> file_executor \<Rightarrow> u8 list" where
  "current_key mk s = (if is_rotated (fx_key s) then key_as_ref (fx_key s) else mk)"

definition kept_wraps :: "file_enc_document verified_document \<Rightarrow> file_executor \<Rightarrow> wrap_item set" where
  "kept_wraps v s = (if is_rotated (fx_key s) then {} else set (fe_wrap (opened_protected v)))"

definition file_good ::
  "op_env \<Rightarrow> rewrap_fresh \<Rightarrow> rewrap_context \<Rightarrow> file_enc_document verified_document \<Rightarrow> u8 list \<Rightarrow> u8 list \<Rightarrow>
   file_executor \<Rightarrow> bool" where
  "file_good E F ctx v mk content s \<longleftrightarrow>
     rewrap_setting E F ctx \<and> opens_with E v (rc_member_handle ctx) (rc_key_ctx ctx) mk content \<and>
     length content \<le> MAX_PLAINTEXT_INPUT_SIZE \<and> fx_verified s = v \<and>
     fe_sid (fx_protected s) = fe_sid (opened_protected v) \<and>
     fx_key s \<in> {Unloaded, Original mk, Rotated (fv_master_key (rf_rotate F))} \<and>
     payload_opens (oe_json E) (oe_crypto E) (fx_protected s) (current_key mk s) content \<and>
     file_wrap.mixed (oe_json E) (oe_crypto E) (rc_target_members ctx) (kept_wraps v s)
       (fe_sid (opened_protected v)) (current_key mk s) (fe_wrap (fx_protected s))"

definition file_refreshed ::
  "op_env \<Rightarrow> rewrap_context \<Rightarrow> u8 list \<Rightarrow> file_executor \<Rightarrow> string set" where
  "file_refreshed E ctx mk s =
     file_wrap.made_for (oe_json E) (oe_crypto E) (rc_target_members ctx) (fe_sid (fx_protected s))
       (current_key mk s) (fe_wrap (fx_protected s))"

lemma unwrapped_file_key_length:
  "unwrap_master_key_for_file_with_context J C v handle reader = Inr (mk, info) \<Longrightarrow> length mk = 32"
  by (auto simp: unwrap_master_key_for_file_with_context_def unwrap_master_key_def parse_master_key_from_plaintext_def
      Let_def split: if_splits)

lemma unwrapped_wraps_valid:
  "unwrap_master_key_for_file_with_context J C v handle reader = Inr (mk, info) \<Longrightarrow>
   validate_wrap_items (fe_wrap (opened_protected v)) = Inr ()"
  by (auto simp: unwrap_master_key_for_file_with_context_def WrapSet_parse_def Let_def)

lemma file_good_new:
  assumes "rewrap_setting E F ctx" and "opens_with E v (rc_member_handle ctx) (rc_key_ctx ctx) mk content"
    and "length content \<le> MAX_PLAINTEXT_INPUT_SIZE"
  shows "file_good E F ctx v mk content (file_executor_new v)"
  using assms unfolding opens_with_def
  by (auto simp: file_good_def opens_with_def file_executor_new_def current_key_def kept_wraps_def file_wrap.mixed_def
      intro: decrypted_payload_opens unwrapped_wraps_valid)

lemma ensured_key:
  assumes "file_good E F ctx v mk content s" and "ensure_content_key E ctx s = Inr s'"
  shows "file_good E F ctx v mk content s' \<and> fx_protected s' = fx_protected s \<and> is_rotated (fx_key s') = is_rotated (fx_key s) \<and>
    key_as_ref (fx_key s') = current_key mk s' \<and> current_key mk s' = current_key mk s \<and> fx_key s' \<noteq> Unloaded \<and>
    kept_wraps v s' = kept_wraps v s"
proof (cases "fx_key s = Unloaded")
  case True
  then obtain k where k: "s' = s\<lparr>fx_key := Original k\<rparr>"
    "unwrap_verified_file_content_key (oe_json E) (oe_crypto E) v (rc_member_handle ctx) (rc_key_ctx ctx) = Inr k"
    using assms by (auto simp: ensure_content_key_def file_good_def)
  moreover have "k = mk"
    using k(2) assms(1)
    by (auto simp: file_good_def opens_with_def unwrap_verified_file_content_key_def verify_file_key_possession_def Let_def)
  ultimately show ?thesis
    using assms(1) True by (simp add: file_good_def current_key_def kept_wraps_def)
next
  case False
  then show ?thesis using assms by (auto simp: ensure_content_key_def file_good_def current_key_def)
qed

lemma file_good_key: "file_good E F ctx v mk content s \<Longrightarrow> length (current_key mk s) = 32"
  by (auto simp: file_good_def current_key_def opens_with_def rewrap_setting_def fresh_ok_def
      dest: unwrapped_file_key_length)

lemma file_good_targets:
  "file_good E F ctx v mk content s \<Longrightarrow>
   \<forall>m\<in>set (rc_target_members ctx). labels_valid m \<and> (\<exists>sk. kem_pair (oe_crypto E) m sk)"
  by (simp add: file_good_def rewrap_setting_def recipients_ok_def)

lemma file_good_wraps:
  fixes ws s
  defines "s' \<equiv> s\<lparr>fx_protected := (fx_protected s)\<lparr>fe_wrap := ws\<rparr>\<rparr>"
  assumes "file_good E F ctx v mk content s"
    and "file_wrap.mixed (oe_json E) (oe_crypto E) (rc_target_members ctx) (kept_wraps v s)
      (fe_sid (fx_protected s)) (current_key mk s) ws"
  shows "file_good E F ctx v mk content s'" and "current_key mk s' = current_key mk s"
    and "kept_wraps v s' = kept_wraps v s" and "fe_wrap (fx_protected s') = ws"
    and "fe_sid (fx_protected s') = fe_sid (fx_protected s)" and "fx_key s' = fx_key s"
proof -
  show same: "current_key mk s' = current_key mk s" "kept_wraps v s' = kept_wraps v s" "fe_wrap (fx_protected s') = ws"
    "fe_sid (fx_protected s') = fe_sid (fx_protected s)" "fx_key s' = fx_key s"
    by (simp_all add: s'_def current_key_def kept_wraps_def)
  have "payload_opens (oe_json E) (oe_crypto E) (fx_protected s') = payload_opens (oe_json E) (oe_crypto E) (fx_protected s)"
    by (rule payload_opens_cong) (simp_all add: s'_def)
  then show "file_good E F ctx v mk content s'"
    using assms(2,3) by (simp add: file_good_def same) (simp add: s'_def)
qed

lemma file_added:
  assumes good: "file_good E F ctx v mk content s"
    and rs: "set rs \<inter> wi_recipient_handle ` set (fe_wrap (fx_protected s)) = {}" "distinct rs"
    and add: "file_add_recipients E F ctx rs s = Inr s'"
  shows "file_good E F ctx v mk content s' \<and> is_rotated (fx_key s') = is_rotated (fx_key s) \<and>
    file_refreshed E ctx mk s \<union> set rs \<subseteq> file_refreshed E ctx mk s' \<and>
    wi_recipient_handle ` set (fe_wrap (fx_protected s')) = wi_recipient_handle ` set (fe_wrap (fx_protected s)) \<union> set rs"
proof -
  let ?p = "fx_protected s" and ?k = "current_key mk s" and ?J = "oe_json E" and ?C = "oe_crypto E"
  from add obtain s1 new where s1: "ensure_content_key E ctx s = Inr s1"
    and new: "build_new_wrap_items (fe_recipients (fx_protected s1)) (length (fe_wrap (fx_protected s1))) rs (rc_target_members ctx)
      (\<lambda>i m. build_wrap_item_for_file ?J ?C (rf_add F i) m (fe_sid (fx_protected s1)) (key_as_ref (fx_key s1))) = Inr new"
    and s': "s' = s1\<lparr>fx_protected := (fx_protected s1)\<lparr>fe_wrap := fe_wrap (fx_protected s1) @ new\<rparr>\<rparr>"
    by (auto simp: file_add_recipients_def add_file_recipients_def)
  note e = ensured_key [OF good s1]
  have good1: "file_good E F ctx v mk content s1" using e by blast
  have mixed: "file_wrap.mixed ?J ?C (rc_target_members ctx) (kept_wraps v s) (fe_sid ?p) ?k (fe_wrap ?p)"
    using good by (simp add: file_good_def)
  have built: "build_new_wrap_items (map wi_recipient_handle (fe_wrap ?p)) (length (fe_wrap ?p)) rs (rc_target_members ctx)
      (\<lambda>i m. build_wrap_item_for_file ?J ?C (rf_add F i) m (fe_sid ?p) ?k) = Inr new"
    using new e by (simp add: fe_recipients_def)
  note added = file_wrap.added_wraps [OF built mixed rs(2,1) file_good_targets [OF good] file_good_key [OF good]]
  have "file_wrap.mixed ?J ?C (rc_target_members ctx) (kept_wraps v s1) (fe_sid (fx_protected s1)) (current_key mk s1) (fe_wrap ?p @ new)"
    using added(1) e by simp
  from file_good_wraps [OF good1 this] have w: "file_good E F ctx v mk content s'" "current_key mk s' = ?k"
    "fe_wrap (fx_protected s') = fe_wrap ?p @ new" "fe_sid (fx_protected s') = fe_sid ?p" "is_rotated (fx_key s') = is_rotated (fx_key s)"
    using e by (simp_all add: s')
  show ?thesis using added(2,3) w by (simp add: file_refreshed_def)
qed

lemma file_rewritten:
  assumes good: "file_good E F ctx v mk content s"
    and rs: "set rs \<subseteq> wi_recipient_handle ` set (fe_wrap (fx_protected s))" "distinct rs"
    and step: "file_rewrite_recipient_wraps E F ctx rs s = Inr s'"
  shows "file_good E F ctx v mk content s' \<and> is_rotated (fx_key s') = is_rotated (fx_key s) \<and>
    file_refreshed E ctx mk s \<union> set rs \<subseteq> file_refreshed E ctx mk s' \<and>
    wi_recipient_handle ` set (fe_wrap (fx_protected s')) = wi_recipient_handle ` set (fe_wrap (fx_protected s))"
proof -
  let ?p = "fx_protected s" and ?k = "current_key mk s" and ?J = "oe_json E" and ?C = "oe_crypto E"
  from step obtain s1 ws where s1: "ensure_content_key E ctx s = Inr s1"
    and ws: "replace_recipient_wrap_items (fe_wrap (fx_protected s1)) rs (rc_target_members ctx)
      (\<lambda>i m. build_wrap_item_for_file ?J ?C (rf_stale F i) m (fe_sid (fx_protected s1)) (key_as_ref (fx_key s1))) = Inr ws"
    and s': "s' = s1\<lparr>fx_protected := (fx_protected s1)\<lparr>fe_wrap := ws\<rparr>\<rparr>"
    by (auto simp: file_rewrite_recipient_wraps_def rewrite_file_recipient_wraps_def)
  note e = ensured_key [OF good s1]
  have good1: "file_good E F ctx v mk content s1" using e by blast
  have mixed: "file_wrap.mixed ?J ?C (rc_target_members ctx) (kept_wraps v s) (fe_sid ?p) ?k (fe_wrap ?p)"
    using good by (simp add: file_good_def)
  have built: "replace_recipient_wrap_items (fe_wrap ?p) rs (rc_target_members ctx)
      (\<lambda>i m. build_wrap_item_for_file ?J ?C (rf_stale F i) m (fe_sid ?p) ?k) = Inr ws"
    using ws e by simp
  note replaced = file_wrap.replaced_wraps [OF built mixed rs(2,1) file_good_targets [OF good] file_good_key [OF good]]
  have "file_wrap.mixed ?J ?C (rc_target_members ctx) (kept_wraps v s1) (fe_sid (fx_protected s1)) (current_key mk s1) (ws)"
    using replaced(1) e by simp
  from file_good_wraps [OF good1 this] have w: "file_good E F ctx v mk content s'" "current_key mk s' = ?k"
    "fe_wrap (fx_protected s') = ws" "fe_sid (fx_protected s') = fe_sid ?p" "is_rotated (fx_key s') = is_rotated (fx_key s)"
    using e by (simp_all add: s')
  show ?thesis using replaced(2,3) w by (simp add: file_refreshed_def)
qed

lemma file_key_rotated:
  assumes good: "file_good E F ctx v mk content s" and step: "file_rotate_key E F ctx s = Inr s'"
  shows "file_good E F ctx v mk content s' \<and> is_rotated (fx_key s') \<and>
    wi_recipient_handle ` set (fe_wrap (fx_protected s')) = wi_recipient_handle ` set (fe_wrap (fx_protected s))"
proof (cases "is_rotated (fx_key s)")
  case True
  then show ?thesis using assms by (simp add: file_rotate_key_def)
next
  case False
  let ?J = "oe_json E" and ?C = "oe_crypto E" and ?F = "rf_rotate F" and ?targets = "rc_target_members ctx"
  from step False obtain s1 p' k where s1: "ensure_content_key E ctx s = Inr s1"
    and rotate: "rotate_file_key E ?F (fx_verified s1) (key_as_ref (fx_key s1)) ?targets (fx_protected s1) = Inr (k, p')"
    and s': "s' = s1\<lparr>fx_protected := p', fx_key := Rotated k\<rparr>"
    by (auto simp: file_rotate_key_def)
  note e = ensured_key [OF good s1]
  let ?p = "fx_protected s1" and ?mk = "fv_master_key ?F"
  have good1: "file_good E F ctx v mk content s1" using e by blast
  have cur: "current_key mk s = mk" using False by (simp add: current_key_def)
  from good1 have f: "fx_verified s1 = v" "fe_sid ?p = fe_sid (opened_protected v)" "key_as_ref (fx_key s1) = mk"
    and set: "rewrap_setting E F ctx" "length content \<le> MAX_PLAINTEXT_INPUT_SIZE"
    and opens: "payload_opens ?J ?C ?p mk content" "opens_with E v (rc_member_handle ctx) (rc_key_ctx ctx) mk content"
    and mixed: "file_wrap.mixed ?J ?C ?targets (kept_wraps v s1) (fe_sid (opened_protected v)) mk (fe_wrap ?p)"
    using e cur by (simp_all add: file_good_def)
  have v: "payload_opens ?J ?C (opened_protected v) mk content"
    using opens(2) by (auto simp: opens_with_def intro: decrypted_payload_opens)
  from rotate obtain ks key content' ks' key' enc ms ws where old: "file_schedule_extract ?J ?C mk (fe_sid ?p) = Inr ks"
    "file_derive_content_key ?J ?C ks = Inr key" "decrypt_file_payload ?J ?C v key = Inr content'"
    and new: "file_schedule_extract ?J ?C ?mk (fe_sid ?p) = Inr ks'" "file_derive_content_key ?J ?C ks' = Inr key'"
    "encrypt_file_payload_content ?J ?C (fv_nonce ?F 0) content' key' (fp_protected (fe_payload ?p)) = Inr enc"
    and ms: "resolve_snapshot_verified_recipients ?targets (fe_recipients ?p) = Inr ms"
    and ws: "build_wraps_for_recipients ?J ?C (fv_seal ?F) ms (fe_sid ?p) ?mk FileWrap = Inr ws"
    and p': "p' = ?p\<lparr>fe_payload := (fe_payload ?p)\<lparr>fp_encrypted := enc\<rparr>, fe_wrap := ws\<rparr>" and k: "k = ?mk"
    unfolding rotate_file_key_def f Let_def by auto
  have "content' = content"
    using v old f(2) by (auto simp: payload_opens_def decrypt_file_payload_def Let_def binding_total xchacha_decrypt_def ok_or_def)
  then have sealed: "payload_opens ?J ?C p' ?mk content"
    using set new opens(1)
    by (intro sealed_payload_opens [of _ "fv_nonce ?F 0" content _ ?mk p' ks' key'])
      (simp_all add: p' rewrap_setting_def fresh_ok_def payload_opens_def)
  have wraps: "file_wrap.wraps_all ?J ?C (fv_seal ?F) ms (fe_sid ?p) ?mk = Inr ws" "length ms \<le> MAX_WRAP_ITEMS"
    using ws by (simp_all add: build_wraps_eq)
  have handles: "map handle_of ms = fe_recipients ?p" and sub: "set ms \<subseteq> set ?targets"
    using resolve_snapshot_Inr [OF ms] by simp_all
  have "distinct (map handle_of ms)"
    using mixed by (simp add: handles fe_recipients_def file_wrap.mixed_def validate_wrap_items_iff)
  moreover have "length ?mk = 32" using set(1) by (simp add: rewrap_setting_def fresh_ok_def)
  ultimately have made: "file_wrap.mixed ?J ?C ?targets {} (fe_sid ?p) ?mk ws" "wi_recipient_handle ` set ws = handle_of ` set ms"
    using file_wrap.rotated_wraps [OF wraps(1) sub _ wraps(2) file_good_targets [OF good]] by blast+
  have "handle_of ` set ms = wi_recipient_handle ` set (fe_wrap ?p)"
    using handles by (metis fe_recipients_def list.set_map)
  moreover have "file_good E F ctx v mk content s'"
    using good1 sealed made(1) f(2) by (simp add: file_good_def current_key_def kept_wraps_def s' k) (simp add: p')
  ultimately show ?thesis using made(2) e by (simp add: s' p')
qed

lemma removed_wraps:
  "set (map fst (recipients_with_kids p rs)) = set rs \<inter> wi_recipient_handle ` set (fe_wrap p)"
proof -
  have "h \<in> set (map fst (recipients_with_kids p rs)) \<longleftrightarrow>
      h \<in> set rs \<and> (\<exists>w. find (\<lambda>w. wi_recipient_handle w = h) (fe_wrap p) = Some w)" for h
    by (induction rs) (auto simp: recipients_with_kids_def List.map_filter_def check_recipient_exists_def fe_recipients_def
        list_ex_iff dest: find_member split: option.splits)
  moreover have "(\<exists>w. find (\<lambda>w. wi_recipient_handle w = h) (fe_wrap p) = Some w) \<longleftrightarrow>
      h \<in> wi_recipient_handle ` set (fe_wrap p)" for h
    by (metis (mono_tags, lifting) find_None_iff find_member image_iff option.exhaust)
  ultimately show ?thesis by blast
qed

lemma fold_retain:
  "fold (\<lambda>(h, _). filter (\<lambda>w. f w \<noteq> h)) hs ws = filter (\<lambda>w. f w \<notin> set (map fst hs)) ws"
  by (induction hs arbitrary: ws) (auto intro: filter_cong)

lemma file_removed:
  assumes good: "file_good E F ctx v mk content s" and step: "file_remove_recipients E F ctx rs s = Inr s'"
  shows "file_good E F ctx v mk content s' \<and> is_rotated (fx_key s') \<and>
    wi_recipient_handle ` set (fe_wrap (fx_protected s')) = wi_recipient_handle ` set (fe_wrap (fx_protected s)) - set rs"
proof -
  let ?p = "fx_protected s" and ?J = "oe_json E" and ?C = "oe_crypto E"
  let ?ws = "filter (\<lambda>w. wi_recipient_handle w \<notin> set (map fst (recipients_with_kids ?p rs))) (fe_wrap ?p)"
  from step obtain history where rotate: "file_rotate_key E F ctx
      (s\<lparr>fx_protected := ?p\<lparr>fe_removed_recipients := history, fe_wrap := ?ws\<rparr>\<rparr>) = Inr s'" (is "file_rotate_key E F ctx ?s = _")
    by (auto simp: file_remove_recipients_def remove_file_recipients_def Let_def fold_retain)
  have "payload_opens ?J ?C (fx_protected ?s) = payload_opens ?J ?C ?p" by (rule payload_opens_cong) simp_all
  moreover have "current_key mk ?s = current_key mk s" "kept_wraps v ?s = kept_wraps v s"
    by (simp_all add: current_key_def kept_wraps_def)
  ultimately have "file_good E F ctx v mk content ?s"
    using good by (simp add: file_good_def file_wrap.mixed_filter)
  from file_key_rotated [OF this rotate]
  show ?thesis using removed_wraps [of ?p rs] by auto
qed

lemma file_cleared:
  assumes good: "file_good E F ctx v mk content s" and step: "file_clear_disclosure_history s = Inr s'"
  shows "file_good E F ctx v mk content s' \<and> is_rotated (fx_key s') = is_rotated (fx_key s) \<and>
    file_refreshed E ctx mk s \<subseteq> file_refreshed E ctx mk s' \<and>
    wi_recipient_handle ` set (fe_wrap (fx_protected s')) = wi_recipient_handle ` set (fe_wrap (fx_protected s))"
proof -
  have s': "s' = s\<lparr>fx_protected := (fx_protected s)\<lparr>fe_removed_recipients := None\<rparr>\<rparr>"
    using step by (simp add: file_clear_disclosure_history_def)
  have same: "current_key mk s' = current_key mk s" "kept_wraps v s' = kept_wraps v s"
    by (simp_all add: s' current_key_def kept_wraps_def)
  have "payload_opens (oe_json E) (oe_crypto E) (fx_protected s') = payload_opens (oe_json E) (oe_crypto E) (fx_protected s)"
    by (rule payload_opens_cong) (simp_all add: s')
  then show ?thesis using good by (simp add: file_good_def same file_refreshed_def) (simp add: s')
qed

lemma file_ops_simps:
  "rx_current_recipients (file_executor_ops E P F ctx) s = map wi_recipient_handle (fe_wrap (fx_protected s))"
  "rx_add_recipients (file_executor_ops E P F ctx) = file_add_recipients E F ctx"
  "rx_rewrite_recipient_wraps (file_executor_ops E P F ctx) = file_rewrite_recipient_wraps E F ctx"
  "rx_remove_recipients (file_executor_ops E P F ctx) = file_remove_recipients E F ctx"
  "rx_rotate_key (file_executor_ops E P F ctx) = file_rotate_key E F ctx"
  "rx_clear_disclosure_history (file_executor_ops E P F ctx) = file_clear_disclosure_history"
  by (simp_all add: file_executor_ops_def)

lemma file_rotated_refreshed:
  assumes "file_good E F ctx v mk content s" and "is_rotated (fx_key s)"
  shows "wi_recipient_handle ` set (fe_wrap (fx_protected s)) \<subseteq> file_refreshed E ctx mk s"
  using assms by (auto simp: file_good_def file_refreshed_def file_wrap.mixed_def file_wrap.made_for_def kept_wraps_def)

interpretation file_rewriter: recipient_rewriter "file_executor_ops E P F ctx" "file_good E F ctx v mk content"
    "\<lambda>s. is_rotated (fx_key s)" "file_refreshed E ctx mk" for E P F ctx v mk content
  by (unfold_locales, unfold file_ops_simps set_map)
    (assumption | rule file_rotated_refreshed file_removed file_rewritten file_added file_key_rotated file_cleared)+

section \<open>A rewrapped file reaches its targets\<close>

lemma kept_wrap_unwraps:
  assumes "w \<in> set (fe_wrap (opened_protected v))" and "w \<in> set (fe_wrap (opened_protected v'))"
    and "validate_wrap_items (fe_wrap (opened_protected v)) = Inr ()"
    and "validate_wrap_items (fe_wrap (opened_protected v')) = Inr ()"
    and "fe_sid (opened_protected v') = fe_sid (opened_protected v)"
  shows "unwrap_master_key_for_file_with_context J C v' (wi_recipient_handle w) reader =
    unwrap_master_key_for_file_with_context J C v (wi_recipient_handle w) reader"
  using kept_wrap_selection [OF assms(1-4), of reader] by (cases "validate_member_handle (wi_recipient_handle w)")
    (auto simp: unwrap_master_key_for_file_with_context_def MemberHandle_new_def assms(5) Let_def)

lemma made_wrap_unwraps:
  assumes "validate_wrap_items (fe_wrap (opened_protected v)) = Inr ()" and "length mk = 32"
    and "recipients_ok C targets" and "m \<in> set targets" and "holds_key C reader m"
    and "handle_of m \<in> file_wrap.made_for J C targets (fe_sid (opened_protected v)) mk (fe_wrap (opened_protected v))"
  shows "unwrap_master_key_for_file_with_context J C v (handle_of m) reader =
    Inr (mk, resolution_info (active_decryption_key reader (cc_kid reader)))"
proof -
  from assms(5) obtain sk where sk: "decode_kem_secret_key (cc_private_key reader) = Inr sk" "kem_pair C m sk"
    by (auto simp: holds_key_def)
  have handle: "validate_member_handle (handle_of m) = Inr ()" and dist: "distinct (map handle_of targets)"
    using assms(3,4) by (auto simp: recipients_ok_def labels_valid_def)
  from file_wrap.made_wrap_opens [OF assms(1,4) dist assms(6) sk(2) assms(2)] show ?thesis
    using sk(1) assms(5) handle
    by (auto simp: unwrap_master_key_for_file_with_context_def MemberHandle_new_def select_active
        active_decryption_key_def holds_key_def Let_def)
qed

lemma file_finalized:
  assumes good: "file_good E F ctx v mk content s" and final: "file_finalize_document E ctx s = Inr d"
    and "signer_consistent E (rc_key_ctx ctx)" and "file_text_carried (oe_json E) P d"
  shows "\<exists>v'. verify_file_content (oe_json E) (oe_crypto E) (oe_rfc3339 E) (oe_now E)
      (FileEncContent (P (se_file_enc (oe_json E) d))) = Inr v' \<and>
    fe_wrap (opened_protected v') = fe_wrap (fx_protected s) \<and> fe_sid (opened_protected v') = fe_sid (fx_protected s) \<and>
    (\<forall>handle reader info. unwrap_master_key_for_file_with_context (oe_json E) (oe_crypto E) v' handle reader =
        Inr (current_key mk s, info) \<longrightarrow> opens_with E v' handle reader (current_key mk s) content)"
proof -
  let ?J = "oe_json E" and ?C = "oe_crypto E"
  from final obtain s1 ts sc ks mac where s1: "ensure_content_key E ctx s = Inr s1"
    and sc: "env_signing_context E (rc_key_ctx ctx) = Inr sc"
    and mac: "file_schedule_extract ?J ?C (key_as_ref (fx_key s1)) (fe_sid (fx_protected s1)) = Inr ks"
      "file_derive_mac_key ?J ?C ks = Inr mac"
    and sign: "finalize_file_document_signature ?J ?C ((fx_protected s1)\<lparr>fe_updated_at := ts\<rparr>) mac sc = Inr d"
    by (auto simp: file_finalize_document_def finalize_file_document_signature_def Let_def)
  note e = ensured_key [OF good s1]
  let ?p = "(fx_protected s1)\<lparr>fe_updated_at := ts\<rparr>"
  have "payload_opens ?J ?C ?p = payload_opens ?J ?C (fx_protected s)" using e by (intro payload_opens_cong) simp_all
  then have payload: "payload_opens ?J ?C ?p (current_key mk s) content" using good by (simp add: file_good_def)
  have wraps: "validate_wrap_items (fe_wrap ?p) = Inr ()" using good e by (simp add: file_good_def file_wrap.mixed_def)
  have key: "file_schedule_extract ?J ?C (current_key mk s) (fe_sid ?p) = Inr ks" using mac(1) e by simp
  have hmac: "hmac_ok ?C" using good by (simp add: file_good_def rewrap_setting_def)
  from signed_file_opens [OF sign sc assms(3) hmac key mac(2) assms(4) wraps payload]
  show ?thesis using e by (auto simp: opens_with_def) 
qed

text \<open>The executor after the plan of a rewrap.\<close>

definition file_plan_applied ::
  "op_env \<Rightarrow> (json \<Rightarrow> string) \<Rightarrow> rewrap_fresh \<Rightarrow> rewrap_context \<Rightarrow> file_enc_document verified_document \<Rightarrow> file_executor res" where
  "file_plan_applied E P F ctx v =
     (let ops = file_executor_ops E P F ctx; s = file_executor_new v; targets = rc_target_members ctx in
      apply_rewrap_operation_plan ops s
        (build_rewrap_operation_plan (rx_current_recipients ops s) (collect_target_member_handles targets)
           (collect_stale_recipient_handles (fe_wrap (opened_protected v)) targets) (rc_options ctx)))"

lemma rewrap_file_Inr:
  assumes "rewrap_file_document E P F options (FileEncContent old) h cc targets = Inr text"
    and "verify_file_content (oe_json E) (oe_crypto E) (oe_rfc3339 E) (oe_now E) (FileEncContent old) = Inr v"
  shows "\<exists>s d. file_plan_applied E P F (rewrap_context_of options h cc targets) v = Inr s \<and>
    file_finalize_document E (rewrap_context_of options h cc targets) s = Inr d \<and> text = P (se_file_enc (oe_json E) d)"
  using assms
  by (auto simp: rewrap_file_document_def rewrap_document_with_common_skeleton_def file_plan_applied_def
      rewrap_context_of_def rewrite_with_rewrap_operation_plan_def Let_def) (simp add: file_executor_ops_def)

text \<open>
  C3. A rewrapped file reaches exactly its targets: the text a rewrap returns is verified, names the
  target members as its recipients, and carries a fresh master key when a recipient left or the
  caller rotates, the old one otherwise. Every target that holds its key decrypts it to the content
  the editor could read; only a target whose wrap is kept as it is must have been able to unwrap it
  before.
\<close>

theorem file_rewrap_reaches_targets:
  assumes "rewrap_file_document E P F options (FileEncContent old) h cc targets = Inr text"
    and "verify_file_content (oe_json E) (oe_crypto E) (oe_rfc3339 E) (oe_now E) (FileEncContent old) = Inr v"
    and "opens_with E v h cc mk content" and "length content \<le> MAX_PLAINTEXT_INPUT_SIZE"
    and "rewrap_setting E F (rewrap_context_of options h cc targets)" and "signer_consistent E cc"
    and "\<And>s d. file_plan_applied E P F (rewrap_context_of options h cc targets) v = Inr s \<Longrightarrow>
      file_finalize_document E (rewrap_context_of options h cc targets) s = Inr d \<Longrightarrow> file_text_carried (oe_json E) P d"
  shows "\<exists>v'. verify_file_content (oe_json E) (oe_crypto E) (oe_rfc3339 E) (oe_now E) (FileEncContent text) = Inr v' \<and>
    wi_recipient_handle ` set (fe_wrap (opened_protected v')) = handle_of ` set targets \<and>
    (let rotate = key_must_change options (fe_wrap (opened_protected v)) targets;
         mk' = (if rotate then fv_master_key (rf_rotate F) else mk) in
     \<forall>m\<in>set targets. \<forall>reader. holds_key (oe_crypto E) reader m \<and>
       (\<not> rotate \<and> has_current_wrap (fe_wrap (opened_protected v)) m \<longrightarrow> opens_with E v (handle_of m) reader mk content) \<longrightarrow>
       opens_with E v' (handle_of m) reader mk' content)"
proof -
  let ?ctx = "rewrap_context_of options h cc targets" and ?ws = "fe_wrap (opened_protected v)"
  let ?ops = "file_executor_ops E P F ?ctx" and ?s0 = "file_executor_new v"
  from rewrap_file_Inr [OF assms(1,2)] obtain s d where plan: "file_plan_applied E P F ?ctx v = Inr s"
    and final: "file_finalize_document E ?ctx s = Inr d" and printed: "text = P (se_file_enc (oe_json E) d)" by blast
  have ctx: "rc_target_members ?ctx = targets" "rc_member_handle ?ctx = h" "rc_key_ctx ?ctx = cc" "rc_options ?ctx = options"
    by (simp_all add: rewrap_context_of_def)
  have targets: "recipients_ok (oe_crypto E) targets" using assms(5) by (simp add: rewrap_setting_def ctx)
  then have dist: "distinct (map handle_of targets)" by (simp add: recipients_ok_def)
  have good0: "file_good E F ?ctx v mk content ?s0"
    by (rule file_good_new) (simp_all add: assms ctx)
  have valid: "validate_wrap_items ?ws = Inr ()"
    using assms(3) by (auto simp: opens_with_def intro: unwrapped_wraps_valid)
  have cur0: "rx_current_recipients ?ops ?s0 = map wi_recipient_handle ?ws"
    by (simp add: file_ops_simps file_executor_new_def)
  have handles: "distinct (collect_target_member_handles targets)" "set (collect_target_member_handles targets) = handle_of ` set targets"
    using dist by (simp_all add: collect_target_member_handles_def)
  from file_rewriter.plan_reaches_targets [OF good0 _ handles(1) refl _ _ plan [unfolded file_plan_applied_def Let_def ctx]]
  have after: "file_good E F ?ctx v mk content s" "wi_recipient_handle ` set (fe_wrap (fx_protected s)) = handle_of ` set targets"
    "is_rotated (fx_key s) \<longleftrightarrow> key_must_change options ?ws targets"
    "set (collect_stale_recipient_handles ?ws targets) \<union> (handle_of ` set targets - wi_recipient_handle ` set ?ws) \<subseteq> file_refreshed E ?ctx mk s"
    using collected_stale(1) [of ?ws targets] collected_stale(2) [of targets ?ws] dist
    by (auto simp: cur0 handles file_ops_simps key_must_change_def file_executor_new_def)
  note carried = assms(7) [OF plan final]
  from file_finalized [OF after(1) final _ carried] obtain v' where
    v': "verify_file_content (oe_json E) (oe_crypto E) (oe_rfc3339 E) (oe_now E) (FileEncContent text) = Inr v'"
      "fe_wrap (opened_protected v') = fe_wrap (fx_protected s)" "fe_sid (opened_protected v') = fe_sid (fx_protected s)"
    and opens: "\<And>handle reader info. unwrap_master_key_for_file_with_context (oe_json E) (oe_crypto E) v' handle reader =
        Inr (current_key mk s, info) \<Longrightarrow> opens_with E v' handle reader (current_key mk s) content"
    using assms(6) unfolding printed ctx by blast
  have key: "current_key mk s = (if key_must_change options ?ws targets then fv_master_key (rf_rotate F) else mk)"
    using after(1,3) by (auto simp: file_good_def current_key_def)
  have valid': "validate_wrap_items (fe_wrap (opened_protected v')) = Inr ()"
    using after(1) by (simp add: v'(2) file_good_def file_wrap.mixed_def)
  have sid: "fe_sid (opened_protected v') = fe_sid (opened_protected v)" using after(1) by (simp add: v'(3) file_good_def)
  have "opens_with E v' (handle_of m) reader (current_key mk s) content"
    if m: "m \<in> set targets" and reader: "holds_key (oe_crypto E) reader m"
      and before: "\<not> key_must_change options ?ws targets \<and> has_current_wrap ?ws m \<longrightarrow>
        opens_with E v (handle_of m) reader mk content" for m reader
  proof (cases "handle_of m \<in> file_refreshed E ?ctx mk s")
    case True
    then have "handle_of m \<in> file_wrap.made_for (oe_json E) (oe_crypto E) targets (fe_sid (opened_protected v'))
        (current_key mk s) (fe_wrap (opened_protected v'))" by (simp add: file_refreshed_def ctx v'(2,3))
    from made_wrap_unwraps [OF valid' file_good_key [OF after(1)] targets m reader this]
    show ?thesis by (rule opens)
  next
    case False
    have keep: "\<not> key_must_change options ?ws targets"
      using file_rotated_refreshed [OF after(1)] after(2,3) m False by auto
    have "handle_of m \<in> wi_recipient_handle ` set ?ws" "handle_of m \<notin> set (collect_stale_recipient_handles ?ws targets)"
      using after(4) m False by blast+
    then have "has_current_wrap ?ws m"
      using valid not_stale_is_current [OF _ refl m] by (simp add: validate_wrap_items_iff)
    then have old: "opens_with E v (handle_of m) reader mk content" using before keep by simp
    obtain w where w: "w \<in> set (fe_wrap (fx_protected s))" "wi_recipient_handle w = handle_of m"
      using after(2) m by (metis imageE image_eqI)
    have "\<not> file_wrap.sealed_for (oe_json E) (oe_crypto E) targets (fe_sid (fx_protected s)) (current_key mk s) w"
      using False w unfolding file_refreshed_def ctx file_wrap.made_for_def by (metis (mono_tags, lifting) image_eqI mem_Collect_eq)
    moreover have "fe_sid (fx_protected s) = fe_sid (opened_protected v)" using after(1) by (simp add: file_good_def)
    ultimately have "w \<in> set ?ws"
      using after(1) w(1) keep by (auto simp: file_good_def file_wrap.mixed_def ctx kept_wraps_def split: if_splits)
    from kept_wrap_unwraps [OF this _ valid valid' sid] w have
      "unwrap_master_key_for_file_with_context (oe_json E) (oe_crypto E) v' (handle_of m) reader =
       unwrap_master_key_for_file_with_context (oe_json E) (oe_crypto E) v (handle_of m) reader" by (simp add: v'(2))
    moreover have "current_key mk s = mk" using key keep by simp
    ultimately show ?thesis using old opens by (auto simp: opens_with_def)
  qed
  then show ?thesis
    using v'(1,2) after(2) unfolding Let_def key by (intro exI [of _ v']) simp
qed

end
