(* ===== verification/Kv_World.thy ===== *)
theory Kv_World
  imports Kv_Ops
begin

text \<open>
  A concrete workspace with one member, in which the properties of the kv-enc operations are applied:
  a member key generated by the model, a context holding it, and a JSON library that prints each
  document of a small table as one byte. Its digests and signatures are constants.
\<close>

definition world_crypto :: crypto_lib where
  "world_crypto = sample_crypto\<lparr>cl_hmac := \<lambda>_ _. replicate 32 0, cl_ed_sign := \<lambda>_ _. replicate 64 0,
     cl_ed_verify := \<lambda>_ _ s. s = replicate 64 0\<rparr>"

text \<open>The schedule of the file's key and the entries sealed under it.\<close>

definition world_schedule :: key_schedule where
  "world_schedule = \<lparr>ks_prk = cl_hkdf_extract world_crypto [9] (replicate 32 6), ks_sid = 1\<rparr>"

definition world_entry :: "string \<Rightarrow> kv_entry_value" where
  "world_entry val =
     (let cek = the (cl_hkdf_expand world_crypto (ks_prk world_schedule) [9]) in
      \<lparr>ev_nonce = encode_base64url_nopad (replicate 24 3),
       ev_ct = encode_base64url_nopad (the (cl_aead_seal world_crypto cek (replicate 24 3) [9] (as_bytes val))),
       ev_disclosed = False\<rparr>)"

fun world_jcs :: "json \<Rightarrow> u8 list" where
  "world_jcs (JObj ms) =
     (if ''updated_at'' \<in> fst ` set ms then [0] else if ''wrap'' \<in> fst ` set ms then [1]
      else if ''mac'' \<in> fst ` set ms then [2]
      else if JObj ms = se_kv_entry (world_entry ''secret'') then [30]
      else if JObj ms = se_kv_entry (world_entry ''changed'') then [31] else [9])"
| "world_jcs _ = [9]"

definition world_lib :: "(u8 \<Rightarrow> json option) \<Rightarrow> json_lib" where
  "world_lib docs =
     \<lparr>jl_tokenize = (\<lambda>bs. case bs of [b] \<Rightarrow> map_option raw_of (docs b) | _ \<Rightarrow> None),
      jl_schema = (\<lambda>_ _. Inr ()), jl_jcs = world_jcs,
      jl_uuid_show = (\<lambda>_. ''1''), jl_uuid_parse = (\<lambda>_. Some 1)\<rparr>"

lemma world_lib_simps [simp]:
  "jl_jcs (world_lib docs) = world_jcs" "jl_uuid_show (world_lib docs) u = ''1''"
  "jl_uuid_parse (world_lib docs) s = Some 1"
  by (simp_all add: world_lib_def)

lemma world_crypto_ok [simp]:
  "hmac_ok world_crypto" "aead_ok world_crypto" "ed25519_pair world_crypto k k'" "x25519_pair world_crypto k k"
  "length (cl_sha256 world_crypto m) = 32" "cl_ed_point world_crypto k = True"
  using sample_crypto_ok by (auto simp: hmac_ok_def aead_ok_def ed25519_pair_def x25519_pair_def world_crypto_def sample_crypto_def)

lemma world_storable:
  assumes "docs b = Some j" and "world_jcs j = [b]" and "wf_json j"
  shows "storable (world_lib docs) target j"
  using assms by (simp add: storable_def world_lib_def from_bytes_def one_byte_limits url_fits_def
      compute_encoded_len_def limit_defs)

lemma world_jcs_one: "\<exists>b. world_jcs j = [b]"
  by (cases j) auto

lemma world_token: "wf_json j \<Longrightarrow> token_encode (world_lib docs) j = Inr (encode_base64url_nopad (world_jcs j))"
  by (simp add: token_encode_Inr wf_all_integers_safe)

text \<open>What the library prints does not depend on the table.\<close>

lemma world_jcs_normalize: "jcs_normalize (world_lib docs) = jcs_normalize (world_lib (\<lambda>_. None))"
  by (simp add: fun_eq_iff jcs_normalize_def)

section \<open>The member\<close>

definition world_binding :: "unit ssh_binding" where
  "world_binding = sample_binding
     \<lparr>sb_backend := \<lambda>ns line body st. case build_sshsig_signed_data world_crypto body ns of
        Inl e \<Rightarrow> (Inl e, st) | Inr d \<Rightarrow> (Inr (cl_ed_sign world_crypto sample_ssh_key d), st)\<rparr>"

lemma world_binding_signs: "backend_signs world_crypto world_binding"
proof -
  have "extract_ed25519_pubkey_from_ssh world_crypto (ed25519_line sample_ssh_key) = Inr sample_ssh_key"
    by (intro extract_from_line) (simp_all add: sample_ssh_key_def)
  then show ?thesis
    by (auto simp: backend_signs_def world_binding_def sample_binding_def world_crypto_def split: sum.splits)
qed

definition world_request :: key_document_params where
  "world_request = sample_request\<lparr>kdp_github_account := None\<rparr>"

definition world_key_of :: "(u8 \<Rightarrow> json option) \<Rightarrow> public_key" where
  "world_key_of docs = projr (fst (build_public_key_document (world_lib docs) world_crypto world_request
     sample_material world_binding ()))"

definition world_key :: public_key where "world_key = world_key_of (\<lambda>_. None)"

lemma world_generated:
  "build_public_key_document (world_lib docs) world_crypto world_request sample_material world_binding () =
     (Inr world_key, ())"
proof -
  have sig: "\<exists>d. build_sshsig_signed_data world_crypto body ATTESTATION_NAMESPACE = Inr d" for body
    by (simp add: signed_data_Inr ATTESTATION_NAMESPACE_def U32_MAX_def)
  have safe: "all_integers_safe (se_identity_keys k)" "all_integers_safe (se_attestation a)" for k a
    by (simp_all add: se_identity_keys_def se_jwk_def se_attestation_def)
  have same: "build_public_key_document (world_lib docs) world_crypto world_request sample_material world_binding () =
      build_public_key_document (world_lib (\<lambda>_. None)) world_crypto world_request sample_material world_binding ()"
    unfolding build_public_key_document_def build_attestation_def build_attestation_body_bytes_def
      build_public_key_def world_jcs_normalize [of docs] ..
  obtain d where "build_sshsig_signed_data world_crypto [9] ATTESTATION_NAMESPACE = Inr d"
    using sig by blast
  then have "\<exists>pk. build_public_key_document (world_lib (\<lambda>_. None)) world_crypto world_request sample_material
      world_binding () = (Inr pk, ())"
    using safe
    by (simp add: build_public_key_document_def build_attestation_def build_attestation_body_bytes_def
        jcs_normalize_def se_attestation_body_def world_request_def sample_request_def build_binding_claims_def Let_def
        world_binding_def sample_binding_def build_public_key_def derive_public_key_kid_def se_pk_without_kid_def
        se_pk_protected_def se_kv_entry_def)
  then show ?thesis unfolding same by (auto simp: world_key_def world_key_of_def)
qed

definition world_context :: crypto_context where
  "world_context = \<lparr>cc_member_handle = MemberHandle ''alice'', cc_kid = Kid (pk_kid (pk_protected world_key)),
     cc_private_key = \<lparr>vpk_document = \<lparr>pkp_keys =
        \<lparr>ikp_kem = \<lparr>jpk_kty = ''OKP'', jpk_crv = ''X25519'', jpk_x = ''AA'',
                    jpk_d = encode_base64url_nopad (replicate 32 1)\<rparr>,
         ikp_sig = \<lparr>jpk_kty = ''OKP'', jpk_crv = ''Ed25519'', jpk_x = ''AA'', jpk_d = ''AA''\<rparr>\<rparr>\<rparr>,
        vpk_proof = \<lparr>dp_member_handle = ''alice'', dp_kid = ''K'', dp_ssh_fpr = None\<rparr>\<rparr>,
     cc_signing_key = replicate 32 2,
     cc_local_key_identity = \<lparr>lki_member_handle = MemberHandle ''alice'',
       lki_kid = Kid (pk_kid (pk_protected world_key)), lki_sig_x = replicate 32 2\<rparr>,
     cc_local_key_expiry = \<lparr>lke_private_expires_at = ''2027-01-01T00:00:00Z'', lke_public_expires_at = None\<rparr>,
     cc_selected_kid_override = None, cc_local_key_access = None\<rparr>"

definition world_env :: "(u8 \<Rightarrow> json option) \<Rightarrow> op_env" where
  "world_env docs = \<lparr>oe_json = world_lib docs, oe_crypto = world_crypto, oe_rfc3339 = \<lambda>_. Some 9, oe_now = 0,
     oe_timestamp = Inr ''2026-06-01T00:00:00Z'', oe_load_signer = \<lambda>_ _. Inr world_key\<rparr>"

lemma world_env_simps [simp]:
  "oe_json (world_env docs) = world_lib docs" "oe_crypto (world_env docs) = world_crypto"
  "oe_rfc3339 (world_env docs) s = Some 9" "oe_timestamp (world_env docs) = Inr ''2026-06-01T00:00:00Z''"
  "oe_load_signer (world_env docs) h k = Inr world_key"
  by (simp_all add: world_env_def)

lemma world_key_facts:
  "verify_signing_public_key (world_lib docs) world_crypto world_key =
     Inr \<lparr>vsk_document = world_key, vsk_verifying_key = replicate 32 2\<rparr>"
  "canonical_kid (pk_kid (pk_protected world_key))" "pk_subject_handle (pk_protected world_key) = ''alice''"
  "jwk_x (ik_sig (pk_keys (pk_protected world_key))) = encode_base64url_nopad (replicate 32 2)"
proof -
  have pair: "ed25519_pair world_crypto (km_sig_sk sample_material) (km_sig_pk sample_material)" by simp
  have len: "length (km_sig_pk sample_material) = 32" by (simp add: sample_material_def)
  note doc = generated_document [OF world_generated pair len world_binding_signs]
  show "verify_signing_public_key (world_lib docs) world_crypto world_key =
     Inr \<lparr>vsk_document = world_key, vsk_verifying_key = replicate 32 2\<rparr>"
    using doc(1) by (simp add: sample_material_def)
  show "pk_subject_handle (pk_protected world_key) = ''alice''"
    using doc(4) by (simp add: world_request_def sample_request_def)
  show "jwk_x (ik_sig (pk_keys (pk_protected world_key))) = encode_base64url_nopad (replicate 32 2)"
    using doc(5) by (simp add: sample_material_def)
  show "canonical_kid (pk_kid (pk_protected world_key))"
    using derive_public_key_kid_canonical [of "jcs_normalize (world_lib docs)" "cl_sha256 world_crypto"
        "se_pk_without_kid (pk_protected world_key)" "pk_kid (pk_protected world_key)"] doc(2,3)
    by (simp add: derive_kid_Inr)
qed

lemma PublicKey_new_parts:
  "pk_keys (pk_protected (PublicKey_new (parts\<lparr>pp_kid := k\<rparr>))) = pp_keys parts"
  "pk_binding_claims (pk_protected (PublicKey_new (parts\<lparr>pp_kid := k\<rparr>))) = pp_binding_claims parts"
  by (simp_all add: PublicKey_new_def)

lemma world_key_parts:
  "jwk_x (ik_kem (pk_keys (pk_protected world_key))) = encode_base64url_nopad (replicate 32 1)"
  "pk_binding_claims (pk_protected world_key) = None"
proof -
  from world_generated [of "\<lambda>_. None"] obtain parts where
    "build_public_key (world_lib (\<lambda>_. None)) world_crypto parts (km_sig_sk sample_material) = Inr world_key"
    and parts: "pp_keys parts = build_identity_keys (km_kem_pk sample_material) (km_sig_pk sample_material)"
    "pp_binding_claims parts = build_binding_claims (kdp_github_account world_request)"
    by (auto simp: build_public_key_document_def Let_def split: prod.splits sum.splits)
  from build_public_key_Inr(1) [OF this(1)]
  have "pk_keys (pk_protected world_key) = pp_keys parts" "pk_binding_claims (pk_protected world_key) = pp_binding_claims parts"
    by (metis PublicKey_new_parts)+
  then show "jwk_x (ik_kem (pk_keys (pk_protected world_key))) = encode_base64url_nopad (replicate 32 1)"
    "pk_binding_claims (pk_protected world_key) = None"
    by (simp_all add: parts build_identity_keys_def sample_material_def world_request_def build_binding_claims_def)
qed

lemma world_alice: "validate_member_handle ''alice'' = Inr ()"
  by (simp add: validate_member_handle_def ensure_member_handle_length_def
      ensure_member_handle_starts_alphanumeric_def ensure_member_handle_characters_def limit_defs member_handle_char_def
      ascii_class_defs)

lemma world_member_ok:
  "recipients_ok world_crypto [world_key]" "holds_key world_crypto world_context world_key"
proof -
  have dec: "decode_base64url_nopad_array 32 (encode_base64url_nopad (replicate 32 1)) = Inr (replicate 32 1)"
    by (simp add: arr.dec_iff)
  then have pair: "kem_pair world_crypto world_key (replicate 32 1)"
    by (auto simp: kem_pair_def world_key_parts(1))
  then show "recipients_ok world_crypto [world_key]"
    using world_key_facts(2,3) by (auto simp: recipients_ok_def labels_valid_def world_alice)
  show "holds_key world_crypto world_context world_key"
    using pair dec by (auto simp: holds_key_def world_context_def decode_kem_secret_key_def)
qed

definition world_signing :: signing_context where
  "world_signing = \<lparr>sc_signing_key = replicate 32 2, sc_signer_kid = pk_kid (pk_protected world_key),
     sc_signer_pub = world_key\<rparr>"

lemma world_signer:
  "env_signing_context (world_env docs) world_context = Inr world_signing"
  "signer_consistent (world_env docs) world_context"
proof -
  have "decode_base64url_nopad_array 32 (encode_base64url_nopad (replicate 32 2)) = Inr (replicate 32 2)"
    by (simp add: arr.dec_iff)
  then have "matches_public_key (cc_local_key_identity world_context) world_key = Inr True"
    using world_key_facts by (simp add: matches_public_key_iff world_context_def)
  then show "env_signing_context (world_env docs) world_context = Inr world_signing"
    using world_key_facts
    by (simp add: env_signing_context_def build_signing_context_def world_context_def world_signing_def
        verify_public_key_with_attestation_def ensure_signer_public_key_matches_signing_key_def
        Kid_from_canonical_iff enforce_not_expired_for_signing_def check_key_expiry_parsed select_status_def live_def world_env_def)
  show "signer_consistent (world_env docs) world_context"
    by (simp add: signer_consistent_def world_context_def)
qed

text \<open>The signature of every document of the member.\<close>

definition world_signature :: artifact_signature where
  "world_signature = expected_signature (world_lib (\<lambda>_. None)) world_crypto [] [] world_signing"

lemma world_expected_signature:
  "expected_signature (world_lib docs) world_crypto body mac world_signing = world_signature"
proof -
  have "possession_proof world_crypto body mac k = possession_proof world_crypto [] [] k" for k
    by (simp add: possession_proof_def world_crypto_def compute_hmac_sha256_tag_def)
  then show ?thesis
    by (simp add: world_signature_def expected_signature_def build_artifact_signature_def sign_detached_bytes_def
        world_crypto_def Let_def)
qed

section \<open>The file and its documents\<close>

definition world_fresh :: fresh_values where
  "world_fresh = \<lparr>fv_master_key = replicate 32 6, fv_sid = 1, fv_seal = \<lambda>_. [0], fv_nonce = \<lambda>_. replicate 24 3\<rparr>"

definition world_ctx :: kv_write_context where
  "world_ctx = \<lparr>kwc_member_handle = ''alice'', kwc_key_ctx = world_context\<rparr>"

definition world_head :: kv_header where
  "world_head = \<lparr>kvh_sid = 1, kvh_aead = AEAD_XCHACHA20_POLY1305, kvh_created_at = ''2026-06-01T00:00:00Z'',
     kvh_updated_at = ''2026-06-01T00:00:00Z''\<rparr>"

definition world_wrap :: kv_wrap where
  "world_wrap = \<lparr>kw_wrap = projr (build_wraps_for_recipients (world_lib (\<lambda>_. None)) world_crypto (\<lambda>_. [0])
     [world_key] 1 (replicate 32 6) KvWrap), kw_removed_recipients = None\<rparr>"

definition world_docs :: "u8 \<Rightarrow> json option" where
  "world_docs b = (if b = 0 then Some (se_kv_header (world_lib (\<lambda>_. None)) world_head)
     else if b = 1 then Some (se_kv_wrap world_wrap)
     else if b = 2 then Some (se_artifact_signature world_signature)
     else if b = 30 then Some (se_kv_entry (world_entry ''secret''))
     else if b = 31 then Some (se_kv_entry (world_entry ''changed'')) else None)"

lemma world_schedule:
  "kv_schedule_extract (world_lib docs) world_crypto (replicate 32 6) 1 = Inr world_schedule"
  by (simp add: kv_schedule_extract_def binding_defs context_defs world_schedule_def derive_hkdf_sha256_prk_def
      se_kv_entry_def)

lemma world_encrypts:
  "encrypt_entry (world_lib docs) world_crypto (replicate 24 3) ''K'' val world_schedule 1 False = Inr (world_entry val)"
proof -
  have "kv_derive_cek (world_lib docs) world_crypto world_schedule ''K'' n =
      Inr (the (cl_hkdf_expand world_crypto (ks_prk world_schedule) [9]))" for n
    by (simp add: kv_derive_cek_def binding_defs context_defs derive_hkdf_sha256_array_from_prk_def se_kv_entry_def)
      (simp add: world_crypto_def sample_crypto_def)
  moreover have "length (the (cl_hkdf_expand world_crypto (ks_prk world_schedule) [9])) = 32"
    by (simp add: world_crypto_def sample_crypto_def)
  moreover have "build_kv_entry_aad (world_lib docs) 1 ''K'' = Inr [9]"
    by (simp add: binding_defs context_defs se_kv_entry_def)
  moreover obtain y where "cl_aead_seal world_crypto (the (cl_hkdf_expand world_crypto (ks_prk world_schedule) [9]))
      (replicate 24 3) [9] (as_bytes val) = Some y"
    by (fastforce simp: world_crypto_def sample_crypto_def)
  ultimately show ?thesis
    by (auto simp: encrypt_entry_def XChaChaKey_from_slice_def xchacha_encrypt_def world_entry_def Let_def)
qed

lemma world_entry_facts:
  "ev_disclosed (world_entry val) = False"
  "length (ev_ct (world_entry val)) = compute_encoded_len (length val + 16)"
  by (simp_all add: world_entry_def Let_def encode_url_length) (simp add: world_crypto_def sample_crypto_def)

lemma world_entries_differ: "se_kv_entry (world_entry ''changed'') \<noteq> se_kv_entry (world_entry ''secret'')"
proof -
  have "length (ev_ct (world_entry ''changed'')) \<noteq> length (ev_ct (world_entry ''secret''))"
    by (simp add: world_entry_facts compute_encoded_len_def)
  then have "ev_ct (world_entry ''changed'') \<noteq> ev_ct (world_entry ''secret'')" by metis
  then show ?thesis by (simp add: se_kv_entry_def)
qed

lemma world_wraps:
  "build_wraps_for_recipients (world_lib docs) world_crypto (\<lambda>_. [0]) [world_key] 1 (replicate 32 6) KvWrap =
     Inr (kw_wrap world_wrap)"
proof -
  have same: "build_wraps_for_recipients (world_lib docs) world_crypto (\<lambda>_. [0]) [world_key] 1 (replicate 32 6) KvWrap =
      build_wraps_for_recipients (world_lib (\<lambda>_. None)) world_crypto (\<lambda>_. [0]) [world_key] 1 (replicate 32 6) KvWrap"
    unfolding build_wraps_for_recipients_def build_wrap_item_for_kv_def build_wrap_item_for_file_def build_wrap_item_def
      binding_defs world_jcs_normalize [of docs] context_defs world_lib_simps ..
  have "\<exists>ws. build_wraps_for_recipients (world_lib (\<lambda>_. None)) world_crypto (\<lambda>_. [0]) [world_key] 1
      (replicate 32 6) KvWrap = Inr ws"
  proof -
    obtain pk where "decode_base64url_nopad_array 32 (jwk_x (ik_kem (pk_keys (pk_protected world_key)))) = Inr pk"
      using world_member_ok(2) by (auto simp: holds_key_def kem_pair_def)
    moreover have "\<exists>p. cl_hpke_seal world_crypto rnd pk info aad m = Some p" for rnd pk info aad m
      by (simp add: world_crypto_def sample_crypto_def)
    ultimately show ?thesis
      by (auto simp: build_wraps_for_recipients_def build_wrap_item_for_kv_def build_wrap_item_def seal_base_def
          binding_total limit_defs Let_def)
  qed
  then show ?thesis unfolding same by (auto simp: world_wrap_def)
qed

lemma world_codes:
  "world_jcs (se_kv_header (world_lib docs) h) = [0]" "world_jcs (se_kv_wrap w) = [1]"
  "world_jcs (se_artifact_signature sg) = [2]"
  by (cases "kw_removed_recipients w"; simp add: se_kv_header_def se_kv_wrap_def se_artifact_signature_def)+

lemma world_entry_codes:
  "world_jcs (se_kv_entry e) = (if se_kv_entry e = se_kv_entry (world_entry ''secret'') then [30]
     else if se_kv_entry e = se_kv_entry (world_entry ''changed'') then [31] else [9])"
proof -
  obtain ms where ms: "se_kv_entry e = JObj ms" by (simp add: se_kv_entry_def)
  have "''updated_at'' \<notin> fst ` set ms" "''wrap'' \<notin> fst ` set ms" "''mac'' \<notin> fst ` set ms"
    using ms by (auto simp: se_kv_entry_def split: if_splits)
  then show ?thesis unfolding ms by (simp only: world_jcs.simps if_False)
qed

lemma world_signature_wf: "wf_json (se_artifact_signature world_signature)"
  by (rule wf_se_artifact_signature) (simp add: world_signature_def world_signing_def world_key_parts(2))

lemma world_stored:
  "storable (world_lib world_docs) target (se_kv_header (world_lib docs) world_head)"
  "storable (world_lib world_docs) target (se_kv_wrap world_wrap)"
  "storable (world_lib world_docs) target (se_artifact_signature world_signature)"
  "storable (world_lib world_docs) target (se_kv_entry (world_entry ''secret''))"
  "storable (world_lib world_docs) target (se_kv_entry (world_entry ''changed''))"
proof -
  show "storable (world_lib world_docs) target (se_kv_header (world_lib docs) world_head)"
    by (rule world_storable [where b = 0]) (simp_all add: world_docs_def world_codes, simp add: se_kv_header_def)
  show "storable (world_lib world_docs) target (se_kv_wrap world_wrap)"
    by (rule world_storable [where b = 1]) (simp_all add: world_docs_def world_codes)
  show "storable (world_lib world_docs) target (se_artifact_signature world_signature)"
    by (rule world_storable [where b = 2]) (simp_all add: world_docs_def world_codes world_signature_wf)
  show "storable (world_lib world_docs) target (se_kv_entry (world_entry ''secret''))"
    by (rule world_storable [where b = 30]) (simp_all add: world_docs_def world_entry_codes world_entries_differ)
  show "storable (world_lib world_docs) target (se_kv_entry (world_entry ''changed''))"
    by (rule world_storable [where b = 31]) (simp_all add: world_docs_def world_entry_codes world_entries_differ)
qed

definition world_text :: "(string \<times> string) list \<Rightarrow> string" where
  "world_text es = build_unsigned_kv_document (encode_base64url_nopad [0]) (encode_base64url_nopad [1]) es @
     '':SIG '' @ encode_base64url_nopad [2] @ [LF]"

lemma world_signs:
  assumes "dr_head d = world_head" and "dr_wrap d = ws_decoded world_wrap"
  shows "sign_unsigned_kv_document (world_lib docs) world_crypto d (replicate 32 6) world_signing =
    Inr (world_text (map (\<lambda>e. (de_key e, de_token e)) (dr_entries d)))"
proof -
  have sid: "kvh_sid world_head = 1" by (simp add: world_head_def)
  have "\<exists>mac. kv_derive_mac_key (world_lib docs) world_crypto world_schedule = Inr mac"
    by (simp add: kv_derive_mac_key_def binding_defs crypto_wrapper_defs world_crypto_def sample_crypto_def)
  then show ?thesis
    by (auto simp: sign_unsigned_kv_document_def assms sid world_schedule serialize_unsigned_def resolve_wrap_token_def
        ws_decoded_def world_token world_codes sign_kv_document_eq world_expected_signature world_signature_wf
        world_text_def)
qed

definition world_draft :: kv_draft where
  "world_draft = \<lparr>dr_head = world_head, dr_wrap = ws_decoded world_wrap,
     dr_entries = [Encoded ''K'' (encode_base64url_nopad [30])]\<rparr>"

lemma world_built:
  "mutate world_wrap = Inr world_wrap \<Longrightarrow>
   build_encrypted_kv (world_env docs) world_fresh (hash_collect [(''K'', ''secret'')]) [world_key] False mutate =
     Inr (world_draft, replicate 32 6)"
proof -
  assume "mutate world_wrap = Inr world_wrap"
  have kv: "hash_collect [(''K'', ''secret'')] = [(''K'', ''secret'')]" by (simp add: hash_collect_def)
  have fresh: "fv_sid world_fresh = 1" "fv_master_key world_fresh = replicate 32 6" "fv_seal world_fresh = (\<lambda>_. [0])"
    "fv_nonce world_fresh = (\<lambda>_. replicate 24 3)" by (simp_all add: world_fresh_def)
  have "build_kv_encryption (world_lib docs) world_crypto world_fresh [world_key] 1 ''2026-06-01T00:00:00Z'' =
      Inr (replicate 32 6, world_head, world_wrap)"
    unfolding build_kv_encryption_def fresh world_wraps Let_def res_bind_simps
    by (simp only: world_head_def world_wrap_def kv_wrap.simps)
  moreover have "encrypt_kv_entries (world_lib docs) world_crypto (\<lambda>_. replicate 24 3) [(''K'', ''secret'')] (replicate 32 6) 1 False =
      Inr [(''K'', world_entry ''secret'')]"
    unfolding encrypt_kv_entries_def world_schedule by (simp add: world_encrypts)
  moreover have "encode_kv_entries_to_tokens (world_lib docs) [(''K'', world_entry ''secret'')] =
      Inr [(''K'', encode_base64url_nopad [30])]"
    by (simp add: encode_kv_entries_to_tokens_def world_token world_entry_codes)
  ultimately show ?thesis using \<open>mutate world_wrap = Inr world_wrap\<close>
    by (simp add: kv build_encrypted_kv_def fresh Let_def builder_with_entries_def builder_new_def world_draft_def)
qed

section \<open>The properties applied\<close>

lemma world_text_length: "length (world_text (map (\<lambda>k. (k, encode_base64url_nopad [b])) ks)) \<le> 100 + 10 * length ks"
  if "\<forall>k\<in>set ks. length k = 1"
proof -
  have "length (concat (map (\<lambda>(k, t). k @ '' '' @ t @ [LF]) (map (\<lambda>k. (k, encode_base64url_nopad [b])) ks))) \<le> 10 * length ks"
    using that by (induction ks) (auto simp: short_token)
  then show ?thesis
    by (simp add: world_text_def build_unsigned_kv_document_def short_token HEADER_LINE_V1_def)
qed

lemma world_token_entry:
  assumes "token_encode (world_lib docs) (se_kv_entry v) = Inr (encode_base64url_nopad [b])"
    and "b = 30 \<or> b = 31"
  shows "se_kv_entry v = se_kv_entry (world_entry (if b = 30 then ''secret'' else ''changed''))"
proof -
  obtain c where c: "world_jcs (se_kv_entry v) = [c]" using world_jcs_one by blast
  have fits: "url_fits MAX_BASE64_CIPHERTEXT_LENGTH [x]" for x
    by (simp add: url_fits_def compute_encoded_len_def limit_defs)
  have "encode_base64url_nopad [c] = encode_base64url_nopad [b]"
    using assms(1) by (simp add: world_token c)
  then have "c = b" using url.enc_inj [OF fits fits] by blast
  then show ?thesis using c assms(2) unfolding world_entry_codes by (auto split: if_splits)
qed

definition world_file :: kv_enc_content where
  "world_file = KvEncContent (world_text [(''K'', encode_base64url_nopad [30])])"

lemma world_creates:
  "set_kv_entry_with_recipients (world_env docs) world_fresh None [(''K'', ''secret'')] [world_key] world_ctx = Inr world_file"
  by (simp add: set_kv_entry_with_recipients_def set_kv_new_file_def encrypt_kv_map_with_key_context_def
      encrypt_kv_map_with_wrap_mutation_def world_ctx_def world_signer(1) world_built world_file_def)
    (simp add: world_signs world_draft_def)

lemma world_carried:
  assumes "dr_head d = world_head" and "dr_wrap d = ws_decoded world_wrap"
    and "map de_key (dr_entries d) = ks" and "\<forall>e\<in>set (dr_entries d). de_token e = encode_base64url_nopad [b]"
    and "b = 30 \<or> b = 31" and "length ks \<le> 1" and "\<forall>k\<in>set ks. length k = 1"
  shows "written_carried (world_env world_docs) world_context d (replicate 32 6)
     (world_text (map (\<lambda>k. (k, encode_base64url_nopad [b])) ks))"
proof -
  have "length (world_text (map (\<lambda>k. (k, encode_base64url_nopad [b])) ks)) \<le> MAX_KV_ENC_FILE_SIZE"
    using world_text_length [OF assms(7), of b] assms(6) by (simp add: limit_defs)
  moreover have "length (dr_entries d) \<le> MAX_KV_KEY_LINES"
    using assms(3,6) by (auto simp: limit_defs)
  moreover have "storable (world_lib world_docs) SchemaKvEntry (se_kv_entry v)"
    if "e \<in> set (dr_entries d)" "token_encode (world_lib world_docs) (se_kv_entry v) = Inr (de_token e)" for e v
    using world_token_entry [of world_docs v b] that assms(4,5) world_stored(4,5) by auto
  ultimately show ?thesis
    using world_stored(1-3)
    by (auto simp: written_carried_def Let_def assms(1,2) ws_decoded_def world_signer(1) world_expected_signature
        world_head_def)
qed

lemma world_fresh_ok: "fresh_ok world_fresh"
  by (simp add: fresh_ok_def world_fresh_def)

lemma world_entries_ok: "entries_ok [(''K'', ''secret'')]" "entries_ok [(''K'', ''changed'')]"
  by (simp_all add: entries_ok_def is_valid_key_name_def ascii_class_defs limit_defs)

lemma new_kv_file_holds_entries_witness:
  "set_kv_entry_with_recipients (world_env world_docs) world_fresh None [(''K'', ''secret'')] [world_key] world_ctx =
     Inr (KvEncContent (world_text [(''K'', encode_base64url_nopad [30])])) \<and>
   kv_holds (world_env world_docs) [world_key] (world_text [(''K'', encode_base64url_nopad [30])])
     [''K'' \<mapsto> as_bytes ''secret'']"
proof -
  have ctx: "kwc_key_ctx world_ctx = world_context" by (simp add: world_ctx_def)
  have created: "set_kv_entry_with_recipients (world_env world_docs) world_fresh None [(''K'', ''secret'')] [world_key] world_ctx =
     Inr (KvEncContent (world_text [(''K'', encode_base64url_nopad [30])]))"
    using world_creates by (simp add: world_file_def)
  have "written_carried (world_env world_docs) world_context world_draft (replicate 32 6)
      (world_text (map (\<lambda>k. (k, encode_base64url_nopad [30])) [''K'']))"
    by (rule world_carried) (simp_all add: world_draft_def)
  then have carried: "written_carried (world_env world_docs) (kwc_key_ctx world_ctx) d mk
      (world_text [(''K'', encode_base64url_nopad [30])])"
    if "build_encrypted_kv (world_env world_docs) world_fresh (hash_collect [(''K'', ''secret'')]) [world_key] False Inr =
      Inr (d, mk)" for d mk
    using that by (simp add: world_built ctx)
  have "assigned [(''K'', ''secret'')] = [''K'' \<mapsto> as_bytes ''secret'']"
    by (auto simp: assigned_def fun_eq_iff)
  then show ?thesis
    using new_kv_file_holds_entries [OF created _ _ _ world_fresh_ok _ world_entries_ok(1) carried]
      world_signer(2) world_member_ok(1) created by (simp add: ctx)
qed

text \<open>What the member reads in the file, and the draft a rewrite of it starts from.\<close>

lemma world_reads:
  "\<exists>v kv. editor_reads (world_env world_docs) world_ctx world_file v kv \<and> map_of kv = [''K'' \<mapsto> as_bytes ''secret''] \<and>
     kvd_head (vd_document v) = world_head \<and> kvd_wrap (vd_document v) = world_wrap \<and>
     map ke_key (kvd_entries (vd_document v)) = [''K''] \<and>
     map ke_token (kvd_entries (vd_document v)) = [encode_base64url_nopad [30]] \<and>
     map ke_value (kvd_entries (vd_document v)) = [world_entry ''secret''] \<and>
     session_unwrap_master_key (world_env world_docs) (session_of world_ctx v) = Inr (replicate 32 6)"
proof -
  let ?E = "world_env world_docs" and ?J = "world_lib world_docs" and ?text = "world_text [(''K'', encode_base64url_nopad [30])]"
  have sign: "sign_unsigned_kv_document (oe_json ?E) (oe_crypto ?E) world_draft (replicate 32 6) world_signing = Inr ?text"
    by (simp add: world_signs world_draft_def)
  have "written_carried ?E world_context world_draft (replicate 32 6)
      (world_text (map (\<lambda>k. (k, encode_base64url_nopad [30])) [''K'']))"
    by (rule world_carried) (simp_all add: world_draft_def)
  then have carried: "written_carried ?E world_context world_draft (replicate 32 6) ?text" by simp
  have wrap: "ws_token (dr_wrap world_draft) = None" by (simp add: world_draft_def ws_decoded_def)
  have ws: "kv_wrap.wraps_all ?J world_crypto (\<lambda>_. [0]) [world_key] 1 (replicate 32 6) = Inr (kw_wrap world_wrap)"
    using world_wraps [of world_docs] by (simp add: build_wraps_eq)
  have len: "length (replicate 32 (6 :: u8)) = 32" by simp
  have members: "\<forall>m\<in>set [world_key]. labels_valid m \<and> (\<exists>sk. kem_pair world_crypto m sk)"
    "distinct (map (\<lambda>m. pk_subject_handle (pk_protected m)) [world_key])" "length [world_key] \<le> MAX_WRAP_ITEMS"
    using world_member_ok(1) by (auto simp: recipients_ok_def limit_defs)
  have valid: "validate_wrap_items (kw_wrap (ws_data (dr_wrap world_draft))) = Inr ()"
    using kv_wrap.wraps_all_valid [OF ws len members] by (simp add: world_draft_def ws_decoded_def)
  have entry: "token_encode (oe_json ?E) (se_kv_entry (world_entry ''secret'')) = Inr (encode_base64url_nopad [30])"
    by (simp add: world_token world_entry_codes)
  then have vs: "list_all2 (\<lambda>e v. parse_kv_entry_token (oe_json ?E) (de_token e) = Inr v) (dr_entries world_draft)
      [world_entry ''secret'']"
    using token_of_entry_parses [OF carried, of "Encoded ''K'' (encode_base64url_nopad [30])" "world_entry ''secret''"]
    by (simp add: world_draft_def)
  have keys: "draft_inv world_draft" "\<forall>e\<in>set (dr_entries world_draft). is_valid_key_name (de_key e)"
    using world_entries_ok(1) by (simp_all add: world_draft_def draft_inv_def entries_ok_def)
  have crypto: "hmac_ok (oe_crypto ?E)" "aead_ok (oe_crypto ?E)" "recipients_ok (oe_crypto ?E) [world_key]"
    using world_member_ok(1) by simp_all
  from written_document [OF sign world_signer crypto(1) carried _ valid keys vs] wrap
  obtain v ks where v: "verify_kv_content ?J world_crypto (oe_rfc3339 ?E) (oe_now ?E) world_file = Inr v"
    "kvd_head (vd_document v) = world_head" "kvd_wrap (vd_document v) = world_wrap"
    "map ke_key (kvd_entries (vd_document v)) = [''K'']"
    "map ke_token (kvd_entries (vd_document v)) = [encode_base64url_nopad [30]]"
    "map ke_value (kvd_entries (vd_document v)) = [world_entry ''secret'']"
    and possession: "verify_kv_key_possession ?J world_crypto v (replicate 32 6) =
      Inr \<lparr>kkp_document = v, kkp_master_key = replicate 32 6, kkp_key_schedule = ks\<rparr>"
    by (auto simp: world_file_def world_draft_def ws_decoded_def)
  have entries: "entries_ok (hash_collect [(''K'', ''secret'')])" "distinct (map fst (hash_collect [(''K'', ''secret'')]))"
    using world_entries_ok by (simp_all add: hash_collect_def)
  have "kv_holds ?E [world_key] ?text (assigned (hash_collect [(''K'', ''secret'')]))"
    by (rule encrypted_map_holds [OF world_built [where mutate = Inr, OF refl] sign _ world_signer crypto(1,2) world_fresh_ok crypto(3) entries carried]) simp
  moreover have "assigned (hash_collect [(''K'', ''secret'')]) = [''K'' \<mapsto> as_bytes ''secret'']"
    by (auto simp: assigned_hash_collect assigned_def fun_eq_iff)
  ultimately obtain kv info where kv: "decrypt_kv_document_with_context ?J world_crypto v ''alice'' world_context = Inr (kv, info)"
    "map_of kv = [''K'' \<mapsto> as_bytes ''secret'']"
    using v(1) world_member_ok(2) world_key_facts(3) by (fastforce simp: kv_holds_def world_file_def)
  have "session_unwrap_master_key ?E (session_of world_ctx v) = Inr (replicate 32 6)"
    using kv_recipient_unwraps [OF ws len members(1,2,3), of world_key world_context] world_member_ok(2) possession world_key_facts(3)
    by (simp add: session_unwrap_master_key_def session_of_def world_ctx_def unwrap_master_key_from_verified_def
        Let_def v(2,3)) (simp add: world_head_def)
  then show ?thesis
    using v kv by (intro exI [of _ v] exI [of _ kv]) (auto simp: editor_reads_def world_ctx_def world_head_def)
qed

lemma world_rewrites:
  assumes "kvd_head (vd_document v) = world_head" and "kvd_wrap (vd_document v) = world_wrap"
    and "editor_reads (world_env docs) world_ctx world_file v kv"
    and "session_unwrap_master_key (world_env docs) (session_of world_ctx v) = Inr (replicate 32 6)"
    and "map ke_key (kvd_entries (vd_document v)) = ks"
  shows "\<exists>d0. dr_head d0 = world_head \<and> map de_key (dr_entries d0) = ks \<and>
    rewritten_draft (world_env docs) world_fresh (session_of world_ctx v) [world_key] mutate =
      res_bind (mutate d0 (session_of world_ctx v) (replicate 32 6)) (\<lambda>d. Inr (set_wrap world_wrap d, replicate 32 6))"
proof -
  have document: "session_document (session_of world_ctx v) = vd_document v"
    by (simp add: session_document_def session_of_def)
  have head: "build_updated_header (world_env docs) (vd_document v) = Inr world_head"
    by (simp add: build_updated_header_def assms(1)) (simp add: world_head_def)
  from assms(3) obtain body where "parse_kv_document (world_lib docs) body = Inr (vd_document v)"
    by (auto simp: editor_reads_def world_file_def verify_kv_content_def verify_kv_document_def
        verify_signature_with_loaded_key_def verify_loaded_kv_signature_def)
  then obtain token where token: "find_map wrap_token_of (kvd_lines (vd_document v)) = Some token"
    "parse_kv_wrap_token (world_lib docs) token = Inr (kvd_wrap (vd_document v))"
    using parse_kv_document_wrap by blast
  let ?d0 = "\<lparr>dr_head = world_head, dr_wrap = ws_raw (kvd_wrap (vd_document v)) token,
    dr_entries = map (\<lambda>e. Preserved (ke_key e) (ke_token e) (ke_value e)) (kvd_entries (vd_document v))\<rparr>"
  have d0: "build_unsigned (world_lib docs) (session_of world_ctx v) world_head = Inr ?d0"
    using token by (simp add: build_unsigned_def builder_from_document_def wrap_source_from_lines_def
        resolve_wrap_source_def document)
  have wrap: "build_current_wrap (world_lib docs) world_crypto (fv_seal world_fresh) (kvh_sid world_head) [world_key]
      (replicate 32 6) (kw_removed_recipients world_wrap) = Inr world_wrap"
    using world_wraps [of docs] by (simp add: build_current_wrap_def world_fresh_def world_head_def)
  have "map de_key (dr_entries ?d0) = ks" using assms(5) by (simp add: comp_def)
  then show ?thesis
    by (intro exI [of _ ?d0])
      (simp add: rewritten_draft_def document head assms(1,2,4) d0 wrap Let_def)
qed

lemma world_session_signs:
  assumes "dr_head d = world_head"
  shows "session_sign (world_env docs) (session_of world_ctx v) (set_wrap world_wrap d) (replicate 32 6) =
    Inr (world_text (map (\<lambda>e. (de_key e, de_token e)) (dr_entries d)))"
  using assms by (simp add: session_sign_def session_of_def world_ctx_def world_signer(1) world_signs set_wrap_def)

lemma world_set_mutation:
  assumes "dr_head d0 = world_head" and "map de_key (dr_entries d0) = [''K'']" and "kvd_head (vd_document v) = world_head"
  shows "set_entries_mutation (world_env docs) world_fresh [(''K'', ''changed'')] d0 (session_of world_ctx v) (replicate 32 6) =
    Inr (d0\<lparr>dr_entries := [Encoded ''K'' (encode_base64url_nopad [31])]\<rparr>)"
proof -
  have fresh: "fv_nonce world_fresh = (\<lambda>_. replicate 24 3)" by (simp add: world_fresh_def)
  have sid: "kvh_sid (kvd_head (session_document (session_of world_ctx v))) = 1"
    using assms(3) by (simp add: session_document_def session_of_def) (simp add: world_head_def)
  have "build_entry_tokens (world_lib docs) world_crypto (\<lambda>_. replicate 24 3) [(''K'', ''changed'')] (replicate 32 6) 1 =
      Inr [(''K'', encode_base64url_nopad [31])]"
    unfolding build_entry_tokens_def world_schedule
    by (simp add: world_encrypts world_token world_entry_codes world_entries_differ hash_collect_def)
  moreover obtain e where "dr_entries d0 = [e]" "de_key e = ''K''" using assms(2) by (cases "dr_entries d0") auto
  then have "set_entries [(''K'', encode_base64url_nopad [31])] d0 = d0\<lparr>dr_entries := [Encoded ''K'' (encode_base64url_nopad [31])]\<rparr>"
    by (simp add: set_entries_def set_entry_list_def Let_def)
  ultimately show ?thesis by (simp add: set_entries_mutation_def fresh sid)
qed

lemma set_updates_map_witness:
  "\<exists>text. set_kv_entry_with_recipients (world_env world_docs) world_fresh (Some world_file) [(''K'', ''changed'')]
     [world_key] world_ctx = Inr (KvEncContent text) \<and>
   kv_holds (world_env world_docs) [world_key] text [''K'' \<mapsto> as_bytes ''changed'']"
proof -
  let ?text = "world_text [(''K'', encode_base64url_nopad [31])]" and ?E = "world_env world_docs"
  obtain v kv where reads: "editor_reads ?E world_ctx world_file v kv" "map_of kv = [''K'' \<mapsto> as_bytes ''secret'']"
    and v: "kvd_head (vd_document v) = world_head" "kvd_wrap (vd_document v) = world_wrap"
    "map ke_key (kvd_entries (vd_document v)) = [''K'']"
    "session_unwrap_master_key ?E (session_of world_ctx v) = Inr (replicate 32 6)"
    using world_reads by (elim exE conjE) (rule that)
  obtain d0 where d0: "dr_head d0 = world_head" "map de_key (dr_entries d0) = [''K'']"
    and draft: "rewritten_draft ?E world_fresh (session_of world_ctx v) [world_key]
      (set_entries_mutation ?E world_fresh [(''K'', ''changed'')]) =
      res_bind (set_entries_mutation ?E world_fresh [(''K'', ''changed'')] d0 (session_of world_ctx v) (replicate 32 6))
        (\<lambda>d. Inr (set_wrap world_wrap d, replicate 32 6))"
    using world_rewrites [OF v(1,2) reads(1) v(4,3), of "set_entries_mutation ?E world_fresh [(''K'', ''changed'')]"]
    by (elim exE conjE) (rule that)
  let ?d = "set_wrap world_wrap (d0\<lparr>dr_entries := [Encoded ''K'' (encode_base64url_nopad [31])]\<rparr>)"
  have rewritten: "rewritten_draft ?E world_fresh (session_of world_ctx v) [world_key]
      (set_entries_mutation ?E world_fresh [(''K'', ''changed'')]) = Inr (?d, replicate 32 6)"
    by (simp add: draft world_set_mutation [OF d0 v(1)])
  have created: "set_kv_entry_with_recipients ?E world_fresh (Some world_file) [(''K'', ''changed'')] [world_key] world_ctx =
      Inr (KvEncContent ?text)"
    by (simp add: set_kv_entry_with_recipients_def set_kv_existing_file_def rewrite_existing_kv_content_def
        editor_session(1) [OF reads(1)] rewritten world_session_signs d0(1))
  have "written_carried ?E world_context ?d (replicate 32 6) (world_text (map (\<lambda>k. (k, encode_base64url_nopad [31])) [''K'']))"
    by (rule world_carried) (simp_all add: d0(1) set_wrap_def)
  then have carried: "written_carried ?E (kwc_key_ctx world_ctx) d mk ?text"
    if "rewritten_draft ?E world_fresh (session_of world_ctx v) [world_key]
      (set_entries_mutation ?E world_fresh [(''K'', ''changed'')]) = Inr (d, mk)" for d mk
    using that by (simp add: rewritten) (simp add: world_ctx_def)
  have "kv_holds ?E [world_key] ?text (map_of kv ++ assigned [(''K'', ''changed'')])"
    using world_signer(2) world_member_ok(1)
    by (intro set_updates_map [OF reads(1) created _ _ _ world_fresh_ok _ world_entries_ok(2) carried])
      (simp_all add: world_ctx_def)
  moreover have "map_of kv ++ assigned [(''K'', ''changed'')] = [''K'' \<mapsto> as_bytes ''changed'']"
    unfolding reads(2) by (auto simp: assigned_def fun_eq_iff map_add_def split: option.splits)
  ultimately show ?thesis using created by (intro exI [of _ ?text]) simp
qed

lemma unset_removes_key_witness:
  "\<exists>text. unset_kv_entry_with_recipients (world_env world_docs) world_fresh world_file ''K'' [world_key] world_ctx = Inr text \<and>
   kv_holds (world_env world_docs) [world_key] text Map.empty"
proof -
  let ?text = "world_text []" and ?E = "world_env world_docs"
  obtain v kv where reads: "editor_reads ?E world_ctx world_file v kv" "map_of kv = [''K'' \<mapsto> as_bytes ''secret'']"
    and v: "kvd_head (vd_document v) = world_head" "kvd_wrap (vd_document v) = world_wrap"
    "map ke_key (kvd_entries (vd_document v)) = [''K'']"
    "session_unwrap_master_key ?E (session_of world_ctx v) = Inr (replicate 32 6)"
    using world_reads by (elim exE conjE) (rule that)
  obtain d0 where d0: "dr_head d0 = world_head" "map de_key (dr_entries d0) = [''K'']"
    and draft: "rewritten_draft ?E world_fresh (session_of world_ctx v) [world_key] (unset_entry_mutation ''K'') =
      res_bind (unset_entry_mutation ''K'' d0 (session_of world_ctx v) (replicate 32 6))
        (\<lambda>d. Inr (set_wrap world_wrap d, replicate 32 6))"
    using world_rewrites [OF v(1,2) reads(1) v(4,3), of "unset_entry_mutation ''K''"]
    by (elim exE conjE) (rule that)
  have "contains_key (kvd_lines (vd_document v)) ''K''"
    using reads(1) v(3) verified_entries(3) unfolding editor_reads_def
    by (metis list.set_intros(1) list.set_map)
  moreover obtain e where "dr_entries d0 = [e]" "de_key e = ''K''" using d0(2) by (cases "dr_entries d0") auto
  ultimately have unset: "unset_entry_mutation ''K'' d0 (session_of world_ctx v) (replicate 32 6) = Inr (d0\<lparr>dr_entries := []\<rparr>)"
    by (simp add: unset_entry_mutation_def session_document_def session_of_def unset_entry_def)
  let ?d = "set_wrap world_wrap (d0\<lparr>dr_entries := []\<rparr>)"
  have created: "unset_kv_entry_with_recipients ?E world_fresh world_file ''K'' [world_key] world_ctx = Inr ?text"
    by (simp add: unset_kv_entry_with_recipients_def rewrite_existing_kv_content_def
        editor_session(1) [OF reads(1)] draft unset world_session_signs d0(1))
  have "written_carried ?E world_context ?d (replicate 32 6) (world_text (map (\<lambda>k. (k, encode_base64url_nopad [30])) []))"
    by (rule world_carried) (simp_all add: d0(1) set_wrap_def)
  then have carried: "written_carried ?E (kwc_key_ctx world_ctx) d mk ?text"
    if "rewritten_draft ?E world_fresh (session_of world_ctx v) [world_key] (unset_entry_mutation ''K'') = Inr (d, mk)" for d mk
    using that by (simp add: draft unset) (simp add: world_ctx_def)
  have "kv_holds ?E [world_key] ?text ((map_of kv)(''K'' := None))"
    using world_signer(2) world_member_ok(1)
    by (intro unset_removes_key [OF reads(1) created _ _ _ carried]) (simp_all add: world_ctx_def)
  then show ?thesis using created reads(2) by (intro exI [of _ ?text]) simp
qed

lemma unset_absent_key_refused_witness:
  "unset_kv_entry_with_recipients (world_env world_docs) world_fresh world_file ''L'' [world_key] world_ctx =
     Inl build_key_not_found_error"
proof -
  obtain v kv where reads: "editor_reads (world_env world_docs) world_ctx world_file v kv"
    "map_of kv = [''K'' \<mapsto> as_bytes ''secret'']"
    using world_reads by (elim exE conjE) (rule that)
  then have "''L'' \<notin> fst ` set kv" by (simp flip: dom_map_of_conv_image_fst)
  then show ?thesis
    using unset_absent_key_refused [OF reads(1), of _ "''L''" world_fresh "[world_key]"] by simp
qed

end
