(* ===== verification/File_World.thy ===== *)
theory File_World
  imports Rewrap_File Kv_World
begin

text \<open>
  The member of \<open>Kv_World\<close> encrypts a file for itself; the printer prints every document as one byte.
\<close>

definition world_print :: "json \<Rightarrow> string" where "world_print j = ''F''"

lemma wf_se_file_protected: "wf_json (se_file_protected J p)"
  by (cases "fe_removed_recipients p")
    (auto simp: se_file_protected_def se_file_payload_def less_char_def)

definition world_file_document :: "u8 list \<Rightarrow> file_enc_document" where
  "world_file_document content = projr (encrypt_file_document (world_env (\<lambda>_. None)) world_fresh content
     [''alice''] [world_key] world_signing)"

lemma world_encrypts_file:
  "encrypt_file_document (world_env docs) world_fresh content [''alice''] [world_key] world_signing =
     Inr (world_file_document content)"
proof -
  have same: "encrypt_file_document (world_env docs) world_fresh content [''alice''] [world_key] world_signing =
      encrypt_file_document (world_env (\<lambda>_. None)) world_fresh content [''alice''] [world_key] world_signing"
    unfolding encrypt_file_document_def encrypt_content_into_payload_def encrypt_payload_def assemble_file_enc_protected_def
      finalize_file_document_signature_def sign_file_document_def build_file_signature_bytes_def
      file_schedule_extract_def file_derive_content_key_def file_derive_mac_key_def encrypt_file_payload_content_def
      build_wraps_for_recipients_def build_wrap_item_for_kv_def build_wrap_item_for_file_def build_wrap_item_def
      build_artifact_signature_input_def build_artifact_signature_header_def
      binding_defs context_defs se_file_payload_header_def se_file_protected_def se_file_payload_def
      world_env_simps Let_def world_lib_simps world_jcs_normalize [of docs] ..
  let ?J = "world_lib (\<lambda>_. None)"
  have keys: "\<exists>ks. file_schedule_extract ?J world_crypto mk sid = Inr ks"
    "\<exists>k. file_derive_content_key ?J world_crypto ks = Inr k" "\<exists>k. file_derive_mac_key ?J world_crypto ks = Inr k" for mk sid ks
    by (simp_all add: file_schedule_extract_def file_derive_content_key_def file_derive_mac_key_def binding_defs
        crypto_wrapper_defs) (simp_all add: world_crypto_def sample_crypto_def)
  have wraps: "\<exists>ws. build_wraps_for_recipients ?J world_crypto rnd [world_key] sid mk FileWrap = Inr ws" for rnd sid mk
  proof -
    obtain pk where "decode_base64url_nopad_array 32 (jwk_x (ik_kem (pk_keys (pk_protected world_key)))) = Inr pk"
      using world_member_ok(2) by (auto simp: holds_key_def kem_pair_def)
    moreover have "\<exists>p. cl_hpke_seal world_crypto rnd pk info aad m = Some p" for rnd pk info aad m
      by (simp add: world_crypto_def sample_crypto_def)
    ultimately show ?thesis
      by (auto simp: build_wraps_for_recipients_def build_wrap_item_for_file_def build_wrap_item_def seal_base_def
          binding_total limit_defs Let_def)
  qed
  have payload: "\<exists>e. encrypt_payload ?J world_crypto n content k sid = Inr e" for n k sid
  proof -
    have "\<exists>ct. cl_aead_seal world_crypto k n aad m = Some ct" for aad m
      by (simp add: world_crypto_def sample_crypto_def)
    then show ?thesis
      by (auto simp: encrypt_payload_def encrypt_file_payload_content_def binding_total xchacha_encrypt_def Let_def)
  qed
  have signs: "\<exists>d. finalize_file_document_signature ?J world_crypto p mac world_signing = Inr d" for p mac
  proof -
    have "wf_json (se_file_protected ?J p)" by (rule wf_se_file_protected)
    then show ?thesis
      by (simp add: finalize_file_document_signature_def sign_file_document_eq build_file_signature_bytes_def)
  qed
  have "\<exists>d. encrypt_file_document (world_env (\<lambda>_. None)) world_fresh content [''alice''] [world_key] world_signing = Inr d"
  proof -
    obtain ks k mac where "file_schedule_extract ?J world_crypto (fv_master_key world_fresh) (fv_sid world_fresh) = Inr ks"
      "file_derive_content_key ?J world_crypto ks = Inr k" "file_derive_mac_key ?J world_crypto ks = Inr mac"
      using keys by metis
    moreover obtain h e where "encrypt_payload ?J world_crypto (fv_nonce world_fresh 0) content k (fv_sid world_fresh) = Inr (h, e)"
      using payload by (metis surj_pair)
    moreover obtain ws where "build_wraps_for_recipients ?J world_crypto (fv_seal world_fresh) [world_key]
        (fv_sid world_fresh) (fv_master_key world_fresh) FileWrap = Inr ws" using wraps by blast
    ultimately show ?thesis
      using signs by (simp add: encrypt_file_document_def encrypt_content_into_payload_def assemble_file_enc_protected_def
          Let_def validate_recipient_members_def world_key_facts(3))
  qed
  then show ?thesis unfolding same by (auto simp: world_file_document_def)
qed

lemma encrypted_by_signer:
  "encrypt_file_document E F content handles members sc = Inr d \<Longrightarrow> sig_signer_pub (fed_signature d) = sc_signer_pub sc"
  by (auto simp: encrypt_file_document_def Let_def finalize_file_document_signature_def sign_file_document_def
      build_artifact_signature_def)

lemma encrypted_sid:
  "encrypt_file_document E F content handles members sc = Inr d \<Longrightarrow> fe_sid (fed_protected d) = fv_sid F"
  by (auto simp: encrypt_file_document_def Let_def finalize_file_document_signature_def assemble_file_enc_protected_def
      build_file_enc_document_protected_def)

lemma world_tokenize:
  "jl_tokenize (world_lib docs) [b] = map_option raw_of (docs b)" "jl_schema (world_lib docs) target j = Inr ()"
  by (simp_all add: world_lib_def)

definition world_file_docs :: "u8 list \<Rightarrow> u8 \<Rightarrow> json option" where
  "world_file_docs content b =
     (if b = 70 then Some (se_file_enc (world_lib (\<lambda>_. None)) (world_file_document content)) else None)"

lemma world_file_carried:
  "file_text_carried (world_lib (world_file_docs content)) world_print (world_file_document content)"
proof -
  have uuid: "se_file_enc (world_lib docs) d = se_file_enc (world_lib (\<lambda>_. None)) d" for docs d
    unfolding se_file_enc_def se_file_protected_def se_file_payload_def se_file_payload_header_def world_lib_simps ..
  have "sig_signer_pub (fed_signature (world_file_document content)) = world_key"
    using encrypted_by_signer [OF world_encrypts_file [of "\<lambda>_. None" content]] by (simp add: world_signing_def)
  then have "wf_json (se_file_enc (world_lib (\<lambda>_. None)) (world_file_document content))"
    by (simp add: se_file_enc_def wf_se_file_protected wf_se_artifact_signature world_key_parts(2) less_char_def)
  moreover have "as_bytes ''F'' = [70]" by (simp add: as_bytes_def)
  ultimately show ?thesis
    unfolding file_text_carried_def uuid [of "world_file_docs content"] Let_def world_print_def
    by (simp add: one_byte_limits from_bytes_def parse_json_value_def unique_json_raw_of world_tokenize
        world_file_docs_def encrypted_sid [OF world_encrypts_file [of "\<lambda>_. None" content]]) (simp add: world_fresh_def)
qed

lemma encrypted_file_holds_content_witness:
  "\<exists>text. encrypt_file_content (world_env (world_file_docs [1, 2, 3])) world_print world_fresh [1, 2, 3]
     [world_key, world_key] world_signing = Inr text \<and>
   file_holds (world_env (world_file_docs [1, 2, 3])) [world_key] text [1, 2, 3]"
proof -
  let ?E = "world_env (world_file_docs [1, 2, 3])"
  have ordered: "members_ordered [world_key, world_key] = [world_key]" by (simp add: members_ordered_def)
  then have "encrypt_file_content ?E world_print world_fresh [1, 2, 3] [world_key, world_key] world_signing =
      Inr (world_print (se_file_enc (oe_json ?E) (world_file_document [1, 2, 3])))"
    by (simp add: encrypt_file_content_def Let_def world_key_facts(3) world_encrypts_file)
  moreover from encrypted_file_holds_content [OF this world_signer _ _ world_fresh_ok] 
  have "file_holds ?E (members_ordered [world_key, world_key])
      (world_print (se_file_enc (oe_json ?E) (world_file_document [1, 2, 3]))) [1, 2, 3]"
    using world_member_ok(1) world_file_carried [of "[1, 2, 3]"]
    by (simp add: limit_defs recipients_ok_def ordered world_key_facts(3) world_encrypts_file)
  ultimately show ?thesis by (auto simp: ordered)
qed

text \<open>
  The same member rewraps the file with a rotation of the key; the world repeats its fresh values
  and its clock, so the document it signs is the one it had.
\<close>

definition world_rewrap_fresh :: rewrap_fresh where
  "world_rewrap_fresh = \<lparr>rf_stale = \<lambda>_. [0], rf_add = \<lambda>_. [0], rf_rotate = world_fresh\<rparr>"

definition world_rotate :: rewrap_options where
  "world_rotate = \<lparr>ro_rotate_key = True, ro_clear_disclosure_history = False\<rparr>"

lemma fresh_document_rotates:
  assumes enc: "encrypt_file_document E F content [handle_of m] [m] sc = Inr d" and v: "vd_document v = d"
    and opens: "opens_with E v h cc (fv_master_key F) content"
    and reads: "file_executor_new v = s0" and fresh: "rf_rotate R = F"
    and ctx: "rc_member_handle ctx = h" "rc_key_ctx ctx = cc" "rc_target_members ctx = [m]"
    and sc: "env_signing_context E cc = Inr sc"
  shows "\<exists>s. file_rotate_key E R ctx s0 = Inr s \<and> file_finalize_document E ctx s = Inr d"
proof -
  let ?J = "oe_json E" and ?C = "oe_crypto E" and ?mk = "fv_master_key F" and ?sid = "fv_sid F"
  let ?header = "\<lparr>fph_format = FILE_PAYLOAD_V1, fph_sid = ?sid, fph_aead = AEAD_XCHACHA20_POLY1305\<rparr>"
  from enc obtain ts ks key mac e ws where ts: "oe_timestamp E = Inr ts"
    and ks: "file_schedule_extract ?J ?C ?mk ?sid = Inr ks"
    and key: "file_derive_content_key ?J ?C ks = Inr key" and mac: "file_derive_mac_key ?J ?C ks = Inr mac"
    and e: "encrypt_file_payload_content ?J ?C (fv_nonce F 0) content key ?header = Inr e"
    and ws: "build_wraps_for_recipients ?J ?C (fv_seal F) [m] ?sid ?mk FileWrap = Inr ws"
    and sign: "finalize_file_document_signature ?J ?C (build_file_enc_document_protected ?sid ws
      \<lparr>fp_protected = ?header, fp_encrypted = e\<rparr> ts) mac sc = Inr d"
    by (auto simp: encrypt_file_document_def encrypt_content_into_payload_def encrypt_payload_def
        assemble_file_enc_protected_def Let_def)
  let ?p = "build_file_enc_document_protected ?sid ws \<lparr>fp_protected = ?header, fp_encrypted = e\<rparr> ts"
  have p: "fe_sid ?p = ?sid" "fe_wrap ?p = ws" "fp_protected (fe_payload ?p) = ?header" "fe_updated_at ?p = ts"
    "?p\<lparr>fe_payload := (fe_payload ?p)\<lparr>fp_encrypted := e\<rparr>, fe_wrap := ws\<rparr> = ?p" "?p\<lparr>fe_updated_at := ts\<rparr> = ?p"
    by (simp_all add: build_file_enc_document_protected_def)
  have s0: "s0 = \<lparr>fx_protected = ?p, fx_verified = v, fx_key = Unloaded\<rparr>"
    using reads sign by (auto simp: file_executor_new_def v finalize_file_document_signature_def)
  from opens obtain info where unwrap: "unwrap_master_key_for_file_with_context ?J ?C v h cc = Inr (?mk, info)"
    and decrypts: "decrypt_file_document_with_context ?J ?C v h cc = Inr (content, info)" by (auto simp: opens_with_def)
  then obtain pos where pos: "verify_file_key_possession ?J ?C v ?mk = Inr pos"
    "decrypt_file_payload ?J ?C (fkp_document pos) (fkp_content_key pos) = Inr content"
    by (auto simp: decrypt_file_document_with_context_def Let_def split: if_splits)
  have sid: "fe_sid (opened_protected v) = ?sid" using sign by (auto simp: v finalize_file_document_signature_def p)
  then have pos': "fkp_document pos = v" "fkp_content_key pos = key" "fkp_master_key pos = ?mk"
    using pos(1) ks key by (auto simp: verify_file_key_possession_def Let_def)
  have loaded: "ensure_content_key E ctx s0 = Inr (s0\<lparr>fx_key := Original ?mk\<rparr>)"
    using unwrap pos(1) pos'(3) by (simp add: ensure_content_key_def s0 ctx unwrap_verified_file_content_key_def)
  have labels: "map wi_recipient_handle ws = [handle_of m]"
    using ws by (auto simp: build_wraps_eq dest!: file_wrap.wraps_all_labels)
  have resolved: "resolve_snapshot_verified_recipients [m] (fe_recipients ?p) = Inr [m]"
    by (simp add: resolve_snapshot_verified_recipients_def fe_recipients_def p labels ok_or_def)
  have "rotate_file_key E F v ?mk [m] ?p = Inr (?mk, ?p)"
    using ks key e ws resolved pos(2) unfolding pos'(1,2)
    by (simp add: rotate_file_key_def Let_def p)
  then have "file_rotate_key E R ctx s0 = Inr (s0\<lparr>fx_key := Rotated ?mk\<rparr>)"
    using loaded by (simp add: file_rotate_key_def fresh ctx s0)
  moreover have "file_finalize_document E ctx (s0\<lparr>fx_key := Rotated ?mk\<rparr>) = Inr d"
    using sign ks mac ts sc
    by (simp add: file_finalize_document_def ensure_content_key_def finalize_file_document_signature_def Let_def s0 p ctx)
  ultimately show ?thesis by blast
qed

lemma own_wraps_not_stale:
  assumes "encrypt_file_document E F content [handle_of m] [m] sc = Inr d"
  shows "collect_stale_recipient_handles (fe_wrap (fed_protected d)) [m] = []"
    and "map wi_recipient_handle (fe_wrap (fed_protected d)) = [handle_of m]"
proof -
  from assms obtain ws where ws: "build_wraps_for_recipients (oe_json E) (oe_crypto E) (fv_seal F) [m] (fv_sid F)
      (fv_master_key F) FileWrap = Inr ws" "fe_wrap (fed_protected d) = ws"
    by (auto simp: encrypt_file_document_def Let_def assemble_file_enc_protected_def finalize_file_document_signature_def
        build_file_enc_document_protected_def encrypt_content_into_payload_def)
  then have labels: "map wi_recipient_handle ws = [handle_of m]" "map wi_kid ws = [pk_kid (pk_protected m)]"
    by (auto simp: build_wraps_eq dest!: file_wrap.wraps_all_labels)
  then obtain w where "ws = [w]" by (cases ws) auto
  then show "collect_stale_recipient_handles (fe_wrap (fed_protected d)) [m] = []"
    "map wi_recipient_handle (fe_wrap (fed_protected d)) = [handle_of m]"
    using labels ws(2) by (simp_all add: collect_stale_recipient_handles_def List.map_filter_def)
qed

lemma world_file_opens:
  "\<exists>v. verify_file_content (world_lib (world_file_docs content)) world_crypto (oe_rfc3339 (world_env (world_file_docs content)))
      (oe_now (world_env (world_file_docs content))) (FileEncContent ''F'') = Inr v \<and>
    vd_document v = world_file_document content \<and>
    opens_with (world_env (world_file_docs content)) v ''alice'' world_context (fv_master_key world_fresh) content"
  if "length content \<le> MAX_PLAINTEXT_INPUT_SIZE"
  using encrypted_document_opens [OF world_encrypts_file world_signer _ _ world_fresh_ok that, of "world_file_docs content" world_print]
    world_file_carried [of content] world_member_ok by (auto simp: world_print_def world_key_facts(3))

lemma file_rewrap_reaches_targets_witness:
  "\<exists>text v'. rewrap_file_document (world_env (world_file_docs [1, 2, 3])) world_print world_rewrap_fresh world_rotate
     (FileEncContent ''F'') ''alice'' world_context [world_key] = Inr text \<and>
   verify_file_content (world_lib (world_file_docs [1, 2, 3])) world_crypto (oe_rfc3339 (world_env (world_file_docs [1, 2, 3])))
     (oe_now (world_env (world_file_docs [1, 2, 3]))) (FileEncContent text) = Inr v' \<and>
   opens_with (world_env (world_file_docs [1, 2, 3])) v' ''alice'' world_context (fv_master_key world_fresh) [1, 2, 3]"
proof -
  let ?E = "world_env (world_file_docs [1, 2, 3])" and ?d = "world_file_document [1, 2, 3]"
  let ?ctx = "rewrap_context_of world_rotate ''alice'' world_context [world_key]"
  have size: "length [1::u8, 2, 3] \<le> MAX_PLAINTEXT_INPUT_SIZE" by (simp add: limit_defs)
  from world_file_opens [OF this] obtain v where
    v: "verify_file_content (oe_json ?E) (oe_crypto ?E) (oe_rfc3339 ?E) (oe_now ?E) (FileEncContent ''F'') = Inr v"
      "vd_document v = ?d" "opens_with ?E v ''alice'' world_context (fv_master_key world_fresh) [1, 2, 3]" by auto
  have enc: "encrypt_file_document ?E world_fresh [1, 2, 3] [handle_of world_key] [world_key] world_signing = Inr ?d"
    by (simp add: world_key_facts(3) world_encrypts_file)
  from fresh_document_rotates [OF enc v(2,3) refl, of world_rewrap_fresh ?ctx] obtain s where
    s: "file_rotate_key ?E world_rewrap_fresh ?ctx (file_executor_new v) = Inr s" "file_finalize_document ?E ?ctx s = Inr ?d"
    using world_signer(1) by (auto simp: world_rewrap_fresh_def rewrap_context_of_def)
  note wraps = own_wraps_not_stale [OF enc]
  have handles: "map wi_recipient_handle (fe_wrap (fx_protected (file_executor_new v))) = [handle_of world_key]"
    using wraps(2) by (simp add: file_executor_new_def v(2))
  have plan: "file_plan_applied ?E world_print world_rewrap_fresh ?ctx v = Inr s"
    using s(1) wraps(1)
    by (simp add: file_plan_applied_def file_ops_simps handles Let_def v(2) build_rewrap_operation_plan_def
        apply_rewrap_operation_plan_def apply_recipient_step_def apply_flag_step_def collect_target_member_handles_def)
      (simp add: rewrap_context_of_def world_rotate_def build_rewrap_operation_plan_def apply_recipient_step_def
        apply_flag_step_def collect_target_member_handles_def handles v(2))
  have rewrap: "rewrap_file_document ?E world_print world_rewrap_fresh world_rotate (FileEncContent ''F'') ''alice'' world_context
      [world_key] = Inr ''F''"
    using v(1) plan s(2) unfolding file_plan_applied_def rewrap_context_of_def
    by (simp add: rewrap_file_document_def rewrap_document_with_common_skeleton_def rewrite_with_rewrap_operation_plan_def Let_def)
      (simp add: file_executor_ops_def world_print_def)
  have setting: "rewrap_setting ?E world_rewrap_fresh ?ctx"
    using world_member_ok(1) world_fresh_ok by (simp add: rewrap_setting_def rewrap_context_of_def world_rewrap_fresh_def)
  have rotate: "key_must_change world_rotate ws ms" for ws ms by (simp add: key_must_change_def world_rotate_def)
  obtain v' where "verify_file_content (oe_json ?E) (oe_crypto ?E) (oe_rfc3339 ?E) (oe_now ?E) (FileEncContent ''F'') = Inr v'"
    "opens_with ?E v' (handle_of world_key) world_context (fv_master_key (rf_rotate world_rewrap_fresh)) [1, 2, 3]"
  proof (rule exE [OF file_rewrap_reaches_targets [OF rewrap v(1,3) size setting world_signer(2)]], goal_cases)
    case 1
    then show ?case using plan s(2) world_file_carried [of "[1, 2, 3]"] by auto
  next
    case 2
    then show ?case using that world_member_ok(2) by (auto simp: rotate Let_def)
  qed
  then show ?thesis using rewrap by (intro exI [of _ "''F''"] exI [of _ v']) (simp add: world_key_facts(3) world_rewrap_fresh_def)
qed

end
