(* ===== verification/Kv_Rewrap_World.thy ===== *)
theory Kv_Rewrap_World
  imports Rewrap_Kv File_World
begin

text \<open>
  The member of \<open>Kv_World\<close> rewraps its kv-enc file for itself, with a new key and a cleared history.
\<close>

definition world_renew :: rewrap_options where
  "world_renew = \<lparr>ro_rotate_key = True, ro_clear_disclosure_history = True\<rparr>"

definition world_rewrap_ctx :: rewrap_context where
  "world_rewrap_ctx = rewrap_context_of world_renew ''alice'' world_context [world_key]"

lemma world_rewrap_ctx_simps [simp]:
  "rc_target_members world_rewrap_ctx = [world_key]" "rc_key_ctx world_rewrap_ctx = world_context"
  "rc_member_handle world_rewrap_ctx = ''alice''" "rc_options world_rewrap_ctx = world_renew"
  "rewrap_session world_rewrap_ctx v = session_of world_ctx v"
  by (simp_all add: world_rewrap_ctx_def rewrap_context_of_def rewrap_session_def session_of_def world_ctx_def)

lemma world_wrap_labels:
  "map wi_recipient_handle (kw_wrap world_wrap) = [''alice'']"
  "map wi_kid (kw_wrap world_wrap) = [pk_kid (pk_protected world_key)]"
  using world_wraps [of "\<lambda>_. None"] world_key_facts(3)
  by (auto simp: build_wraps_eq dest!: kv_wrap.wraps_all_labels)

lemma world_history:
  assumes "kvd_wrap (vd_document v) = world_wrap" and "rq_removed_recipients rq = []"
  shows "preserved_history E (session_of world_ctx v) rq world_wrap = Inr world_wrap"
  using assms by (simp add: preserved_history_def merge_removed_history_from_old_def session_document_def session_of_def
      merge_removed_history_def) (simp add: world_wrap_def)

lemma decrypted_keys:
  assumes "decrypt_kv_document_with_context J C v h cc = Inr (kv, info)"
    and "distinct (map ke_key (kvd_entries (vd_document v)))"
  shows "map fst kv = map ke_key (kvd_entries (vd_document v))"
  using assms by (auto simp: decrypt_kv_document_with_context_def Let_def decrypt_kv_entries_iff dest: list_all2_lengthD)

lemma world_decodes: "decode_decrypted_kv_values [(''K'', as_bytes ''secret'')] = Inr [(''K'', ''secret'')]"
  by (simp add: decode_decrypted_kv_values_def decode_decrypted_kv_value_def) code_simp

lemma world_decrypts:
  assumes "editor_reads (world_env world_docs) world_ctx world_file v kv" and "map_of kv = [''K'' \<mapsto> as_bytes ''secret'']"
    and "map ke_key (kvd_entries (vd_document v)) = [''K'']"
  shows "decrypt_all_values (world_env world_docs) (session_of world_ctx v) = Inr [(''K'', ''secret'')]"
proof -
  from assms(1) obtain info where dec: "decrypt_kv_document_with_context (world_lib world_docs) world_crypto v
      ''alice'' world_context = Inr (kv, info)" by (auto simp: editor_reads_def world_ctx_def)
  have "map fst kv = [''K'']" using decrypted_keys [OF dec] by (simp add: assms(3))
  then obtain b where "kv = [(''K'', b)]" by (cases kv) auto
  then have "kv = [(''K'', as_bytes ''secret'')]"
    using assms(2) by (auto dest: fun_cong [of _ _ "''K''"])
  then show ?thesis
    using dec by (simp add: decrypt_all_values_def session_of_def world_ctx_def world_decodes)
qed

section \<open>The rewrap\<close>

lemma world_rebuilt:
  assumes "mutate world_wrap = Inr world_wrap"
  shows "build_encrypted_kv (world_env docs) world_fresh [(''K'', ''secret'')] [world_key] False mutate =
    Inr (world_draft, replicate 32 6)"
  using world_built [where docs = docs and mutate = mutate, OF assms] by (simp add: hash_collect_def)

lemma world_draft_carried:
  "written_carried (world_env world_docs) world_context world_draft (replicate 32 6)
     (world_text (map (\<lambda>e. (de_key e, de_token e)) (dr_entries world_draft)))"
proof -
  have "written_carried (world_env world_docs) world_context world_draft (replicate 32 6)
      (world_text (map (\<lambda>k. (k, encode_base64url_nopad [30])) [''K'']))"
    by (rule world_carried) (simp_all add: world_draft_def)
  then show ?thesis by (simp add: world_draft_def)
qed

lemma world_draft_signs:
  "sign_unsigned_kv_document (world_lib docs) world_crypto world_draft (replicate 32 6) world_signing =
     Inr (world_text (map (\<lambda>e. (de_key e, de_token e)) (dr_entries world_draft)))"
  by (rule world_signs) (simp_all add: world_draft_def)

lemma world_request:
  assumes "request_ok world_rewrap_ctx v rq members" and "kvd_wrap (vd_document v) = world_wrap"
    and "map ke_value (kvd_entries (vd_document v)) = [world_entry ''secret'']"
  shows "members = [world_key] \<and> rq_removed_recipients rq = [] \<and> \<not> rq_disclosed rq"
proof -
  have only: "members \<noteq> []" "set members \<subseteq> {world_key}" "distinct (map handle_of members)"
    using assms(1) by (simp_all add: request_ok_def)
  then obtain m ms where "members = m # ms" by (cases members) auto
  then have members: "members = [world_key]" using only by (cases ms) auto
  have "wi_recipient_handle ` set (kw_wrap world_wrap) = {''alice''}"
    using world_wrap_labels(1) by (metis list.set(1,2) list.set_map)
  then have "rq_removed_recipients rq = []"
    using assms(1,2) members by (auto simp: request_ok_def world_key_facts(3))
  moreover have "\<not> session_disclosed (session_of world_ctx v)"
  proof -
    obtain e where "kvd_entries (vd_document v) = [e]" "ke_value e = world_entry ''secret''"
      using assms(3) by (cases "kvd_entries (vd_document v)") auto
    then show ?thesis by (simp add: session_disclosed_def session_document_def session_of_def world_entry_facts)
  qed
  ultimately show ?thesis using assms(1) members by (auto simp: request_ok_def)
qed

lemma world_rewrap_setting:
  assumes reads: "editor_reads (world_env world_docs) world_ctx world_file v kv" "map_of kv = [''K'' \<mapsto> as_bytes ''secret'']"
    and v: "kvd_head (vd_document v) = world_head" "kvd_wrap (vd_document v) = world_wrap"
    "map ke_key (kvd_entries (vd_document v)) = [''K'']"
    "map ke_value (kvd_entries (vd_document v)) = [world_entry ''secret'']"
    "session_unwrap_master_key (world_env world_docs) (session_of world_ctx v) = Inr (replicate 32 6)"
  shows "kv_rewrap_setting (world_env world_docs) world_rewrap_fresh world_rewrap_ctx v (replicate 32 6)
    [''K'' \<mapsto> as_bytes ''secret'']"
proof -
  let ?E = "world_env world_docs"
  from reads(1) obtain info where dec: "decrypt_kv_document_with_context (world_lib world_docs) world_crypto v
      ''alice'' world_context = Inr (kv, info)" by (auto simp: editor_reads_def world_ctx_def)
  then obtain mk where unwrap: "unwrap_master_key_for_kv_with_context (world_lib world_docs) world_crypto (kv_sid v)
      (kv_wraps v) ''alice'' world_context = Inr (mk, info)"
    by (auto simp: decrypt_kv_document_with_context_def Let_def)
  then have "mk = replicate 32 6"
    using v(5) by (auto simp: session_unwrap_master_key_def session_of_def world_ctx_def unwrap_master_key_from_verified_def
        verify_kv_key_possession_def Let_def)
  then have opens: "kv_opens_with ?E v ''alice'' world_context (replicate 32 6) [''K'' \<mapsto> as_bytes ''secret'']"
    using unwrap dec reads(2) by (auto simp: kv_opens_with_def)
  have carried: "written_carried ?E world_context d k body"
    if "decrypt_all_values ?E (session_of world_ctx v) = Inr vals" "request_ok world_rewrap_ctx v rq members"
      "build_encrypted_kv ?E (rf_rotate world_rewrap_fresh) vals members (rq_disclosed rq)
        (preserved_history ?E (session_of world_ctx v) rq) = Inr (d, k)"
      "env_signing_context ?E world_context = Inr sc" "sign_unsigned_kv_document (world_lib world_docs) world_crypto d k sc = Inr body"
    for rq members vals d k sc body
  proof -
    have "vals = [(''K'', ''secret'')]" using that(1) world_decrypts [OF reads v(3)] by simp
    moreover have rq: "members = [world_key]" "rq_removed_recipients rq = []" "\<not> rq_disclosed rq"
      using world_request [OF that(2) v(2,4)] by simp_all
    moreover have "rf_rotate world_rewrap_fresh = world_fresh" by (simp add: world_rewrap_fresh_def)
    ultimately have "d = world_draft" "k = replicate 32 6"
      using that(3) world_rebuilt [where docs = world_docs and mutate = "preserved_history ?E (session_of world_ctx v) rq",
        OF world_history [OF v(2) rq(2)]] by simp_all
    moreover have "sc = world_signing" using that(4) world_signer(1) by simp
    ultimately show ?thesis using that(5) world_draft_carried world_draft_signs by simp
  qed
  have aead: "kvh_aead (kvd_head (vd_document v)) = AEAD_XCHACHA20_POLY1305" by (simp add: v(1)) (simp add: world_head_def)
  have content: "\<exists>content. verify_kv_content (oe_json ?E) (oe_crypto ?E) (oe_rfc3339 ?E) (oe_now ?E) content = Inr v"
    using reads(1) by (auto simp: editor_reads_def)
  have base: "rewrap_setting ?E world_rewrap_fresh world_rewrap_ctx"
    using world_member_ok(1) world_fresh_ok by (simp add: rewrap_setting_def world_rewrap_fresh_def)
  show ?thesis
    unfolding kv_rewrap_setting_def world_rewrap_ctx_simps
    using base world_signer(2) content aead opens carried world_member_ok(2) by (auto simp: limit_defs)
qed

lemma world_rereads:
  assumes "editor_reads (world_env world_docs) world_ctx world_file v kv"
    and v: "kvd_head (vd_document v) = world_head" "kvd_wrap (vd_document v) = world_wrap"
    "map ke_key (kvd_entries (vd_document v)) = [''K'']"
    "map ke_token (kvd_entries (vd_document v)) = [encode_base64url_nopad [30]]"
    "map ke_value (kvd_entries (vd_document v)) = [world_entry ''secret'']"
  shows "\<exists>d0. build_unsigned (world_lib world_docs) (session_of world_ctx v) (kvd_head (vd_document v)) = Inr d0 \<and>
    dr_head d0 = world_head \<and> ws_data (dr_wrap d0) = world_wrap \<and>
    dr_entries d0 = [Preserved ''K'' (encode_base64url_nopad [30]) (world_entry ''secret'')]"
proof -
  from assms(1) have "verify_kv_content (world_lib world_docs) world_crypto (oe_rfc3339 (world_env world_docs))
      (oe_now (world_env world_docs)) world_file = Inr v" by (auto simp: editor_reads_def)
  from verified_wraps_valid(2) [OF this] obtain token where
    "find_map wrap_token_of (kvd_lines (vd_document v)) = Some token"
    "parse_kv_wrap_token (world_lib world_docs) token = Inr world_wrap" unfolding v(2) world_env_simps by blast
  moreover obtain e where "kvd_entries (vd_document v) = [e]" "ke_key e = ''K''"
    "ke_token e = encode_base64url_nopad [30]" "ke_value e = world_entry ''secret''"
    using v(3-5) by (cases "kvd_entries (vd_document v)") auto
  moreover have "session_document (session_of world_ctx v) = vd_document v"
    by (simp add: session_document_def session_of_def)
  ultimately show ?thesis
    by (simp add: build_unsigned_def builder_from_document_def wrap_source_from_lines_def resolve_wrap_source_def
        v(1,2) ws_raw_def)
qed

text \<open>The executor of the rewrap, and what it signs.\<close>

lemma world_plan:
  assumes reads: "editor_reads (world_env world_docs) world_ctx world_file v kv" "map_of kv = [''K'' \<mapsto> as_bytes ''secret'']"
    and v: "kvd_head (vd_document v) = world_head" "kvd_wrap (vd_document v) = world_wrap"
    "map ke_key (kvd_entries (vd_document v)) = [''K'']"
    "map ke_token (kvd_entries (vd_document v)) = [encode_base64url_nopad [30]]"
    "map ke_value (kvd_entries (vd_document v)) = [world_entry ''secret'']"
    "session_unwrap_master_key (world_env world_docs) (session_of world_ctx v) = Inr (replicate 32 6)"
  shows "\<exists>s d. kv_plan_applied (world_env world_docs) S world_rewrap_fresh world_rewrap_ctx v = Inr s \<and>
    kx_session s = session_of world_ctx v \<and> kv_final_draft (world_env world_docs) s = Inr (d, replicate 32 6) \<and>
    dr_head d = world_head \<and> dr_wrap d = ws_decoded world_wrap \<and>
    dr_entries d = [Preserved ''K'' (encode_base64url_nopad [30]) (world_entry ''secret'')]"
proof -
  let ?E = "world_env world_docs" and ?s = "session_of world_ctx v"
  obtain d0 where d0: "build_unsigned (world_lib world_docs) ?s (kvd_head (vd_document v)) = Inr d0"
    "dr_head d0 = world_head" "ws_data (dr_wrap d0) = world_wrap"
    "dr_entries d0 = [Preserved ''K'' (encode_base64url_nopad [30]) (world_entry ''secret'')]"
    using world_rereads [OF reads(1) v(1-5)] by blast
  let ?start = "\<lparr>kx_session = ?s, kx_doc = d0, kx_master_key_state = KvOriginal\<rparr>"
  have doc: "session_document ?s = vd_document v" by (simp add: session_document_def session_of_def)
  have session: "\<lparr>rs_verified = v, rs_member_handle = ''alice'', rs_key_ctx = world_context\<rparr> = ?s"
    by (simp add: session_of_def world_ctx_def)
  have parts: "rs_key_ctx ?s = world_context" by (simp add: session_of_def world_ctx_def)
  have new: "new_from_verified ?E v world_rewrap_ctx = Inr ?start"
    by (simp add: new_from_verified_def Let_def session doc d0(1))
  obtain e where "kvd_entries (vd_document v) = [e]" "ke_value e = world_entry ''secret''"
    using v(5) by (cases "kvd_entries (vd_document v)") auto
  then have undisclosed: "\<not> session_disclosed ?s" by (simp add: session_disclosed_def doc world_entry_facts)
  let ?rq = "\<lparr>rq_new_recipients = [''alice''], rq_removed_recipients = [], rq_disclosed = False, rq_preserve_removed_history = False\<rparr>"
  have "build_encrypted_kv ?E world_fresh [(''K'', ''secret'')] [world_key] False (preserved_history ?E ?s ?rq) =
      Inr (world_draft, replicate 32 6)"
    by (rule world_rebuilt) (rule world_history [OF v(2)], simp)
  then have "rewrap_kv_with_recipients ?E S world_fresh ?s (Some [world_key]) ?rq =
      Inr (world_text [(''K'', encode_base64url_nopad [30])])"
    using world_draft_signs [of world_docs]
    by (simp add: rewrap_kv_with_recipients_def resolve_verified_recipients_def resolve_snapshot_verified_recipients_def
        world_key_facts(3) ok_or_def world_decrypts [OF reads v(3)] encrypt_kv_map_with_key_context_def
        encrypt_kv_map_with_wrap_mutation_def world_signer(1) parts)
      (simp add: world_draft_def)
  moreover have "session_load ?E world_file ''alice'' world_context = Inr ?s"
    using editor_session(1) [OF reads(1)] by (simp add: world_ctx_def)
  moreover have "extract_recipients_from_wrap (kx_wrap ?start) = [''alice'']"
    by (simp add: kx_wrap_def d0(3) extract_recipients_from_wrap_def world_wrap_labels)
  ultimately have rotated: "kv_rotate_key ?E S world_rewrap_fresh world_rewrap_ctx ?start =
      Inr (\<lparr>kx_session = ?s, kx_doc = d0, kx_master_key_state = KvRotated\<rparr>)"
    using undisclosed
    by (simp add: kv_rotate_key_def rebuild_from_content_def world_rewrap_fresh_def doc d0(1) flip: world_file_def)
  let ?d = "d0\<lparr>dr_wrap := ws_decoded world_wrap\<rparr>"
  have "world_wrap\<lparr>kw_removed_recipients := None\<rparr> = world_wrap" by (simp add: world_wrap_def)
  then have cleared: "kv_clear_disclosure_history ?E (\<lparr>kx_session = ?s, kx_doc = d0, kx_master_key_state = KvRotated\<rparr>) =
      Inr (\<lparr>kx_session = ?s, kx_doc = ?d, kx_master_key_state = KvRotated\<rparr>)"
    by (simp add: kv_clear_disclosure_history_def wrap_mut_def ws_data_mut_def d0 clear_disclosed_flags_def
        clear_disclosed_entry_def world_entry_facts ws_decoded_def)
  have "collect_stale_recipient_handles (kw_wrap world_wrap) [world_key] = []"
    "rx_current_recipients (kv_executor_ops ?E S world_rewrap_fresh world_rewrap_ctx) ?start = [''alice'']"
  proof -
    obtain w where "kw_wrap world_wrap = [w]" "wi_recipient_handle w = ''alice''" "wi_kid w = pk_kid (pk_protected world_key)"
      using world_wrap_labels by (cases "kw_wrap world_wrap") auto
    then show "collect_stale_recipient_handles (kw_wrap world_wrap) [world_key] = []"
      "rx_current_recipients (kv_executor_ops ?E S world_rewrap_fresh world_rewrap_ctx) ?start = [''alice'']"
      by (simp_all add: collect_stale_recipient_handles_def List.map_filter_def kv_ops_simps kx_wrap_def d0(3) world_key_facts(3))
  qed
  then have "kv_plan_applied ?E S world_rewrap_fresh world_rewrap_ctx v =
      Inr (\<lparr>kx_session = ?s, kx_doc = ?d, kx_master_key_state = KvRotated\<rparr>)"
    by (simp add: kv_plan_applied_def Let_def new v(2) build_rewrap_operation_plan_def world_renew_def
        apply_rewrap_operation_plan_def apply_recipient_step_def apply_flag_step_def collect_target_member_handles_def
        world_key_facts(3) kv_ops_simps(5,6) rotated cleared)
  moreover have "kv_final_draft ?E (\<lparr>kx_session = ?s, kx_doc = ?d, kx_master_key_state = KvRotated\<rparr>) = Inr (?d, replicate 32 6)"
    by (simp add: kv_final_draft_def update_timestamp_def v(6) set_updated_at_def)
      (simp add: d0(2) world_head_def)
  ultimately show ?thesis using d0 by simp
qed

lemma kv_rewrap_reaches_targets_witness:
  "\<exists>body v'. rewrap_kv_document (world_env world_docs) (\<lambda>_. Inr []) world_rewrap_fresh world_renew world_file ''alice''
     world_context [world_key] = Inr body \<and>
   verify_kv_content (world_lib world_docs) world_crypto (oe_rfc3339 (world_env world_docs))
     (oe_now (world_env world_docs)) (KvEncContent body) = Inr v' \<and>
   kv_opens_with (world_env world_docs) v' ''alice'' world_context (fv_master_key world_fresh) [''K'' \<mapsto> as_bytes ''secret'']"
proof -
  let ?E = "world_env world_docs" and ?S = "\<lambda>_. Inr [] :: public_key list res"
  let ?body = "world_text [(''K'', encode_base64url_nopad [30])]"
  obtain v kv where reads: "editor_reads ?E world_ctx world_file v kv" "map_of kv = [''K'' \<mapsto> as_bytes ''secret'']"
    and v: "kvd_head (vd_document v) = world_head" "kvd_wrap (vd_document v) = world_wrap"
    "map ke_key (kvd_entries (vd_document v)) = [''K'']"
    "map ke_token (kvd_entries (vd_document v)) = [encode_base64url_nopad [30]]"
    "map ke_value (kvd_entries (vd_document v)) = [world_entry ''secret'']"
    "session_unwrap_master_key ?E (session_of world_ctx v) = Inr (replicate 32 6)"
    using world_reads by (elim exE conjE) (rule that)
  have verified: "verify_kv_content (oe_json ?E) (oe_crypto ?E) (oe_rfc3339 ?E) (oe_now ?E) world_file = Inr v"
    using reads(1) by (simp add: editor_reads_def)
  obtain s d where plan: "kv_plan_applied ?E ?S world_rewrap_fresh world_rewrap_ctx v = Inr s"
    and s: "kx_session s = session_of world_ctx v" "kv_final_draft ?E s = Inr (d, replicate 32 6)"
    and d: "dr_head d = world_head" "dr_wrap d = ws_decoded world_wrap"
    "dr_entries d = [Preserved ''K'' (encode_base64url_nopad [30]) (world_entry ''secret'')]"
    using world_plan [OF reads v, of ?S] by (elim exE conjE) (rule that)
  have sign: "session_sign ?E (kx_session s) d (replicate 32 6) = Inr ?body"
    by (simp add: session_sign_def s(1) session_of_def world_ctx_def world_signer(1) world_signs [OF d(1,2)] d(3))
  have ctx: "rewrap_context_of world_renew ''alice'' world_context [world_key] = world_rewrap_ctx"
    by (simp add: world_rewrap_ctx_def)
  have rewrap: "rewrap_kv_document ?E ?S world_rewrap_fresh world_renew world_file ''alice'' world_context [world_key] = Inr ?body"
    using plan s(2) sign by (simp add: rewrap_kv_eq [OF verified] ctx)
  have "written_carried ?E world_context d (replicate 32 6) (world_text (map (\<lambda>k. (k, encode_base64url_nopad [30])) [''K'']))"
    by (rule world_carried) (simp_all add: d)
  then have carried: "written_carried ?E world_context d (replicate 32 6) ?body" by simp
  have rotate: "key_must_change world_renew ws ms" for ws ms by (simp add: key_must_change_def world_renew_def)
  note setting = world_rewrap_setting [OF reads v(1-3) v(5,6)]
  obtain v' where "verify_kv_content (oe_json ?E) (oe_crypto ?E) (oe_rfc3339 ?E) (oe_now ?E) (KvEncContent ?body) = Inr v'"
    "kv_opens_with ?E v' (handle_of world_key) world_context (fv_master_key (rf_rotate world_rewrap_fresh)) [''K'' \<mapsto> as_bytes ''secret'']"
  proof (rule exE [OF kv_rewrap_reaches_targets [OF rewrap [unfolded world_file_def] verified [unfolded world_file_def]
      setting [folded ctx]]], goal_cases)
    case (1 s' d' k')
    then show ?case using plan s(2) carried by (simp add: ctx)
  next
    case 2
    then show ?case using that world_member_ok(2) by (auto simp: rotate Let_def)
  qed
  then show ?thesis using rewrap by (intro exI [of _ ?body] exI [of _ v']) (simp add: world_key_facts(3) world_rewrap_fresh_def)
qed

end
