(* ===== verification/Spec2Isabelle.thy ===== *)
theory Spec2Isabelle
  imports Validation Identity Base64_Codec Wire_Model Json_Documents Dotenv Kv_Text Kv_Document
    Envelope Ssh_Agent Private_Keys Verify Kv_Rewrap_World
begin

text \<open>
  Verification development for kapsaro, a tool that shares encrypted files and dotenv-style
  secrets between the members of a workspace. The theories model the Rust library under
  \<open>crates/kapsaro-core/src\<close>; paths below are relative to it.

  \<^item> \<open>Prelude\<close>, \<open>Rust_Str\<close>: results and errors (\<open>error.rs\<close>), strings, lines, whitespace.
  \<^item> \<open>Validation\<close>: \<open>support/limits.rs\<close>, \<open>support/validation.rs\<close>.
  \<^item> \<open>Identity\<close>: \<open>support/kid.rs\<close>, \<open>format/kid.rs\<close>, \<open>model/identity.rs\<close>.
  \<^item> \<open>Base64_Codec\<close>: \<open>format/codec.rs\<close> and its two front ends, \<open>format/token\<close>.
\<close>

end
